(* ===== verification/Prelude.thy ===== *)
theory Prelude
  imports Main "HOL-Library.Word" "HOL-Library.Signed_Division"
begin

text \<open>
  Shared material of the development.

  \<^item> the types of the C code: \<open>u8\<close>, \<open>u16\<close>, \<open>u32\<close> for the unsigned types, HOL's
    \<open>int\<close> with an explicit wrap-around (\<open>s16\<close>, \<open>s32\<close>, \<open>s64\<close>) for the signed ones;
  \<^item> the memory mapped I/O of the LPC2468/LPC2478: a register file indexed by address and
    the log of the writes in program order (\<open>mmio\<close>, \<open>rd\<close>, \<open>wr\<close>), with the addresses of
    \<^verbatim>\<open>platform/lpc2468.h\<close>;
  \<^item> the collections of rewrite rules the component theories share.
\<close>

unbundle bit_operations_syntax

section \<open>Machine integers\<close>

type_synonym u8 = "8 word"
type_synonym u16 = "16 word"
type_synonym u32 = "32 word"

named_theorems wrap_simps \<open>a signed machine value inside its range is unchanged by the wrap-around\<close>
named_theorems mmio_simps \<open>reading and logging register writes\<close>

text \<open>
  Signed arithmetic of the target (two's complement, as arm-none-eabi-gcc computes it): the
  mathematical result is brought back into range.
\<close>

definition s16 :: "int \<Rightarrow> int" where
  "s16 x = signed_take_bit 15 x"

definition s32 :: "int \<Rightarrow> int" where
  "s32 x = signed_take_bit 31 x"

definition s64 :: "int \<Rightarrow> int" where
  "s64 x = signed_take_bit 63 x"

lemma s16_id [wrap_simps]: "- 32768 \<le> x \<Longrightarrow> x \<le> 32767 \<Longrightarrow> s16 x = x"
  by (simp add: s16_def signed_take_bit_int_eq_self)

lemma s32_id [wrap_simps]: "- 2147483648 \<le> x \<Longrightarrow> x \<le> 2147483647 \<Longrightarrow> s32 x = x"
  by (simp add: s32_def signed_take_bit_int_eq_self)

lemma s64_id [wrap_simps]:
  "- 9223372036854775808 \<le> x \<Longrightarrow> x \<le> 9223372036854775807 \<Longrightarrow> s64 x = x"
  by (simp add: s64_def signed_take_bit_int_eq_self)

lemma s32_range: "- 2147483648 \<le> s32 x" "s32 x \<le> 2147483647"
  using signed_take_bit_int_greater_eq_minus_exp [of 31 x]
    signed_take_bit_int_less_exp [of 31 x]
  by (simp_all add: s32_def)

text \<open>C's integer division truncates towards zero.\<close>

lemma sdiv_nonneg: "0 \<le> a \<Longrightarrow> 0 < b \<Longrightarrow> (a :: int) sdiv b = a div b"
  by (cases "a = 0") (simp_all add: signed_divide_int_def)

lemma sdiv_mult_self: "d \<noteq> 0 \<Longrightarrow> (a * d) sdiv d = (a :: int)"
proof -
  assume "d \<noteq> 0"
  then have "sgn d * sgn d = 1" by (simp add: sgn_if)
  with \<open>d \<noteq> 0\<close> show ?thesis
    by (simp add: signed_divide_int_def abs_mult sgn_mult mult.assoc mult.left_commute
        sgn_mult_abs)
qed

text \<open>
  Left shift by a register amount on the ARM7: only the low byte of the amount counts, and an
  amount of 32 or more clears the result.
\<close>

definition arm_lsl :: "u32 \<Rightarrow> int \<Rightarrow> u32" where
  "arm_lsl v n = (let k = nat (n mod 256) in if k < 32 then push_bit k v else 0)"

lemma arm_lsl_small: "0 \<le> n \<Longrightarrow> n < 32 \<Longrightarrow> arm_lsl v n = push_bit (nat n) v"
  by (simp add: arm_lsl_def nat_less_iff)

lemma one_word_cases: "(b :: 1 word) = 0 \<or> b = 1"
proof -
  have "uint b < 2" using uint_lt2p [of b] by simp
  moreover have "0 \<le> uint b" by simp
  ultimately have "uint b = 0 \<or> uint b = 1" by linarith
  then show ?thesis by (simp add: uint_1_eq word_uint_eq_iff)
qed

lemma one_word_neq_0: "((b :: 1 word) \<noteq> 0) = (b = 1)"
  using one_word_cases [of b] by auto

section \<open>Memory mapped registers\<close>

text \<open>
  \<open>mem\<close> holds the value last stored at an address, \<open>wlog\<close> all stores in program order.
  What a peripheral makes of a store is not part of the software: a status register the code
  polls is a parameter of the definition that polls it.
\<close>

record mmio =
  mem :: "u32 \<Rightarrow> u32"
  wlog :: "(u32 \<times> u32) list"

definition rd :: "u32 \<Rightarrow> mmio \<Rightarrow> u32" where
  "rd a m = mem m a"

definition wr :: "u32 \<Rightarrow> u32 \<Rightarrow> mmio \<Rightarrow> mmio" where
  "wr a v m = m\<lparr>mem := (mem m)(a := v), wlog := wlog m @ [(a, v)]\<rparr>"

definition mmio0 :: mmio where
  "mmio0 = \<lparr>mem = (\<lambda>_. 0), wlog = []\<rparr>"

lemma rd_wr [mmio_simps]: "rd a (wr b v m) = (if a = b then v else rd a m)"
  by (simp add: rd_def wr_def)

lemma wlog_wr [mmio_simps]: "wlog (wr a v m) = wlog m @ [(a, v)]"
  by (simp add: wr_def)

lemma rd_mmio0 [mmio_simps]: "rd a mmio0 = 0"
  by (simp add: rd_def mmio0_def)

lemma wlog_mmio0 [mmio_simps]: "wlog mmio0 = []"
  by (simp add: mmio0_def)

text \<open>Read-modify-write statements of the source: \<open>R |= v\<close> and \<open>R &= v\<close>.\<close>

definition wr_or :: "u32 \<Rightarrow> u32 \<Rightarrow> mmio \<Rightarrow> mmio" where
  "wr_or a v m = wr a (rd a m OR v) m"

definition wr_and :: "u32 \<Rightarrow> u32 \<Rightarrow> mmio \<Rightarrow> mmio" where
  "wr_and a v m = wr a (rd a m AND v) m"

lemma rd_wr_or [mmio_simps]: "rd a (wr_or b v m) = (if a = b then rd b m OR v else rd a m)"
  by (simp add: wr_or_def rd_wr)

lemma rd_wr_and [mmio_simps]: "rd a (wr_and b v m) = (if a = b then rd b m AND v else rd a m)"
  by (simp add: wr_and_def rd_wr)

lemma wlog_wr_or [mmio_simps]: "wlog (wr_or a v m) = wlog m @ [(a, rd a m OR v)]"
  by (simp add: wr_or_def wlog_wr)

lemma wlog_wr_and [mmio_simps]: "wlog (wr_and a v m) = wlog m @ [(a, rd a m AND v)]"
  by (simp add: wr_and_def wlog_wr)

text \<open>The register that selects the functions of the pins most drivers use.\<close>

abbreviation (input) "PINSEL0 \<equiv> (0xE002C000 :: u32)"

text \<open>A block of stores, in order.\<close>

fun wrs :: "(u32 \<times> u32) list \<Rightarrow> mmio \<Rightarrow> mmio" where
  "wrs [] m = m"
| "wrs ((a, v) # l) m = wrs l (wr a v m)"

lemma wlog_wrs [mmio_simps]: "wlog (wrs l m) = wlog m @ l"
  by (induction l m rule: wrs.induct) (simp_all add: wlog_wr)

lemma rd_wrs [mmio_simps]: "rd a (wrs l m) = (case map_of (rev l) a of None \<Rightarrow> rd a m | Some v \<Rightarrow> v)"
  by (induction l m rule: wrs.induct) (auto simp: rd_wr map_add_def split: option.splits)

text \<open>The values stored to a register, in order.\<close>

definition stores_at :: "u32 \<Rightarrow> mmio \<Rightarrow> u32 list" where
  "stores_at a m = map snd (filter (\<lambda>p. fst p = a) (wlog m))"

lemma stores_at_wr: "stores_at a (wr b v m) = stores_at a m @ (if a = b then [v] else [])"
  by (simp add: stores_at_def mmio_simps)

lemma stores_at_log: "wlog m' = wlog m @ l \<Longrightarrow> \<forall>p \<in> set l. fst p \<noteq> a \<Longrightarrow> stores_at a m' = stores_at a m"
  by (simp add: stores_at_def filter_empty_conv)

section \<open>Polling\<close>

text \<open>
  A loop that reads a register until its value satisfies \<open>P\<close>: \<open>f k\<close> is what the \<open>k\<close>-th read
  returns, the result is the index of the read that ends the loop, \<open>None\<close> a loop that never ends.
\<close>

partial_function (option) poll :: "(u32 \<Rightarrow> bool) \<Rightarrow> (nat \<Rightarrow> u32) \<Rightarrow> nat \<Rightarrow> nat option" where
  "poll P f n = (if P (f n) then Some n else poll P f (Suc n))"

lemma poll_hit:
  assumes "P (f k)" "n \<le> k" "\<And>j. n \<le> j \<Longrightarrow> j < k \<Longrightarrow> \<not> P (f j)"
  shows "poll P f n = Some k"
  using assms
proof (induction "k - n" arbitrary: n)
  case 0
  then show ?case by (subst poll.simps) simp
next
  case (Suc d)
  then have "\<not> P (f n)" "poll P f (Suc n) = Some k" by simp_all
  then show ?case by (subst poll.simps) simp
qed

lemma poll_SomeD: "poll P f n = Some k \<Longrightarrow> n \<le> k \<and> P (f k)"
  by (rule poll.raw_induct [of "\<lambda>((P, f), n) k. n \<le> k \<and> P (f k)", simplified])
    (fastforce split: if_splits dest: Suc_leD)+

lemma poll_returns: "(\<exists>m. poll P f n = Some m) = (\<exists>k \<ge> n. P (f k))"
proof
  assume "\<exists>k \<ge> n. P (f k)"
  define k where "k = (LEAST k. n \<le> k \<and> P (f k))"
  from \<open>\<exists>k \<ge> n. P (f k)\<close> have "n \<le> k \<and> P (f k)"
    unfolding k_def by (metis (mono_tags, lifting) LeastI)
  moreover have "\<not> P (f j)" if "n \<le> j" "j < k" for j
    using that not_less_Least unfolding k_def by blast
  ultimately show "\<exists>m. poll P f n = Some m" using poll_hit by blast
next
  assume "\<exists>m. poll P f n = Some m"
  then show "\<exists>k \<ge> n. P (f k)" using poll_SomeD by blast
qed

section \<open>Lists\<close>

lemma nth_list_update_int:
  "0 \<le> i \<Longrightarrow> 0 \<le> j \<Longrightarrow> i < int (length xs) \<Longrightarrow>
   (xs[nat i := v]) ! nat j = (if i = j then v else xs ! nat j)"
  by (auto simp: nth_list_update eq_nat_nat_iff)

end
