(* ===== verification/Can_Regs.thy ===== *)
theory Can_Regs
  imports Prelude
begin

text \<open>
  The CAN controller's register block and message type: the bit fields of
  \<^verbatim>\<open>drivers/can_bitdefs.h\<close> and the structures and enumerations of \<^verbatim>\<open>drivers/can.h\<close>. A bit
  field of \<open>n\<close> bits is a word of \<open>n\<close> bits, so a store into it truncates as in C. Each field carries
  the short name of its register as a prefix (\<open>mod_RM\<close> is \<open>canmod.RM\<close>). Unnamed padding bits
  have no field.
\<close>

section \<open>Bit fields\<close>

text \<open>CAN mode register.\<close>

record canmod_bits =
  mod_RM :: "1 word"
  mod_LOM :: "1 word"
  mod_STM :: "1 word"
  mod_TPM :: "1 word"
  mod_SM :: "1 word"
  mod_RPM :: "1 word"
  mod_TM :: "1 word"

text \<open>CAN command register.\<close>

record cancmr_bits =
  cmr_TR :: "1 word"
  cmr_AT :: "1 word"
  cmr_RRB :: "1 word"
  cmr_CDO :: "1 word"
  cmr_SRR :: "1 word"
  cmr_STB1 :: "1 word"
  cmr_STB2 :: "1 word"
  cmr_STB3 :: "1 word"

text \<open>CAN global status register.\<close>

record cangsr_bits =
  gsr_RBS :: "1 word"
  gsr_DOS :: "1 word"
  gsr_TBS :: "1 word"
  gsr_TCS :: "1 word"
  gsr_RS :: "1 word"
  gsr_TS :: "1 word"
  gsr_ES :: "1 word"
  gsr_BS :: "1 word"
  gsr_RXERR :: "8 word"
  gsr_TXERR :: "8 word"

text \<open>CAN interrupt capture register.\<close>

record canicr_bits =
  icr_RI :: "1 word"
  icr_TI1 :: "1 word"
  icr_EI :: "1 word"
  icr_DOI :: "1 word"
  icr_WUI :: "1 word"
  icr_EPI :: "1 word"
  icr_ALI :: "1 word"
  icr_BEI :: "1 word"
  icr_IDI :: "1 word"
  icr_TI2 :: "1 word"
  icr_TI3 :: "1 word"
  icr_ERRBIT :: "5 word"
  icr_ERRDIR :: "1 word"
  icr_ERRC :: "2 word"
  icr_ALCBIT :: "5 word"

text \<open>CAN interrupt enable register.\<close>

record canier_bits =
  ier_RIE :: "1 word"
  ier_TIE1 :: "1 word"
  ier_EIE :: "1 word"
  ier_DOIE :: "1 word"
  ier_WUIE :: "1 word"
  ier_EPIE :: "1 word"
  ier_ALIE :: "1 word"
  ier_BEIE :: "1 word"
  ier_IDIE :: "1 word"
  ier_TIE2 :: "1 word"
  ier_TIE3 :: "1 word"

text \<open>CAN bus timing register.\<close>

record canbtr_bits =
  btr_BRP :: "10 word"
  btr_SJW :: "2 word"
  btr_TSEG1 :: "4 word"
  btr_TSEG2 :: "3 word"
  btr_SAM :: "1 word"

text \<open>CAN error warning limit register.\<close>

record canewl_bits =
  ewl_EWL :: "8 word"

text \<open>CAN status register.\<close>

record cansr_bits =
  sr_RBS :: "1 word"
  sr_DOS :: "1 word"
  sr_TBS1 :: "1 word"
  sr_TCS1 :: "1 word"
  sr_RS :: "1 word"
  sr_TS1 :: "1 word"
  sr_ES :: "1 word"
  sr_BS :: "1 word"
  sr_TBS2 :: "1 word"
  sr_TCS2 :: "1 word"
  sr_TS2 :: "1 word"
  sr_TBS3 :: "1 word"
  sr_TCS3 :: "1 word"
  sr_TS3 :: "1 word"

text \<open>CAN rx frame status register.\<close>

record canrfs_bits =
  rfs_IDIndex :: "10 word"
  rfs_BP :: "1 word"
  rfs_DLC :: "4 word"
  rfs_RTR :: "1 word"
  rfs_FF :: "1 word"

text \<open>CAN rx identifier register: the 29-bit view of the union and the bits above it.\<close>

record canrid_bits =
  rid_ID29_0 :: "29 word"
  rid_top :: "3 word"

text \<open>CAN rx data register A.\<close>

record canrda_bits =
  rda_Data1 :: "8 word"
  rda_Data2 :: "8 word"
  rda_Data3 :: "8 word"
  rda_Data4 :: "8 word"

text \<open>CAN rx data register B.\<close>

record canrdb_bits =
  rdb_Data5 :: "8 word"
  rdb_Data6 :: "8 word"
  rdb_Data7 :: "8 word"
  rdb_Data8 :: "8 word"

text \<open>CAN tx frame information register.\<close>

record cantfi_bits =
  tfi_PRIO :: "8 word"
  tfi_DLC :: "4 word"
  tfi_RTR :: "1 word"
  tfi_FF :: "1 word"

text \<open>CAN tx identifier register: the 29-bit view of the union and the bits above it.\<close>

record cantid_bits =
  tid_ID29_0 :: "29 word"
  tid_top :: "3 word"

text \<open>CAN tx data register A.\<close>

record cantda_bits =
  tda_Data1 :: "8 word"
  tda_Data2 :: "8 word"
  tda_Data3 :: "8 word"
  tda_Data4 :: "8 word"

text \<open>CAN tx data register B.\<close>

record cantdb_bits =
  tdb_Data5 :: "8 word"
  tdb_Data6 :: "8 word"
  tdb_Data7 :: "8 word"
  tdb_Data8 :: "8 word"

section \<open>The register block\<close>

record CAN_REGS_T =
  canmod :: canmod_bits
  cancmr :: cancmr_bits
  cangsr :: cangsr_bits
  canicr :: canicr_bits
  canier :: canier_bits
  canbtr :: canbtr_bits
  canewl :: canewl_bits
  cansr :: cansr_bits
  canrfs :: canrfs_bits
  canrid :: canrid_bits
  canrda :: canrda_bits
  canrdb :: canrdb_bits
  cantfi1 :: cantfi_bits
  cantid1 :: cantid_bits
  cantda1 :: cantda_bits
  cantdb1 :: cantdb_bits
  cantfi2 :: cantfi_bits
  cantid2 :: cantid_bits
  cantda2 :: cantda_bits
  cantdb2 :: cantdb_bits
  cantfi3 :: cantfi_bits
  cantid3 :: cantid_bits
  cantda3 :: cantda_bits
  cantdb3 :: cantdb_bits

section \<open>Messages and enumerations\<close>

text \<open>
  A CAN message. The \<open>Frame\<close> union is modelled by its bit-field view; \<open>Frame.Raw\<close> is not used by
  the driver.
\<close>

record CANMSG_T =
  Dummy :: "16 word"
  DLC :: "4 word"
  Dummy2 :: "10 word"
  RTR :: "1 word"
  FF :: "1 word"
  MsgID :: u32
  Data :: "u8 list"

datatype ERROR_CONDITION_TYPE_T = RX_ERROR_CONDITION | TX_ERROR_CONDITION

datatype CAN_IOCTL_CMD_T =
    CAN_SET_BAUD_RATE
  | CAN_AUTO_SET_BAUD_RATE
  | CAN_SET_FILTER
  | CAN_SET_MODE
  | CAN_GET_STATUS
  | CAN_FORCE_BUS_OFF
  | CAN_CLEAR_ERROR_CONDITION

datatype CAN_BAUD_RATE_T = BPS_25K | BPS_50K | BPS_125K | BPS_250K | BPS_500K | BPS_1000K

datatype CAN_MODE_T = MODE_SELF_TEST | MODE_LISTEN_ONLY | MODE_OPERATING | MODE_RESET

datatype CAN_IOCTL_STS_T =
    CAN_MODE
  | CAN_BAUD_RATE
  | CAN_FILTER_BITS
  | CAN_MASK_BITS
  | CAN_DATA_OVERRUN
  | CAN_ERROR_STATUS
  | CAN_BUS_STATUS
  | CAN_RX_ERRORS
  | CAN_TX_ERRORS

text \<open>
  C enumerators are the integers from 0 in the order of their declaration; a \<open>switch\<close> over an
  \<open>int\<close> takes its default branch for every other value.
\<close>

definition enum_decode :: "'e list \<Rightarrow> int \<Rightarrow> 'e option" where
  "enum_decode es i = (if 0 \<le> i \<and> i < int (length es) then Some (es ! nat i) else None)"

definition error_condition_enum :: "ERROR_CONDITION_TYPE_T list" where
  "error_condition_enum = [RX_ERROR_CONDITION, TX_ERROR_CONDITION]"

definition ioctl_cmd_enum :: "CAN_IOCTL_CMD_T list" where
  "ioctl_cmd_enum = [CAN_SET_BAUD_RATE, CAN_AUTO_SET_BAUD_RATE, CAN_SET_FILTER, CAN_SET_MODE,
     CAN_GET_STATUS, CAN_FORCE_BUS_OFF, CAN_CLEAR_ERROR_CONDITION]"

definition baud_rate_enum :: "CAN_BAUD_RATE_T list" where
  "baud_rate_enum = [BPS_25K, BPS_50K, BPS_125K, BPS_250K, BPS_500K, BPS_1000K]"

definition mode_enum :: "CAN_MODE_T list" where
  "mode_enum = [MODE_SELF_TEST, MODE_LISTEN_ONLY, MODE_OPERATING, MODE_RESET]"

definition ioctl_sts_enum :: "CAN_IOCTL_STS_T list" where
  "ioctl_sts_enum = [CAN_MODE, CAN_BAUD_RATE, CAN_FILTER_BITS, CAN_MASK_BITS, CAN_DATA_OVERRUN,
     CAN_ERROR_STATUS, CAN_BUS_STATUS, CAN_RX_ERRORS, CAN_TX_ERRORS]"

lemmas enum_defs = enum_decode_def error_condition_enum_def ioctl_cmd_enum_def baud_rate_enum_def
  mode_enum_def ioctl_sts_enum_def

section \<open>All-zero blocks\<close>

text \<open>The register block and a message with every bit 0, for concrete executions.\<close>

definition regs0 :: CAN_REGS_T where
  "regs0 = \<lparr>canmod = \<lparr>mod_RM = 0, mod_LOM = 0, mod_STM = 0, mod_TPM = 0, mod_SM = 0, mod_RPM =
       0, mod_TM = 0\<rparr>,
     cancmr = \<lparr>cmr_TR = 0, cmr_AT = 0, cmr_RRB = 0, cmr_CDO = 0, cmr_SRR = 0, cmr_STB1
       = 0, cmr_STB2 = 0, cmr_STB3 = 0\<rparr>,
     cangsr = \<lparr>gsr_RBS = 0, gsr_DOS = 0, gsr_TBS = 0, gsr_TCS = 0, gsr_RS = 0, gsr_TS =
       0, gsr_ES = 0, gsr_BS = 0, gsr_RXERR = 0, gsr_TXERR = 0\<rparr>,
     canicr = \<lparr>icr_RI = 0, icr_TI1 = 0, icr_EI = 0, icr_DOI = 0, icr_WUI = 0, icr_EPI =
       0, icr_ALI = 0, icr_BEI = 0, icr_IDI = 0, icr_TI2 = 0, icr_TI3 = 0, icr_ERRBIT =
       0, icr_ERRDIR = 0, icr_ERRC = 0, icr_ALCBIT = 0\<rparr>,
     canier = \<lparr>ier_RIE = 0, ier_TIE1 = 0, ier_EIE = 0, ier_DOIE = 0, ier_WUIE = 0,
       ier_EPIE = 0, ier_ALIE = 0, ier_BEIE = 0, ier_IDIE = 0, ier_TIE2 = 0, ier_TIE3 =
       0\<rparr>,
     canbtr = \<lparr>btr_BRP = 0, btr_SJW = 0, btr_TSEG1 = 0, btr_TSEG2 = 0, btr_SAM =
       0\<rparr>,
     canewl = \<lparr>ewl_EWL = 0\<rparr>,
     cansr = \<lparr>sr_RBS = 0, sr_DOS = 0, sr_TBS1 = 0, sr_TCS1 = 0, sr_RS = 0, sr_TS1 = 0,
       sr_ES = 0, sr_BS = 0, sr_TBS2 = 0, sr_TCS2 = 0, sr_TS2 = 0, sr_TBS3 = 0, sr_TCS3
       = 0, sr_TS3 = 0\<rparr>,
     canrfs = \<lparr>rfs_IDIndex = 0, rfs_BP = 0, rfs_DLC = 0, rfs_RTR = 0, rfs_FF =
       0\<rparr>,
     canrid = \<lparr>rid_ID29_0 = 0, rid_top = 0\<rparr>,
     canrda = \<lparr>rda_Data1 = 0, rda_Data2 = 0, rda_Data3 = 0, rda_Data4 = 0\<rparr>,
     canrdb = \<lparr>rdb_Data5 = 0, rdb_Data6 = 0, rdb_Data7 = 0, rdb_Data8 = 0\<rparr>,
     cantfi1 = \<lparr>tfi_PRIO = 0, tfi_DLC = 0, tfi_RTR = 0, tfi_FF = 0\<rparr>,
     cantid1 = \<lparr>tid_ID29_0 = 0, tid_top = 0\<rparr>,
     cantda1 = \<lparr>tda_Data1 = 0, tda_Data2 = 0, tda_Data3 = 0, tda_Data4 = 0\<rparr>,
     cantdb1 = \<lparr>tdb_Data5 = 0, tdb_Data6 = 0, tdb_Data7 = 0, tdb_Data8 = 0\<rparr>,
     cantfi2 = \<lparr>tfi_PRIO = 0, tfi_DLC = 0, tfi_RTR = 0, tfi_FF = 0\<rparr>,
     cantid2 = \<lparr>tid_ID29_0 = 0, tid_top = 0\<rparr>,
     cantda2 = \<lparr>tda_Data1 = 0, tda_Data2 = 0, tda_Data3 = 0, tda_Data4 = 0\<rparr>,
     cantdb2 = \<lparr>tdb_Data5 = 0, tdb_Data6 = 0, tdb_Data7 = 0, tdb_Data8 = 0\<rparr>,
     cantfi3 = \<lparr>tfi_PRIO = 0, tfi_DLC = 0, tfi_RTR = 0, tfi_FF = 0\<rparr>,
     cantid3 = \<lparr>tid_ID29_0 = 0, tid_top = 0\<rparr>,
     cantda3 = \<lparr>tda_Data1 = 0, tda_Data2 = 0, tda_Data3 = 0, tda_Data4 = 0\<rparr>,
     cantdb3 = \<lparr>tdb_Data5 = 0, tdb_Data6 = 0, tdb_Data7 = 0, tdb_Data8 = 0\<rparr>\<rparr>"

definition msg0 :: CANMSG_T where
  "msg0 = \<lparr>Dummy = 0, DLC = 0, Dummy2 = 0, RTR = 0, FF = 0, MsgID = 0, Data = replicate 8 0\<rparr>"

end
