(* ===== verification/Fifo.thy ===== *)
theory Fifo
  imports Prelude
begin

text \<open>
  The queue interface the CAN driver relies on.

  \<^item> \<open>bounded_fifo\<close> states what a bounded queue promises over an abstract list of contents;
    \<open>fifo_reader\<close> and \<open>fifo_writer\<close> extend it with the batch read and batch write loops of
    a driver, and prove once what those loops do;
  \<^item> \<open>ring_list\<close> is the abstraction of a ring buffer (array, tail index, head index), with the
    lemmas from which the rings of \<^verbatim>\<open>drivers/can.c\<close> interpret the interface.
\<close>

section \<open>The interface\<close>

locale bounded_fifo =
  fixes invar :: "'s \<Rightarrow> bool"
    and contents :: "'s \<Rightarrow> 'a list"
    and cap :: nat
    and put :: "'a \<Rightarrow> 's \<Rightarrow> 's"
    and front :: "'s \<Rightarrow> 'a"
    and pop :: "'s \<Rightarrow> 's"
  assumes len_contents: "invar s \<Longrightarrow> length (contents s) \<le> cap"
    and invar_put: "invar s \<Longrightarrow> invar (put x s)"
    and contents_put: "invar s \<Longrightarrow> length (contents s) < cap \<Longrightarrow> contents (put x s) = contents s @ [x]"
    and invar_pop: "invar s \<Longrightarrow> contents s \<noteq> [] \<Longrightarrow> invar (pop s)"
    and contents_pop: "invar s \<Longrightarrow> contents s \<noteq> [] \<Longrightarrow> contents s = front s # contents (pop s)"
begin

lemma front_hd: "invar s \<Longrightarrow> contents s \<noteq> [] \<Longrightarrow> front s = hd (contents s)"
  by (subst contents_pop) auto

lemma pop_tl: "invar s \<Longrightarrow> contents s \<noteq> [] \<Longrightarrow> contents (pop s) = tl (contents s)"
  using contents_pop [of s] by (metis list.sel(3))

lemma put_then_front:
  "invar s \<Longrightarrow> contents s = [] \<Longrightarrow> 0 < cap \<Longrightarrow> front (put x s) = x"
  using front_hd [OF invar_put] by (simp add: contents_put)

end

text \<open>A batch read: take elements until the budget is used up or the queue is empty.\<close>

locale fifo_reader = bounded_fifo +
  fixes nonempty :: "'s \<Rightarrow> bool"
    and read_loop :: "int \<Rightarrow> 's \<Rightarrow> 'a list \<times> 's"
  assumes nonempty_iff: "invar s \<Longrightarrow> nonempty s = (contents s \<noteq> [])"
    and read_loop_eq: "invar s \<Longrightarrow> read_loop n s =
      (if n > 0 \<and> nonempty s
       then let (xs, s') = read_loop (n - 1) (pop s) in (front s # xs, s')
       else ([], s))"
begin

lemma read_loop_spec:
  "invar s \<Longrightarrow> read_loop n s = (xs, s') \<Longrightarrow>
   invar s' \<and> xs = take (nat n) (contents s) \<and> contents s' = drop (nat n) (contents s)"
proof (induction "length (contents s)" arbitrary: s n xs s')
  case 0
  then show ?case by (subst (asm) read_loop_eq) (auto simp: nonempty_iff)
next
  case (Suc k)
  then have ne: "contents s \<noteq> []" by auto
  show ?case
  proof (cases "n > 0")
    case False
    with Suc.prems show ?thesis by (subst (asm) read_loop_eq) auto
  next
    case True
    obtain ys t where t: "read_loop (n - 1) (pop s) = (ys, t)" by fastforce
    have k: "k = length (contents (pop s))"
      using Suc.hyps(2) ne Suc.prems(1) by (simp add: pop_tl)
    have IH: "invar t \<and> ys = take (nat (n - 1)) (contents (pop s)) \<and>
        contents t = drop (nat (n - 1)) (contents (pop s))"
      by (rule Suc.hyps(1) [OF k invar_pop [OF Suc.prems(1) ne] t])
    have eq: "xs = front s # ys" "s' = t"
      using Suc.prems(2) True ne t Suc.prems(1)
      by (auto simp: read_loop_eq [OF Suc.prems(1)] nonempty_iff)
    have "nat n = Suc (nat (n - 1))" using True by simp
    then show ?thesis
      using IH eq contents_pop [OF Suc.prems(1) ne] by (metis drop_Suc_Cons take_Suc_Cons)
  qed
qed

text \<open>Two reads in a row give what one read of the joint budget gives.\<close>

lemma read_loop_append:
  assumes "invar s" "0 \<le> n" "0 \<le> m"
    and "read_loop n s = (xs, s1)" "read_loop m s1 = (ys, s2)"
    and "read_loop (n + m) s = (zs, s3)"
  shows "zs = xs @ ys"
proof -
  have 1: "invar s1 \<and> xs = take (nat n) (contents s) \<and> contents s1 = drop (nat n) (contents s)"
    by (rule read_loop_spec) fact+
  have 2: "invar s2 \<and> ys = take (nat m) (contents s1) \<and> contents s2 = drop (nat m) (contents s1)"
    by (rule read_loop_spec) (use 1 assms in auto)
  have 3: "invar s3 \<and> zs = take (nat (n + m)) (contents s) \<and> contents s3 = drop (nat (n + m)) (contents s)"
    by (rule read_loop_spec) fact+
  show ?thesis using 1 2 3 assms by (simp add: nat_add_distrib take_add)
qed

end

text \<open>A batch write from a caller's buffer: add elements while there is budget and room.\<close>

locale fifo_writer = bounded_fifo +
  fixes free :: "'s \<Rightarrow> int"
    and write_loop :: "int \<Rightarrow> (nat \<Rightarrow> 'a) \<Rightarrow> nat \<Rightarrow> 's \<Rightarrow> int \<times> 's"
  assumes free_eq: "invar s \<Longrightarrow> free s = int cap - int (length (contents s))"
    and write_loop_eq: "invar s \<Longrightarrow> write_loop n buf k s =
      (if n > 0 \<and> free s > 0
       then let (b, s') = write_loop (n - 1) buf (Suc k) (put (buf k) s) in (b + 1, s')
       else (0, s))"
begin

lemma write_loop_spec:
  "invar s \<Longrightarrow> write_loop n buf k s = (b, s') \<Longrightarrow>
   invar s' \<and> b = min (max n 0) (int cap - int (length (contents s))) \<and>
   contents s' = contents s @ map buf [k ..< k + nat b]"
proof (induction "cap - length (contents s)" arbitrary: s n k b s')
  case 0
  have full: "length (contents s) = cap"
    using len_contents [OF "0.prems"(1)] "0.hyps" by linarith
  have "write_loop n buf k s = (0, s)"
    by (subst write_loop_eq [OF "0.prems"(1)]) (simp add: free_eq [OF "0.prems"(1)] full)
  with "0.prems"(2) have "b = 0" "s' = s" by simp_all
  with "0.prems"(1) full show ?case by simp
next
  case (Suc d)
  have room: "length (contents s) < cap" using Suc.hyps(2) by linarith
  show ?case
  proof (cases "n > 0")
    case False
    with Suc.prems room show ?thesis by (auto simp: write_loop_eq [OF Suc.prems(1)])
  next
    case True
    have fr: "free s > 0" using room Suc.prems(1) by (simp add: free_eq)
    obtain c t where t: "write_loop (n - 1) buf (Suc k) (put (buf k) s) = (c, t)" by fastforce
    have cp: "contents (put (buf k) s) = contents s @ [buf k]"
      using Suc.prems(1) room by (rule contents_put)
    have d: "d = cap - length (contents (put (buf k) s))"
      using Suc.hyps(2) cp by simp
    have IH: "invar t \<and> c = min (max (n - 1) 0) (int cap - int (length (contents (put (buf k) s)))) \<and>
        contents t = contents (put (buf k) s) @ map buf [Suc k ..< Suc k + nat c]"
      by (rule Suc.hyps(1) [OF d invar_put [OF Suc.prems(1)] t])
    have eq: "b = c + 1" "s' = t"
      using Suc.prems(2) True fr t by (auto simp: write_loop_eq [OF Suc.prems(1)])
    have c0: "0 \<le> c" using IH True room cp by simp
    have "[k ..< k + nat b] = k # [Suc k ..< Suc k + nat c]"
      using c0 eq by (simp add: nat_add_distrib upt_rec)
    with IH eq True room show ?thesis by (auto simp: cp)
  qed
qed

end

section \<open>Ring buffers\<close>

text \<open>
  The code's index arithmetic: advance an index and reset it at the end of the array; the
  number of used slots is the head minus the tail, taken around the end when it is negative.
\<close>

definition ring_next :: "int \<Rightarrow> int \<Rightarrow> int" where
  "ring_next N i = (if i + 1 \<ge> N then 0 else i + 1)"

definition ring_used :: "int \<Rightarrow> int \<Rightarrow> int \<Rightarrow> int" where
  "ring_used N tail head = (if head - tail < 0 then (N - tail) + head else head - tail)"

definition ring_idx :: "int \<Rightarrow> int \<Rightarrow> nat \<Rightarrow> nat" where
  "ring_idx N tail k = nat (if tail + int k < N then tail + int k else tail + int k - N)"

definition ring_list :: "'a list \<Rightarrow> int \<Rightarrow> int \<Rightarrow> 'a list" where
  "ring_list xs tail head =
     (let N = int (length xs) in map (\<lambda>k. xs ! ring_idx N tail k) [0 ..< nat (ring_used N tail head)])"

definition ring_ok :: "'a list \<Rightarrow> int \<Rightarrow> int \<Rightarrow> bool" where
  "ring_ok xs tail head \<longleftrightarrow>
     0 \<le> tail \<and> tail < int (length xs) \<and> 0 \<le> head \<and> head < int (length xs)"

lemma ring_used_range:
  "ring_ok xs tail head \<Longrightarrow>
   0 \<le> ring_used (int (length xs)) tail head \<and> ring_used (int (length xs)) tail head < int (length xs)"
  by (auto simp: ring_ok_def ring_used_def)

lemma length_ring_list [simp]:
  "length (ring_list xs tail head) = nat (ring_used (int (length xs)) tail head)"
  by (simp add: ring_list_def Let_def)

lemma ring_list_empty: "ring_ok xs tail head \<Longrightarrow> (ring_list xs tail head = []) = (tail = head)"
  using ring_used_range [of xs tail head]
  by (auto simp: ring_list_def Let_def ring_used_def ring_ok_def split: if_splits)

lemma ring_next_ok: "ring_ok xs tail head \<Longrightarrow> ring_ok xs tail (ring_next (int (length xs)) head)"
  by (auto simp: ring_ok_def ring_next_def)

lemma ring_next_ok_tail: "ring_ok xs tail head \<Longrightarrow> ring_ok xs (ring_next (int (length xs)) tail) head"
  by (auto simp: ring_ok_def ring_next_def)

lemma ring_used_next_head:
  assumes "ring_ok xs tail head" "ring_used (int (length xs)) tail head < int (length xs) - 1"
  shows "ring_used (int (length xs)) tail (ring_next (int (length xs)) head) =
         ring_used (int (length xs)) tail head + 1"
  using assms by (auto simp: ring_ok_def ring_used_def ring_next_def)

lemma ring_used_next_tail:
  assumes "ring_ok xs tail head" "tail \<noteq> head"
  shows "ring_used (int (length xs)) tail head =
         ring_used (int (length xs)) (ring_next (int (length xs)) tail) head + 1"
  using assms by (auto simp: ring_ok_def ring_used_def ring_next_def)

lemma ring_idx_head:
  assumes "ring_ok xs tail head" "0 \<le> ring_used (int (length xs)) tail head"
  shows "ring_idx (int (length xs)) tail (nat (ring_used (int (length xs)) tail head)) = nat head"
  using assms by (auto simp: ring_ok_def ring_used_def ring_idx_def)

lemma ring_idx_not_head:
  assumes "ring_ok xs tail head" "k < nat (ring_used (int (length xs)) tail head)"
  shows "ring_idx (int (length xs)) tail k \<noteq> nat head"
  using assms by (auto simp: ring_ok_def ring_used_def ring_idx_def split: if_splits)

lemma ring_idx_next:
  assumes "ring_ok xs tail head" "int k + 1 < int (length xs)"
  shows "ring_idx (int (length xs)) (ring_next (int (length xs)) tail) k =
         ring_idx (int (length xs)) tail (Suc k)"
  using assms by (auto simp: ring_ok_def ring_next_def ring_idx_def)

text \<open>Storing at the head and advancing it appends, as long as one slot stays free.\<close>

lemma ring_list_put:
  assumes ok: "ring_ok xs tail head"
    and room: "ring_used (int (length xs)) tail head < int (length xs) - 1"
  shows "ring_list (xs[nat head := v]) tail (ring_next (int (length xs)) head) =
         ring_list xs tail head @ [v]"
proof -
  let ?N = "int (length xs)"
  let ?u = "nat (ring_used ?N tail head)"
  have u: "nat (ring_used ?N tail (ring_next ?N head)) = Suc ?u"
    using ring_used_next_head [OF ok room] ring_used_range [OF ok] by (simp add: nat_add_distrib)
  have "(xs[nat head := v]) ! ring_idx ?N tail ?u = v"
    using ok ring_used_range [OF ok] by (simp add: ring_idx_head) (simp add: ring_ok_def nat_less_iff)
  moreover have "(xs[nat head := v]) ! ring_idx ?N tail k = xs ! ring_idx ?N tail k" if "k < ?u" for k
    using ring_idx_not_head [OF ok that] by simp
  ultimately show ?thesis by (simp add: ring_list_def Let_def u)
qed

text \<open>Taking the element at the tail and advancing the tail removes the oldest one.\<close>

lemma ring_list_pop:
  assumes ok: "ring_ok xs tail head" and ne: "tail \<noteq> head"
  shows "ring_list xs tail head = xs ! nat tail # ring_list xs (ring_next (int (length xs)) tail) head"
proof -
  let ?N = "int (length xs)"
  let ?u = "nat (ring_used ?N (ring_next ?N tail) head)"
  have rng: "0 \<le> ring_used ?N (ring_next ?N tail) head"
    using ring_used_range [OF ring_next_ok_tail [OF ok]] by simp
  have u: "nat (ring_used ?N tail head) = Suc ?u"
    using ring_used_next_tail [OF ok ne] rng by (simp add: nat_add_distrib)
  have "ring_idx ?N tail 0 = nat tail" using ok by (simp add: ring_idx_def ring_ok_def)
  moreover have "ring_idx ?N (ring_next ?N tail) k = ring_idx ?N tail (Suc k)" if "k < ?u" for k
  proof (rule ring_idx_next [OF ok])
    show "int k + 1 < ?N" using that ring_used_range [OF ok] u by linarith
  qed
  moreover have "[0 ..< Suc ?u] = 0 # map Suc [0 ..< ?u]"
    by (simp add: upt_conv_Cons map_Suc_upt del: upt_Suc)
  ultimately show ?thesis by (simp add: ring_list_def Let_def u del: upt_Suc)
qed

text \<open>With all but one slot used, one more store makes the ring look empty.\<close>

lemma ring_list_overflow:
  assumes ok: "ring_ok xs tail head"
    and full: "ring_used (int (length xs)) tail head = int (length xs) - 1"
  shows "ring_list (xs[nat head := v]) tail (ring_next (int (length xs)) head) = []"
proof -
  have "ring_next (int (length xs)) head = tail"
    using ok full by (auto simp: ring_ok_def ring_used_def ring_next_def split: if_splits)
  then show ?thesis by (simp add: ring_list_def ring_used_def)
qed

end
