(* ===== verification/Irq.thy ===== *)
theory Irq
  imports Prelude
begin

text \<open>
  The vectored interrupt controller: \<^verbatim>\<open>platform/irq.c\<close> (\<open>init_VIC\<close>, \<open>install_irq\<close>) and the
  CPSR helpers of \<^verbatim>\<open>platform/VIClowlevel.c\<close>.
\<close>

section \<open>Definitions\<close>

abbreviation (input) "VIC_BASE_ADDR \<equiv> (0xFFFFF000 :: u32)"
abbreviation (input) "VICIntSelect \<equiv> (0xFFFFF00C :: u32)"
abbreviation (input) "VICIntEnable \<equiv> (0xFFFFF010 :: u32)"
abbreviation (input) "VICIntEnClr \<equiv> (0xFFFFF014 :: u32)"
abbreviation (input) "VICVectAddr \<equiv> (0xFFFFFF00 :: u32)"
abbreviation (input) "VIC_SIZE \<equiv> (32 :: int)"
abbreviation (input) "VECT_ADDR_INDEX \<equiv> (0x100 :: u32)"
abbreviation (input) "VECT_CNTL_INDEX \<equiv> (0x200 :: u32)"
abbreviation (input) "HIGHEST_PRIORITY \<equiv> (0x01 :: u32)"
abbreviation (input) "CAN_INT \<equiv> (23 :: int)"
abbreviation (input) "IRQ_MASK \<equiv> (0x00000080 :: u32)"

definition vect_addr :: "int \<Rightarrow> u32" where
  "vect_addr i = VIC_BASE_ADDR + VECT_ADDR_INDEX + word_of_int (i * 4)"

definition vect_cntl :: "int \<Rightarrow> u32" where
  "vect_cntl i = VIC_BASE_ADDR + VECT_CNTL_INDEX + word_of_int (i * 4)"

definition init_VIC :: "mmio \<Rightarrow> mmio" where
  "init_VIC m =
     (let m = wr VICIntEnClr 0xffffffff m;
          m = wr VICVectAddr 0 m;
          m = wr VICIntSelect 0 m
      in fold (\<lambda>i m. wr (vect_cntl (int i)) 0xF (wr (vect_addr (int i)) 0x0 m)) [0..<32] m)"

definition install_irq :: "int \<Rightarrow> u32 \<Rightarrow> u32 \<Rightarrow> mmio \<Rightarrow> bool \<times> mmio" where
  "install_irq IntNumber HandlerAddr Priority m =
     (let m = wr VICIntEnClr (arm_lsl 1 IntNumber) m
      in if IntNumber \<ge> VIC_SIZE then (False, m)
         else
           let m = wr (vect_addr IntNumber) HandlerAddr m;
               m = wr (vect_cntl IntNumber) Priority m;
               m = wr VICIntEnable (arm_lsl 1 IntNumber) m
           in (True, m))"

text \<open>The CPSR is one register of the processor; each helper returns its old value.\<close>

definition enableIRQ :: "u32 \<Rightarrow> u32 \<times> u32" where
  "enableIRQ cpsr = (cpsr, cpsr AND NOT IRQ_MASK)"

definition disableIRQ :: "u32 \<Rightarrow> u32 \<times> u32" where
  "disableIRQ cpsr = (cpsr, cpsr OR IRQ_MASK)"

definition restoreIRQ :: "u32 \<Rightarrow> u32 \<Rightarrow> u32 \<times> u32" where
  "restoreIRQ oldCPSR cpsr = (cpsr, (cpsr AND NOT IRQ_MASK) OR (oldCPSR AND IRQ_MASK))"

section \<open>Vector slots\<close>

lemma uint_slot: "0 \<le> a \<Longrightarrow> a < 2 ^ 32 \<Longrightarrow> uint (word_of_int a :: u32) = a"
  by (subst uint_word_of_int, subst mod_pos_pos_trivial) simp_all

lemma vect_addr_eq: "0 \<le> i \<Longrightarrow> i < 32 \<Longrightarrow> uint (vect_addr i) = 0xFFFFF100 + i * 4"
proof -
  assume i: "0 \<le> i" "i < 32"
  have "vect_addr i = word_of_int (0xFFFFF100 + i * 4)"
    by (simp add: vect_addr_def)
  with i show ?thesis by (simp only:) (rule uint_slot, simp_all)
qed

lemma vect_cntl_eq: "0 \<le> i \<Longrightarrow> i < 32 \<Longrightarrow> uint (vect_cntl i) = 0xFFFFF200 + i * 4"
proof -
  assume i: "0 \<le> i" "i < 32"
  have "vect_cntl i = word_of_int (0xFFFFF200 + i * 4)"
    by (simp add: vect_cntl_def)
  with i show ?thesis by (simp only:) (rule uint_slot, simp_all)
qed

lemma vect_addr_inj:
  assumes "0 \<le> i" "i < 32" "0 \<le> j" "j < 32"
  shows "(vect_addr i = vect_addr j) = (i = j)"
  using vect_addr_eq [of i] vect_addr_eq [of j] assms by (auto simp: word_uint_eq_iff)

lemma vect_cntl_inj:
  assumes "0 \<le> i" "i < 32" "0 \<le> j" "j < 32"
  shows "(vect_cntl i = vect_cntl j) = (i = j)"
  using vect_cntl_eq [of i] vect_cntl_eq [of j] assms by (auto simp: word_uint_eq_iff)

lemma vect_addr_cntl:
  assumes "0 \<le> i" "i < 32" "0 \<le> j" "j < 32"
  shows "vect_addr i \<noteq> vect_cntl j" "vect_cntl j \<noteq> vect_addr i"
proof -
  have "uint (vect_addr i) < uint (vect_cntl j)"
    using assms by (simp add: vect_addr_eq vect_cntl_eq)
  then show "vect_addr i \<noteq> vect_cntl j" "vect_cntl j \<noteq> vect_addr i" by auto
qed

lemma vect_not_global:
  assumes "0 \<le> i" "i < 32"
  shows "vect_addr i \<notin> {VICIntEnClr, VICIntEnable, VICVectAddr, VICIntSelect}"
    and "vect_cntl i \<notin> {VICIntEnClr, VICIntEnable, VICVectAddr, VICIntSelect}"
  using vect_addr_eq [OF assms] vect_cntl_eq [OF assms] assms by auto

section \<open>Initialisation and installation\<close>

lemma rd_fold_wr_pairs:
  assumes "\<And>i. i \<in> set is \<Longrightarrow> f i \<noteq> a \<and> g i \<noteq> a"
  shows "rd a (fold (\<lambda>i m. wr (g i) y (wr (f i) x m)) is m) = rd a m"
  using assms by (induction "is" arbitrary: m) (auto simp: mmio_simps)

lemma init_VIC_prefix:
  assumes "0 \<le> i" "i < 32" "n \<le> 32"
  shows "rd (vect_addr i) (fold (\<lambda>i m. wr (vect_cntl (int i)) y (wr (vect_addr (int i)) x m)) [0..<n] m)
           = (if i < int n then x else rd (vect_addr i) m)"
    and "rd (vect_cntl i) (fold (\<lambda>i m. wr (vect_cntl (int i)) y (wr (vect_addr (int i)) x m)) [0..<n] m)
           = (if i < int n then y else rd (vect_cntl i) m)"
  using assms(3)
  by (induction n)
    (use assms(1,2) in \<open>auto simp: mmio_simps vect_addr_inj vect_cntl_inj vect_addr_cntl\<close>)

text \<open>
  After init_VIC every one of the 32 vector slots has a null handler address and the
  lowest priority 0xF, whatever the registers held before.
\<close>
theorem init_VIC_slots:
  assumes "0 \<le> i" "i < 32"
  shows "rd (vect_addr i) (init_VIC m) = 0 \<and> rd (vect_cntl i) (init_VIC m) = 0xF"
  using assms by (simp add: init_VIC_def Let_def init_VIC_prefix)

theorem init_VIC_slots_witness:
  "rd (vect_addr 23) (init_VIC mmio0) = 0 \<and> rd (vect_cntl 23) (init_VIC mmio0) = 0xF"
  by (rule init_VIC_slots) simp_all

text \<open>
  For an interrupt number in range, install_irq succeeds: the slot holds the handler and its
  priority, every other slot is unchanged, and the four writes happen in the order disable,
  handler address, priority, enable, so the interrupt is never enabled with a stale vector.
\<close>
theorem install_irq_installs:
  assumes "0 \<le> n" "n < 32"
  shows "let (ok, m') = install_irq n h p m in
           ok \<and> rd (vect_addr n) m' = h \<and> rd (vect_cntl n) m' = p \<and>
           (\<forall>k. 0 \<le> k \<and> k < 32 \<and> k \<noteq> n \<longrightarrow>
              rd (vect_addr k) m' = rd (vect_addr k) m \<and> rd (vect_cntl k) m' = rd (vect_cntl k) m) \<and>
           wlog m' = wlog m @ [(VICIntEnClr, push_bit (nat n) 1), (vect_addr n, h),
             (vect_cntl n, p), (VICIntEnable, push_bit (nat n) 1)]"
  using assms vect_not_global [of n]
  by (auto simp: install_irq_def Let_def mmio_simps arm_lsl_small vect_addr_cntl vect_addr_inj
      vect_cntl_inj dest: vect_not_global)

theorem install_irq_installs_witness:
  "let (ok, m') = install_irq 23 0x4000 1 mmio0 in
     ok \<and> rd (vect_addr 23) m' = 0x4000 \<and>
     wlog m' = [(VICIntEnClr, 0x800000), (vect_addr 23, 0x4000), (vect_cntl 23, 1),
       (VICIntEnable, 0x800000)]"
  using install_irq_installs [of 23 "0x4000" 1 mmio0]
  by (simp add: mmio_simps Let_def case_prod_beta)

text \<open>
  An interrupt number of VIC_SIZE or more is rejected: install_irq returns FALSE and the only
  register it has written is VICIntEnClr, so no vector slot changes.
\<close>
theorem install_irq_rejects:
  assumes "32 \<le> n"
  shows "let (ok, m') = install_irq n h p m in
           \<not> ok \<and> wlog m' = wlog m @ [(VICIntEnClr, arm_lsl 1 n)] \<and>
           (\<forall>a. a \<noteq> VICIntEnClr \<longrightarrow> rd a m' = rd a m)"
  using assms by (simp add: install_irq_def Let_def mmio_simps)

theorem install_irq_rejects_witness:
  "let (ok, m') = install_irq 32 0x4000 1 mmio0 in \<not> ok \<and> wlog m' = [(VICIntEnClr, 0)]"
  using install_irq_rejects [of 32 "0x4000" 1 mmio0]
  by (simp add: mmio_simps arm_lsl_def Let_def case_prod_beta)

lemma mask_restore: "((c OR M) AND NOT M) OR (c AND M) = c" for c M :: u32
  by (rule bit_eqI) (auto simp: bit_simps)

lemma mask_or: "(c OR M) AND M = M" for c M :: u32
  by (rule bit_eqI) (auto simp: bit_simps)

text \<open>
  A critical section restores the interrupt mask: disableIRQ masks interrupts and returns the
  old CPSR, and restoreIRQ with that value gives the CPSR back exactly, also when interrupts were
  already masked (nested sections).
\<close>
theorem irq_critical_section:
  "let (old, c1) = disableIRQ c; (_, c2) = restoreIRQ old c1
   in c1 AND IRQ_MASK = IRQ_MASK \<and> c2 = c"
  unfolding disableIRQ_def restoreIRQ_def Let_def prod.case mask_restore mask_or by simp

end
