(* ===== verification/Can.thy ===== *)
theory Can
  imports Can_Regs Fifo Irq "HOL-Library.Monad_Syntax"
begin

text \<open>
  The CAN driver \<^verbatim>\<open>drivers/can.c\<close>: the two static device structures with their ring buffers,
  the receive and transmit routines the interrupt handler calls, and the public operations
  \<open>can_open\<close>, \<open>can_close\<close>, \<open>can_ioctl\<close>, \<open>can_read\<close>, \<open>can_write\<close> and \<open>CAN_Handler\<close>.

  A device handle is the address of one of the two static structures (\<open>can_dev\<close>). A register
  pointer is an address; following one that is neither \<open>CAN1\<close> nor \<open>CAN2\<close> (the null pointer of a
  device never opened) is the result \<open>None\<close>. A loop that waits for the hardware takes the values
  it reads as a parameter and is \<open>None\<close> when it never ends.
\<close>

section \<open>State\<close>

abbreviation (input) "CAN_RING_BUFSIZE \<equiv> (256 :: int)"
abbreviation (input) "CAN1 \<equiv> (0xE0044000 :: u32)"
abbreviation (input) "CAN2 \<equiv> (0xE0048000 :: u32)"
abbreviation (input) "PCONP \<equiv> (0xE01FC0C4 :: u32)"
abbreviation (input) "CAN_AFMR \<equiv> (0xE003C000 :: u32)"
abbreviation (input) "PROF_SET \<equiv> (0x3FFFC078 :: u32)"
abbreviation (input) "PROF_CLR \<equiv> (0x3FFFC07C :: u32)"
abbreviation (input) "PROF_PIN_4 \<equiv> (0x40000 :: u32)"

record CAN_RING_BUFFER_T =
  tx :: "CANMSG_T list"
  rx :: "CANMSG_T list"
  tx_head :: int
  tx_tail :: int
  rx_head :: int
  rx_tail :: int

record CAN_CFG_T =
  init :: bool
  rb :: CAN_RING_BUFFER_T
  regptr :: u32

datatype can_dev = Can1cfg | Can2cfg

record can_state =
  bus :: mmio
  can1cfg :: CAN_CFG_T
  can2cfg :: CAN_CFG_T
  can1regs :: CAN_REGS_T
  can2regs :: CAN_REGS_T
  tmpcanregs :: u32

fun cfg :: "can_dev \<Rightarrow> can_state \<Rightarrow> CAN_CFG_T" where
  "cfg Can1cfg s = can1cfg s"
| "cfg Can2cfg s = can2cfg s"

fun set_cfg :: "can_dev \<Rightarrow> CAN_CFG_T \<Rightarrow> can_state \<Rightarrow> can_state" where
  "set_cfg Can1cfg c s = s\<lparr>can1cfg := c\<rparr>"
| "set_cfg Can2cfg c s = s\<lparr>can2cfg := c\<rparr>"

definition regs_at :: "u32 \<Rightarrow> can_state \<Rightarrow> CAN_REGS_T option" where
  "regs_at p s = (if p = CAN1 then Some (can1regs s)
     else if p = CAN2 then Some (can2regs s) else None)"

definition set_regs :: "u32 \<Rightarrow> CAN_REGS_T \<Rightarrow> can_state \<Rightarrow> can_state" where
  "set_regs p r s = (if p = CAN1 then s\<lparr>can1regs := r\<rparr>
     else if p = CAN2 then s\<lparr>can2regs := r\<rparr> else s)"

text \<open>
  Run a routine on a device structure and the register block its \<open>regptr\<close> points to.
\<close>

definition with_regs ::
  "can_dev \<Rightarrow> (CAN_CFG_T \<Rightarrow> CAN_REGS_T \<Rightarrow> 'r \<times> CAN_CFG_T \<times> CAN_REGS_T) \<Rightarrow>
   can_state \<Rightarrow> ('r \<times> can_state) option" where
  "with_regs d f s =
     (let c = cfg d s in
      case regs_at (regptr c) s of
        None \<Rightarrow> None
      | Some r \<Rightarrow> (let (v, c', r') = f c r in Some (v, set_regs (regptr c) r' (set_cfg d c' s))))"

section \<open>Receive and transmit\<close>

definition rx_store :: "CAN_REGS_T \<Rightarrow> CANMSG_T \<Rightarrow> CANMSG_T" where
  "rx_store canregs m =
     m\<lparr>DLC := rfs_DLC (canrfs canregs),
       RTR := rfs_RTR (canrfs canregs),
       FF := rfs_FF (canrfs canregs),
       MsgID := ucast (rid_ID29_0 (canrid canregs)),
       Data := (Data m)
         [0 := rda_Data1 (canrda canregs), 1 := rda_Data2 (canrda canregs),
          2 := rda_Data3 (canrda canregs), 3 := rda_Data4 (canrda canregs),
          4 := rdb_Data5 (canrdb canregs), 5 := rdb_Data6 (canrdb canregs),
          6 := rdb_Data7 (canrdb canregs), 7 := rdb_Data8 (canrdb canregs)]\<rparr>"

definition rx_put :: "CANMSG_T \<Rightarrow> CAN_RING_BUFFER_T \<Rightarrow> CAN_RING_BUFFER_T" where
  "rx_put m b =
     (let b = b\<lparr>rx := (rx b)[nat (rx_head b) := m]\<rparr>;
          b = b\<lparr>rx_head := rx_head b + 1\<rparr>
      in if rx_head b \<ge> CAN_RING_BUFSIZE then b\<lparr>rx_head := 0\<rparr> else b)"

definition can_standard_receive ::
  "CAN_CFG_T \<Rightarrow> CAN_REGS_T \<Rightarrow> unit \<times> CAN_CFG_T \<times> CAN_REGS_T" where
  "can_standard_receive cancfg canregs =
     (let m = rx_store canregs (rx (rb cancfg) ! nat (rx_head (rb cancfg)));
          cancfg = cancfg\<lparr>rb := rx_put m (rb cancfg)\<rparr>;
          canregs = canregs\<lparr>cancmr := (cancmr canregs)\<lparr>cmr_RRB := 1\<rparr>\<rparr>
      in ((), cancfg, canregs))"

text \<open>Write one message into transmit buffer 1.\<close>

definition tx_load :: "CANMSG_T \<Rightarrow> CAN_REGS_T \<Rightarrow> CAN_REGS_T" where
  "tx_load m canregs =
     canregs\<lparr>cantfi1 := (cantfi1 canregs)\<lparr>tfi_DLC := DLC m, tfi_RTR := RTR m, tfi_FF := FF m\<rparr>,
       cantid1 := (cantid1 canregs)\<lparr>tid_ID29_0 := ucast (MsgID m)\<rparr>,
       cantda1 := \<lparr>tda_Data1 = Data m ! 0, tda_Data2 = Data m ! 1,
                   tda_Data3 = Data m ! 2, tda_Data4 = Data m ! 3\<rparr>,
       cantdb1 := \<lparr>tdb_Data5 = Data m ! 4, tdb_Data6 = Data m ! 5,
                   tdb_Data7 = Data m ! 6, tdb_Data8 = Data m ! 7\<rparr>\<rparr>"

definition tx_pop :: "CAN_RING_BUFFER_T \<Rightarrow> CAN_RING_BUFFER_T" where
  "tx_pop b =
     (let b = b\<lparr>tx_tail := tx_tail b + 1\<rparr>
      in if tx_tail b \<ge> CAN_RING_BUFSIZE then b\<lparr>tx_tail := 0\<rparr> else b)"

definition can_standard_transmit ::
  "CAN_CFG_T \<Rightarrow> CAN_REGS_T \<Rightarrow> unit \<times> CAN_CFG_T \<times> CAN_REGS_T" where
  "can_standard_transmit cancfg canregs =
     (if tx_head (rb cancfg) = tx_tail (rb cancfg)
      then ((), cancfg, canregs\<lparr>canier := (canier canregs)\<lparr>ier_TIE1 := 0\<rparr>\<rparr>)
      else if sr_TBS1 (cansr canregs) \<noteq> 0
      then
        let canregs = tx_load (tx (rb cancfg) ! nat (tx_tail (rb cancfg))) canregs;
            canregs = canregs\<lparr>cancmr := (cancmr canregs)\<lparr>cmr_STB1 := 1\<rparr>\<rparr>;
            cancfg = cancfg\<lparr>rb := tx_pop (rb cancfg)\<rparr>;
            canregs = canregs\<lparr>canier := (canier canregs)\<lparr>ier_TIE1 := 1\<rparr>\<rparr>;
            canregs = canregs\<lparr>cancmr := (cancmr canregs)\<lparr>cmr_TR := 1\<rparr>\<rparr>
        in ((), cancfg, canregs)
      else ((), cancfg, canregs))"

definition can_get_free_tx_count :: "CAN_CFG_T \<Rightarrow> int" where
  "can_get_free_tx_count cancfg =
     (let count = tx_head (rb cancfg) - tx_tail (rb cancfg);
          count = (if count < 0 then (CAN_RING_BUFSIZE - tx_tail (rb cancfg)) + tx_head (rb cancfg)
                   else count)
      in CAN_RING_BUFSIZE - count - 1)"

section \<open>Open and close\<close>

text \<open>The status bits \<open>can_open\<close> and \<open>can_ioctl\<close> clear while the controller is in reset mode.\<close>

definition clear_gsr :: "CAN_REGS_T \<Rightarrow> CAN_REGS_T" where
  "clear_gsr r = r\<lparr>cangsr := (cangsr r)\<lparr>gsr_RBS := 0, gsr_DOS := 0, gsr_ES := 0, gsr_RS := 0,
     gsr_RXERR := 0, gsr_TBS := 1, gsr_TCS := 1, gsr_TS := 0, gsr_TXERR := 0\<rparr>\<rparr>"

definition set_RM :: "1 word \<Rightarrow> CAN_REGS_T \<Rightarrow> CAN_REGS_T" where
  "set_RM v r = r\<lparr>canmod := (canmod r)\<lparr>mod_RM := v\<rparr>\<rparr>"

definition set_timing :: "10 word \<Rightarrow> 2 word \<Rightarrow> 4 word \<Rightarrow> 3 word \<Rightarrow> 1 word \<Rightarrow> CAN_REGS_T \<Rightarrow> CAN_REGS_T" where
  "set_timing brp sjw tseg1 tseg2 sam r =
     r\<lparr>canbtr := \<lparr>btr_BRP = brp, btr_SJW = sjw, btr_TSEG1 = tseg1, btr_TSEG2 = tseg2, btr_SAM = sam\<rparr>\<rparr>"

definition set_irq_enable :: "1 word \<Rightarrow> CAN_REGS_T \<Rightarrow> CAN_REGS_T" where
  "set_irq_enable v r = r\<lparr>canier := (canier r)\<lparr>ier_RIE := v, ier_TIE1 := v\<rparr>\<rparr>"

definition reset_rings :: "CAN_CFG_T \<Rightarrow> CAN_CFG_T" where
  "reset_rings c = c\<lparr>rb := (rb c)\<lparr>tx_head := 0, tx_tail := 0, rx_head := 0, rx_tail := 0\<rparr>\<rparr>"

abbreviation (input) "CAN_BRP_25K \<equiv> (127 :: 10 word)"
abbreviation (input) "CAN_BRP_50K \<equiv> (63 :: 10 word)"
abbreviation (input) "CAN_BRP_125K \<equiv> (25 :: 10 word)"
abbreviation (input) "CAN_BRP_250K \<equiv> (12 :: 10 word)"
abbreviation (input) "CAN_BRP_500K \<equiv> (5 :: 10 word)"
abbreviation (input) "CAN_BRP_1000K \<equiv> (2 :: 10 word)"
abbreviation (input) "CAN_BRP_DEFAULT \<equiv> CAN_BRP_125K"

text \<open>\<open>hnd\<close> is the address of \<open>CAN_Handler\<close>; the result \<open>None\<close> is the null handle.\<close>

definition can_open :: "u32 \<Rightarrow> u32 \<Rightarrow> can_state \<Rightarrow> can_dev option \<times> can_state" where
  "can_open hnd ipbase s =
     (let (cancfg, s) =
        (if ipbase = CAN1 then
           (Some Can1cfg,
            s\<lparr>bus := wr_or PINSEL0 0x0000005 (wr_and PINSEL0 (NOT 0x0000000F) (wr_or PCONP (push_bit 13 1) (bus s)))\<rparr>)
         else (None, s));
        (cancfg, s) =
        (if ipbase = CAN2 then
           (Some Can2cfg,
            s\<lparr>bus := wr_or PINSEL0 0x0000A05 (wr_and PINSEL0 (NOT 0x00000F00) (wr_or PCONP (push_bit 14 1) (bus s)))\<rparr>)
         else (cancfg, s))
      in case cancfg of
           None \<Rightarrow> (None, s)
         | Some d \<Rightarrow>
             if \<not> init (cfg d s) then
               let s = set_cfg d ((cfg d s)\<lparr>init := True, regptr := ipbase\<rparr>) s;
                   s = s\<lparr>bus := wr CAN_AFMR 0x00000002 (bus s)\<rparr>;
                   r = the (regs_at ipbase s);
                   r = set_RM 1 r;
                   r = clear_gsr r;
                   r = set_timing CAN_BRP_DEFAULT 3 10 5 0 r;
                   r = set_irq_enable 1 r;
                   s = set_cfg d (reset_rings (cfg d s)) s;
                   r = set_RM 0 r;
                   s = set_regs ipbase r s;
                   (_, m) = install_irq CAN_INT hnd HIGHEST_PRIORITY (bus s)
               in (Some d, s\<lparr>bus := m\<rparr>)
             else (Some d, s))"

abbreviation (input) "NO_ERROR \<equiv> (0 :: int)"
abbreviation (input) "ERROR \<equiv> (- 1 :: int)"
abbreviation (input) "SMA_BAD_PARAMS \<equiv> (- 7 :: int)"

definition can_close :: "can_dev \<Rightarrow> can_state \<Rightarrow> int \<times> can_state" where
  "can_close devid s =
     (if init (cfg devid s) then
        if regptr (cfg devid s) = CAN1 then
          (NO_ERROR, set_cfg devid ((cfg devid s)\<lparr>init := False\<rparr>)
             (s\<lparr>bus := wr_and PCONP (NOT (push_bit 13 1)) (bus s)\<rparr>))
        else if regptr (cfg devid s) = CAN2 then
          (NO_ERROR, set_cfg devid ((cfg devid s)\<lparr>init := False\<rparr>)
             (s\<lparr>bus := wr_and PCONP (NOT (push_bit 14 1)) (bus s)\<rparr>))
        else (ERROR, s)
      else (ERROR, s))"

section \<open>Control\<close>

definition ioctl_clear_error :: "int \<Rightarrow> CAN_REGS_T \<Rightarrow> CAN_REGS_T" where
  "ioctl_clear_error arg r =
     (let r = set_RM 1 r;
          r = (case enum_decode error_condition_enum arg of
                 Some RX_ERROR_CONDITION \<Rightarrow>
                   r\<lparr>cangsr := (cangsr r)\<lparr>gsr_RXERR := 0, gsr_RBS := 0, gsr_ES := 0\<rparr>,
                     canier := (canier r)\<lparr>ier_RIE := 1\<rparr>\<rparr>
               | Some TX_ERROR_CONDITION \<Rightarrow>
                   r\<lparr>cangsr := (cangsr r)\<lparr>gsr_TXERR := 0, gsr_TBS := 1, gsr_ES := 0\<rparr>,
                     canier := (canier r)\<lparr>ier_TIE1 := 1\<rparr>\<rparr>
               | None \<Rightarrow> r)
      in set_RM 0 r)"

definition ioctl_set_mode :: "int \<Rightarrow> CAN_REGS_T \<Rightarrow> int \<times> CAN_REGS_T" where
  "ioctl_set_mode arg r =
     (case enum_decode mode_enum arg of
        Some MODE_SELF_TEST \<Rightarrow>
          (let r = set_RM 0 (set_RM 1 r) in (NO_ERROR, r\<lparr>canmod := (canmod r)\<lparr>mod_TM := 1\<rparr>\<rparr>))
      | Some MODE_LISTEN_ONLY \<Rightarrow>
          (let r = set_RM 1 r; r = r\<lparr>canmod := (canmod r)\<lparr>mod_LOM := 1\<rparr>\<rparr> in (NO_ERROR, set_RM 0 r))
      | Some MODE_OPERATING \<Rightarrow> (NO_ERROR, set_RM 0 r)
      | Some MODE_RESET \<Rightarrow> (NO_ERROR, set_RM 1 r)
      | None \<Rightarrow> (SMA_BAD_PARAMS, r))"

definition set_BRP :: "10 word \<Rightarrow> CAN_REGS_T \<Rightarrow> CAN_REGS_T" where
  "set_BRP v r = r\<lparr>canbtr := (canbtr r)\<lparr>btr_BRP := v\<rparr>\<rparr>"

definition ioctl_set_baud ::
  "int \<Rightarrow> CAN_CFG_T \<Rightarrow> CAN_REGS_T \<Rightarrow> int \<times> CAN_CFG_T \<times> CAN_REGS_T" where
  "ioctl_set_baud arg c r =
     (let r = set_RM 1 r;
          r = set_irq_enable 0 r;
          r = set_timing (btr_BRP (canbtr r)) 3 10 5 0 r;
          (status, r) =
            (case enum_decode baud_rate_enum arg of
               Some BPS_25K \<Rightarrow> (NO_ERROR, set_BRP CAN_BRP_25K r)
             | Some BPS_50K \<Rightarrow> (NO_ERROR, set_BRP CAN_BRP_50K r)
             | Some BPS_125K \<Rightarrow> (NO_ERROR, set_BRP CAN_BRP_125K r)
             | Some BPS_250K \<Rightarrow> (NO_ERROR, set_BRP CAN_BRP_250K r)
             | Some BPS_500K \<Rightarrow> (NO_ERROR, set_BRP CAN_BRP_500K r)
             | Some BPS_1000K \<Rightarrow> (NO_ERROR, set_timing CAN_BRP_1000K 3 11 5 0 r)
             | None \<Rightarrow> (SMA_BAD_PARAMS, r));
          r = clear_gsr r;
          c = reset_rings c;
          r = set_irq_enable 1 r;
          r = set_RM 0 r
      in (status, c, r))"

text \<open>
  The wait for the bus-off state: \<open>bs n\<close> is the value the \<open>n\<close>-th read of \<open>cangsr.BS\<close> returns.
\<close>

partial_function (option) wait_bus_off :: "(nat \<Rightarrow> 1 word) \<Rightarrow> nat \<Rightarrow> nat option" where
  "wait_bus_off bs n = (if bs n = 1 then Some n else wait_bus_off bs (Suc n))"

definition ioctl_force_bus_off :: "CAN_REGS_T \<Rightarrow> CAN_REGS_T" where
  "ioctl_force_bus_off r =
     (let r = r\<lparr>cangsr := (cangsr r)\<lparr>gsr_TXERR := 255\<rparr>\<rparr>;
          r = r\<lparr>cangsr := (cangsr r)\<lparr>gsr_BS := 1\<rparr>\<rparr> \<comment> \<open>as last read\<close>
      in r\<lparr>cangsr := (cangsr r)\<lparr>gsr_TXERR := 0\<rparr>\<rparr>)"

definition ioctl_get_mode :: "CAN_REGS_T \<Rightarrow> int" where
  "ioctl_get_mode r =
     (if mod_LOM (canmod r) \<noteq> 0 then 1
      else if mod_RM (canmod r) \<noteq> 0 then 3
      else if mod_TM (canmod r) \<noteq> 0 then 0
      else if mod_RM (canmod r) = 0 \<and> mod_SM (canmod r) = 0 then 2
      else NO_ERROR)"

definition ioctl_get_baud :: "CAN_REGS_T \<Rightarrow> int" where
  "ioctl_get_baud r =
     (let brp = btr_BRP (canbtr r) in
      if brp = CAN_BRP_25K then 0
      else if brp = CAN_BRP_50K then 1
      else if brp = CAN_BRP_125K then 2
      else if brp = CAN_BRP_250K then 3
      else if brp = CAN_BRP_500K then 4
      else if brp = CAN_BRP_1000K then 5
      else SMA_BAD_PARAMS)"

definition ioctl_get_status :: "int \<Rightarrow> CAN_REGS_T \<Rightarrow> int" where
  "ioctl_get_status arg r =
     (case enum_decode ioctl_sts_enum arg of
        Some CAN_MODE \<Rightarrow> ioctl_get_mode r
      | Some CAN_BAUD_RATE \<Rightarrow> ioctl_get_baud r
      | Some CAN_FILTER_BITS \<Rightarrow> NO_ERROR
      | Some CAN_MASK_BITS \<Rightarrow> NO_ERROR
      | Some CAN_DATA_OVERRUN \<Rightarrow> uint (gsr_DOS (cangsr r))
      | Some CAN_ERROR_STATUS \<Rightarrow> uint (gsr_ES (cangsr r))
      | Some CAN_BUS_STATUS \<Rightarrow> uint (gsr_BS (cangsr r))
      | Some CAN_RX_ERRORS \<Rightarrow> uint (gsr_RXERR (cangsr r))
      | Some CAN_TX_ERRORS \<Rightarrow> uint (gsr_TXERR (cangsr r))
      | None \<Rightarrow> SMA_BAD_PARAMS)"

definition can_ioctl ::
  "(nat \<Rightarrow> 1 word) \<Rightarrow> can_dev \<Rightarrow> int \<Rightarrow> int \<Rightarrow> can_state \<Rightarrow> (int \<times> can_state) option" where
  "can_ioctl bs devid cmd arg s =
     (if \<not> init (cfg devid s) then Some (ERROR, s)
      else case enum_decode ioctl_cmd_enum cmd of
        Some CAN_CLEAR_ERROR_CONDITION \<Rightarrow>
          with_regs devid (\<lambda>c r. (NO_ERROR, c, ioctl_clear_error arg r)) s
      | Some CAN_SET_MODE \<Rightarrow>
          with_regs devid (\<lambda>c r. let (status, r') = ioctl_set_mode arg r in (status, c, r')) s
      | Some CAN_SET_BAUD_RATE \<Rightarrow> with_regs devid (ioctl_set_baud arg) s
      | Some CAN_AUTO_SET_BAUD_RATE \<Rightarrow> Some (NO_ERROR, s)
      | Some CAN_SET_FILTER \<Rightarrow> Some (NO_ERROR, s)
      | Some CAN_FORCE_BUS_OFF \<Rightarrow>
          (case wait_bus_off bs 0 of
             None \<Rightarrow> None
           | Some _ \<Rightarrow> with_regs devid (\<lambda>c r. (NO_ERROR, c, ioctl_force_bus_off r)) s)
      | Some CAN_GET_STATUS \<Rightarrow> with_regs devid (\<lambda>c r. (ioctl_get_status arg r, c, r)) s
      | None \<Rightarrow> Some (SMA_BAD_PARAMS, s))"

section \<open>Read and write\<close>

definition rx_pop :: "CAN_RING_BUFFER_T \<Rightarrow> CAN_RING_BUFFER_T" where
  "rx_pop b =
     (let b = b\<lparr>rx_tail := rx_tail b + 1\<rparr>
      in if rx_tail b \<ge> CAN_RING_BUFSIZE then b\<lparr>rx_tail := 0\<rparr> else b)"

definition tx_put :: "CANMSG_T \<Rightarrow> CAN_RING_BUFFER_T \<Rightarrow> CAN_RING_BUFFER_T" where
  "tx_put m b =
     (let b = b\<lparr>tx := (tx b)[nat (tx_head b) := m]\<rparr>;
          b = b\<lparr>tx_head := tx_head b + 1\<rparr>
      in if tx_head b \<ge> CAN_RING_BUFSIZE then b\<lparr>tx_head := 0\<rparr> else b)"

text \<open>The messages the loop stores through \<open>data\<close>, in order; their number is \<open>bytes\<close>.\<close>

function can_read_loop :: "int \<Rightarrow> CAN_CFG_T \<Rightarrow> CANMSG_T list \<times> CAN_CFG_T" where
  "can_read_loop max_bytes c =
     (if max_bytes > 0 \<and> rx_tail (rb c) \<noteq> rx_head (rb c)
      then let (ms, c') = can_read_loop (max_bytes - 1) (c\<lparr>rb := rx_pop (rb c)\<rparr>)
           in (rx (rb c) ! nat (rx_tail (rb c)) # ms, c')
      else ([], c))"
  by pat_completeness auto
termination by (relation "measure (\<lambda>(n, c). nat n)") auto

definition can_read_dev :: "int \<Rightarrow> CAN_CFG_T \<Rightarrow> CAN_REGS_T \<Rightarrow> CANMSG_T list \<times> CAN_CFG_T \<times> CAN_REGS_T" where
  "can_read_dev max_bytes c r =
     (let savedint = ier_RIE (canier r);
          r = r\<lparr>canier := (canier r)\<lparr>ier_RIE := 0\<rparr>\<rparr>;
          (ms, c) = can_read_loop max_bytes c;
          r = r\<lparr>canier := (canier r)\<lparr>ier_RIE := savedint\<rparr>\<rparr>
      in (ms, c, r))"

definition can_read :: "can_dev \<Rightarrow> int \<Rightarrow> can_state \<Rightarrow> (CANMSG_T list \<times> can_state) option" where
  "can_read devid max_bytes s =
     (if init (cfg devid s) then with_regs devid (can_read_dev max_bytes) s else Some ([], s))"

text \<open>\<open>buf\<close> is the memory from the caller's buffer on, one message per index.\<close>

function can_write_loop :: "int \<Rightarrow> (nat \<Rightarrow> CANMSG_T) \<Rightarrow> nat \<Rightarrow> CAN_CFG_T \<Rightarrow> int \<times> CAN_CFG_T" where
  "can_write_loop n buf k c =
     (if n > 0 \<and> can_get_free_tx_count c > 0
      then let (bytes, c') = can_write_loop (n - 1) buf (Suc k) (c\<lparr>rb := tx_put (buf k) (rb c)\<rparr>)
           in (bytes + 1, c')
      else (0, c))"
  by pat_completeness auto
termination by (relation "measure (\<lambda>(n, buf, k, c). nat n)") auto

definition can_write_dev ::
  "(nat \<Rightarrow> CANMSG_T) \<Rightarrow> int \<Rightarrow> CAN_CFG_T \<Rightarrow> CAN_REGS_T \<Rightarrow> int \<times> CAN_CFG_T \<times> CAN_REGS_T" where
  "can_write_dev buf n_telegrams c r =
     (let s1 = ier_TIE1 (canier r); s2 = ier_TIE2 (canier r); s3 = ier_TIE3 (canier r);
          r = r\<lparr>canier := (canier r)\<lparr>ier_TIE3 := 0, ier_TIE2 := 0, ier_TIE1 := 0\<rparr>\<rparr>;
          (bytes, c) = can_write_loop n_telegrams buf 0 c;
          r = r\<lparr>canier := (canier r)\<lparr>ier_TIE1 := s1, ier_TIE2 := s2, ier_TIE3 := s3\<rparr>\<rparr>;
          (_, c, r) = can_standard_transmit c r
      in (bytes, c, r))"

definition can_write ::
  "can_dev \<Rightarrow> (nat \<Rightarrow> CANMSG_T) \<Rightarrow> int \<Rightarrow> can_state \<Rightarrow> (int \<times> can_state) option" where
  "can_write devid buf n_telegrams s =
     (if init (cfg devid s) then with_regs devid (can_write_dev buf n_telegrams) s else Some (0, s))"

declare can_read_loop.simps [simp del] can_write_loop.simps [simp del]

section \<open>The interrupt handler\<close>

text \<open>
  Reading the interrupt capture register can change it (the source notes that the bits are
  cleared on read), so what a read returns and leaves behind is the parameter \<open>rd_icr\<close>.
\<close>

type_synonym icr_read = "CAN_REGS_T \<Rightarrow> canicr_bits \<times> CAN_REGS_T"

definition read_icr :: "icr_read \<Rightarrow> u32 \<Rightarrow> can_state \<Rightarrow> (canicr_bits \<times> can_state) option" where
  "read_icr rd_icr p s =
     (case regs_at p s of
        None \<Rightarrow> None
      | Some r \<Rightarrow> (let (v, r') = rd_icr r in Some (v, set_regs p r' s)))"

definition handle_dev :: "icr_read \<Rightarrow> can_dev \<Rightarrow> can_state \<Rightarrow> can_state option" where
  "handle_dev rd_icr d s = do {
     let s = s\<lparr>tmpcanregs := regptr (cfg d s)\<rparr>;
     (icr, s) \<leftarrow> read_icr rd_icr (tmpcanregs s) s;
     (_, s) \<leftarrow> (if icr_RI icr \<noteq> 0 then with_regs d can_standard_receive s else Some ((), s));
     (icr, s) \<leftarrow> read_icr rd_icr (tmpcanregs s) s;
     (_, s) \<leftarrow> (if icr_TI1 icr \<noteq> 0 then with_regs d can_standard_transmit s else Some ((), s));
     Some s
   }"

definition CAN_Handler :: "icr_read \<Rightarrow> can_state \<Rightarrow> can_state option" where
  "CAN_Handler rd_icr s = do {
     let s = s\<lparr>bus := wr PROF_SET PROF_PIN_4 (bus s)\<rparr>;
     s \<leftarrow> handle_dev rd_icr Can1cfg s;
     s \<leftarrow> handle_dev rd_icr Can2cfg s;
     let s = s\<lparr>bus := wr VICVectAddr 0 (bus s)\<rparr>;
     Some (s\<lparr>bus := wr PROF_CLR PROF_PIN_4 (bus s)\<rparr>)
   }"

section \<open>The rings as queues\<close>

definition txq :: "CAN_CFG_T \<Rightarrow> CANMSG_T list" where
  "txq c = ring_list (tx (rb c)) (tx_tail (rb c)) (tx_head (rb c))"

definition rxq :: "CAN_CFG_T \<Rightarrow> CANMSG_T list" where
  "rxq c = ring_list (rx (rb c)) (rx_tail (rb c)) (rx_head (rb c))"

definition cfg_ok :: "CAN_CFG_T \<Rightarrow> bool" where
  "cfg_ok c \<longleftrightarrow> length (tx (rb c)) = 256 \<and> length (rx (rb c)) = 256 \<and>
     ring_ok (tx (rb c)) (tx_tail (rb c)) (tx_head (rb c)) \<and>
     ring_ok (rx (rb c)) (rx_tail (rb c)) (rx_head (rb c))"

lemma rx_put_eq:
  "rx_put m b = b\<lparr>rx := (rx b)[nat (rx_head b) := m], rx_head := ring_next 256 (rx_head b)\<rparr>"
  by (simp add: rx_put_def ring_next_def Let_def)

lemma tx_put_eq:
  "tx_put m b = b\<lparr>tx := (tx b)[nat (tx_head b) := m], tx_head := ring_next 256 (tx_head b)\<rparr>"
  by (simp add: tx_put_def ring_next_def Let_def)

lemma rx_pop_eq: "rx_pop b = b\<lparr>rx_tail := ring_next 256 (rx_tail b)\<rparr>"
  by (simp add: rx_pop_def ring_next_def Let_def)

lemma tx_pop_eq: "tx_pop b = b\<lparr>tx_tail := ring_next 256 (tx_tail b)\<rparr>"
  by (simp add: tx_pop_def ring_next_def Let_def)

lemmas ring_op_eqs = rx_put_eq tx_put_eq rx_pop_eq tx_pop_eq

lemma ring_ok_update [simp]: "ring_ok (xs[i := v]) t h = ring_ok xs t h"
  by (simp add: ring_ok_def)

lemma cfg_ok_ops [simp]:
  assumes "cfg_ok c"
  shows "cfg_ok (c\<lparr>rb := rx_put m (rb c)\<rparr>)" "cfg_ok (c\<lparr>rb := tx_put m (rb c)\<rparr>)"
    "cfg_ok (c\<lparr>rb := rx_pop (rb c)\<rparr>)" "cfg_ok (c\<lparr>rb := tx_pop (rb c)\<rparr>)"
  using assms ring_next_ok [of "tx (rb c)"] ring_next_ok [of "rx (rb c)"]
    ring_next_ok_tail [of "tx (rb c)"] ring_next_ok_tail [of "rx (rb c)"]
  by (simp_all add: cfg_ok_def ring_op_eqs)

text \<open>Operations on one ring leave the other alone.\<close>

lemma other_ring [simp]:
  "txq (c\<lparr>rb := rx_put m (rb c)\<rparr>) = txq c" "txq (c\<lparr>rb := rx_pop (rb c)\<rparr>) = txq c"
  "rxq (c\<lparr>rb := tx_put m (rb c)\<rparr>) = rxq c" "rxq (c\<lparr>rb := tx_pop (rb c)\<rparr>) = rxq c"
  by (simp_all add: txq_def rxq_def ring_op_eqs)

lemma len_rxq: "cfg_ok c \<Longrightarrow> length (rxq c) \<le> 255"
  using ring_used_range [of "rx (rb c)" "rx_tail (rb c)" "rx_head (rb c)"]
  by (simp add: cfg_ok_def rxq_def nat_le_iff)

lemma len_txq: "cfg_ok c \<Longrightarrow> length (txq c) \<le> 255"
  using ring_used_range [of "tx (rb c)" "tx_tail (rb c)" "tx_head (rb c)"]
  by (simp add: cfg_ok_def txq_def nat_le_iff)

lemma rxq_put:
  "cfg_ok c \<Longrightarrow> length (rxq c) < 255 \<Longrightarrow> rxq (c\<lparr>rb := rx_put m (rb c)\<rparr>) = rxq c @ [m]"
  using ring_list_put [of "rx (rb c)" "rx_tail (rb c)" "rx_head (rb c)" m]
  by (simp add: cfg_ok_def rxq_def rx_put_eq)

lemma txq_put:
  "cfg_ok c \<Longrightarrow> length (txq c) < 255 \<Longrightarrow> txq (c\<lparr>rb := tx_put m (rb c)\<rparr>) = txq c @ [m]"
  using ring_list_put [of "tx (rb c)" "tx_tail (rb c)" "tx_head (rb c)" m]
  by (simp add: cfg_ok_def txq_def tx_put_eq)

lemma rxq_empty: "cfg_ok c \<Longrightarrow> (rxq c = []) = (rx_tail (rb c) = rx_head (rb c))"
  by (simp add: cfg_ok_def rxq_def ring_list_empty)

lemma txq_empty: "cfg_ok c \<Longrightarrow> (txq c = []) = (tx_tail (rb c) = tx_head (rb c))"
  by (simp add: cfg_ok_def txq_def ring_list_empty)

lemma rxq_pop:
  "cfg_ok c \<Longrightarrow> rxq c \<noteq> [] \<Longrightarrow>
   rxq c = rx (rb c) ! nat (rx_tail (rb c)) # rxq (c\<lparr>rb := rx_pop (rb c)\<rparr>)"
  using ring_list_pop [of "rx (rb c)" "rx_tail (rb c)" "rx_head (rb c)"]
  by (simp add: rxq_empty) (simp add: cfg_ok_def rxq_def rx_pop_eq)

lemma txq_pop:
  "cfg_ok c \<Longrightarrow> txq c \<noteq> [] \<Longrightarrow>
   txq c = tx (rb c) ! nat (tx_tail (rb c)) # txq (c\<lparr>rb := tx_pop (rb c)\<rparr>)"
  using ring_list_pop [of "tx (rb c)" "tx_tail (rb c)" "tx_head (rb c)"]
  by (simp add: txq_empty) (simp add: cfg_ok_def txq_def tx_pop_eq)

lemma free_tx_count: "cfg_ok c \<Longrightarrow> can_get_free_tx_count c = 255 - int (length (txq c))"
  using ring_used_range [of "tx (rb c)" "tx_tail (rb c)" "tx_head (rb c)"]
  by (simp add: can_get_free_tx_count_def cfg_ok_def txq_def ring_used_def Let_def)

interpretation rxf: fifo_reader cfg_ok rxq 255
  "\<lambda>m c. c\<lparr>rb := rx_put m (rb c)\<rparr>" "\<lambda>c. rx (rb c) ! nat (rx_tail (rb c))"
  "\<lambda>c. c\<lparr>rb := rx_pop (rb c)\<rparr>" "\<lambda>c. rx_tail (rb c) \<noteq> rx_head (rb c)" can_read_loop
proof (unfold_locales, goal_cases)
  case (5 c)
  then show ?case by (rule rxq_pop)
next
  case (7 c n)
  then show ?case by (subst can_read_loop.simps) simp
qed (simp_all add: len_rxq rxq_put rxq_empty)

interpretation txf: fifo_writer cfg_ok txq 255
  "\<lambda>m c. c\<lparr>rb := tx_put m (rb c)\<rparr>" "\<lambda>c. tx (rb c) ! nat (tx_tail (rb c))"
  "\<lambda>c. c\<lparr>rb := tx_pop (rb c)\<rparr>" can_get_free_tx_count can_write_loop
proof (unfold_locales, goal_cases)
  case (5 c)
  then show ?case by (rule txq_pop)
next
  case (7 c n buf k)
  then show ?case by (subst can_write_loop.simps) simp
qed (simp_all add: len_txq txq_put free_tx_count)

text \<open>Each loop leaves the other ring, the open flag and the register pointer alone.\<close>

lemma can_read_loop_frame:
  "let (ms, c') = can_read_loop n c in txq c' = txq c \<and> init c' = init c \<and> regptr c' = regptr c"
proof (induction n c rule: can_read_loop.induct)
  case (1 n c)
  show ?case
  proof (cases "n > 0 \<and> rx_tail (rb c) \<noteq> rx_head (rb c)")
    case True
    then show ?thesis
      using "1.IH" [OF True] by (subst can_read_loop.simps) (simp add: case_prod_beta Let_def)
  qed (subst can_read_loop.simps, auto)
qed

lemma can_write_loop_frame:
  "let (b, c') = can_write_loop n buf k c in rxq c' = rxq c \<and> init c' = init c \<and> regptr c' = regptr c"
proof (induction n buf k c rule: can_write_loop.induct)
  case (1 n buf k c)
  show ?case
  proof (cases "n > 0 \<and> can_get_free_tx_count c > 0")
    case True
    then show ?thesis
      using "1.IH" [OF True] by (subst can_write_loop.simps) (simp add: case_prod_beta Let_def)
  qed (subst can_write_loop.simps, auto)
qed

section \<open>The state invariant\<close>

fun base :: "can_dev \<Rightarrow> u32" where
  "base Can1cfg = CAN1"
| "base Can2cfg = CAN2"

fun dregs :: "can_dev \<Rightarrow> can_state \<Rightarrow> CAN_REGS_T" where
  "dregs Can1cfg s = can1regs s"
| "dregs Can2cfg s = can2regs s"

text \<open>
  Every device structure has well-formed rings, and its register pointer is null until the first
  open and the address of its own controller from then on.
\<close>

definition can_inv :: "can_state \<Rightarrow> bool" where
  "can_inv s \<longleftrightarrow> (\<forall>d. cfg_ok (cfg d s) \<and> regptr (cfg d s) \<in> {0, base d} \<and>
     (init (cfg d s) \<longrightarrow> regptr (cfg d s) = base d))"

definition upd_dev :: "can_dev \<Rightarrow> CAN_CFG_T \<Rightarrow> CAN_REGS_T \<Rightarrow> can_state \<Rightarrow> can_state" where
  "upd_dev d c r s = set_regs (base d) r (set_cfg d c s)"

lemma regs_at_base [simp]: "regs_at (base d) s = Some (dregs d s)"
  by (cases d) (simp_all add: regs_at_def)

lemma regs_at_null [simp]: "regs_at 0 s = None"
  by (simp add: regs_at_def)

lemma base_nonzero [simp]: "base d \<noteq> 0"
  by (cases d) simp_all

lemma cfg_set_cfg [simp]: "cfg e (set_cfg d c s) = (if e = d then c else cfg e s)"
  by (cases d; cases e) simp_all

lemma cfg_set_regs [simp]: "cfg e (set_regs p r s) = cfg e s"
  by (cases e) (simp_all add: set_regs_def)

lemma cfg_bus [simp]: "cfg d (s\<lparr>bus := b\<rparr>) = cfg d s" "dregs d (s\<lparr>bus := b\<rparr>) = dregs d s"
  by (cases d; simp)+

lemma cfg_tmp [simp]: "cfg d (s\<lparr>tmpcanregs := b\<rparr>) = cfg d s" "dregs d (s\<lparr>tmpcanregs := b\<rparr>) = dregs d s"
  by (cases d; simp)+

lemma dregs_set_cfg [simp]: "dregs e (set_cfg d c s) = dregs e s"
  by (cases d; cases e) simp_all

lemma dregs_set_regs [simp]:
  "dregs e (set_regs (base d) r s) = (if e = d then r else dregs e s)"
  by (cases d; cases e) (simp_all add: set_regs_def)

lemma upd_dev_simps [simp]:
  "cfg e (upd_dev d c r s) = (if e = d then c else cfg e s)"
  "dregs e (upd_dev d c r s) = (if e = d then r else dregs e s)"
  "bus (upd_dev d c r s) = bus s" "tmpcanregs (upd_dev d c r s) = tmpcanregs s"
  by (simp_all add: upd_dev_def) (cases d; simp add: set_regs_def)+

lemma with_regs_base:
  "regptr (cfg d s) = base d \<Longrightarrow>
   with_regs d f s = (let (v, c, r) = f (cfg d s) (dregs d s) in Some (v, upd_dev d c r s))"
  by (simp add: with_regs_def upd_dev_def Let_def)

lemma with_regs_null: "regptr (cfg d s) = 0 \<Longrightarrow> with_regs d f s = None"
  by (simp add: with_regs_def)

lemma can_invD:
  assumes "can_inv s"
  shows "cfg_ok (cfg d s)" "init (cfg d s) \<Longrightarrow> regptr (cfg d s) = base d"
    "regptr (cfg d s) = 0 \<or> regptr (cfg d s) = base d"
  using assms by (auto simp: can_inv_def)

text \<open>The one frame lemma behind every operation: a routine that keeps the rings well formed.\<close>

definition keeps_cfg :: "(CAN_CFG_T \<Rightarrow> CAN_REGS_T \<Rightarrow> 'r \<times> CAN_CFG_T \<times> CAN_REGS_T) \<Rightarrow> bool" where
  "keeps_cfg f \<longleftrightarrow> (\<forall>c r v c' r'. cfg_ok c \<longrightarrow> f c r = (v, c', r') \<longrightarrow>
     cfg_ok c' \<and> init c' = init c \<and> regptr c' = regptr c)"

lemma with_regs_inv:
  assumes "can_inv s" "keeps_cfg f" "with_regs d f s = Some (v, s')"
  shows "can_inv s'"
proof (cases "regptr (cfg d s) = base d")
  case True
  obtain v' c' r' where f: "f (cfg d s) (dregs d s) = (v', c', r')" by (metis prod_cases3)
  have c': "cfg_ok c'" "init c' = init (cfg d s)" "regptr c' = base d"
    using assms(2) [unfolded keeps_cfg_def, rule_format, OF can_invD(1) [OF assms(1)] f] True
    by simp_all
  have "s' = upd_dev d c' r' s" using assms(3) f by (simp add: with_regs_base [OF True])
  with assms(1) c' show ?thesis by (simp add: can_inv_def)
next
  case False
  then have "regptr (cfg d s) = 0" using can_invD(3) [OF assms(1), of d] by simp
  with assms(3) show ?thesis by (simp add: with_regs_null)
qed

lemma cfg_ok_reset_rings [simp]: "cfg_ok c \<Longrightarrow> cfg_ok (reset_rings c)"
  by (simp add: cfg_ok_def reset_rings_def ring_ok_def)

lemma reset_rings_simps [simp]:
  "init (reset_rings c) = init c" "regptr (reset_rings c) = regptr c"
  "txq (reset_rings c) = []" "rxq (reset_rings c) = []"
  by (simp_all add: reset_rings_def txq_def rxq_def ring_list_def ring_used_def)

lemma cfg_ok_flags [simp]: "cfg_ok (c\<lparr>init := b\<rparr>) = cfg_ok c" "cfg_ok (c\<lparr>regptr := p\<rparr>) = cfg_ok c"
  by (simp_all add: cfg_ok_def)

lemma receive_keeps: "keeps_cfg can_standard_receive"
  by (auto simp: keeps_cfg_def can_standard_receive_def Let_def)

lemma transmit_keeps: "keeps_cfg can_standard_transmit"
  by (auto simp: keeps_cfg_def can_standard_transmit_def Let_def split: if_splits)

lemma set_baud_keeps: "keeps_cfg (ioctl_set_baud arg)"
  by (auto simp: keeps_cfg_def ioctl_set_baud_def Let_def
      split: option.splits CAN_BAUD_RATE_T.splits)

lemma can_read_loop_ok:
  "cfg_ok c \<Longrightarrow> can_read_loop n c = (ms, c') \<Longrightarrow>
   cfg_ok c' \<and> ms = take (nat n) (rxq c) \<and> rxq c' = drop (nat n) (rxq c) \<and>
   txq c' = txq c \<and> init c' = init c \<and> regptr c' = regptr c"
  using rxf.read_loop_spec [of c n ms c'] can_read_loop_frame [of n c] by simp

lemma can_write_loop_ok:
  "cfg_ok c \<Longrightarrow> can_write_loop n buf 0 c = (b, c') \<Longrightarrow>
   cfg_ok c' \<and> b = min (max n 0) (255 - int (length (txq c))) \<and>
   txq c' = txq c @ map buf [0 ..< nat b] \<and> rxq c' = rxq c \<and> init c' = init c \<and> regptr c' = regptr c"
  using txf.write_loop_spec [of c n buf 0 b c'] can_write_loop_frame [of n buf 0 c] by simp

lemma keeps_cfgI:
  assumes "\<And>c r v c' r'. cfg_ok c \<Longrightarrow> f c r = (v, c', r') \<Longrightarrow>
    cfg_ok c' \<and> init c' = init c \<and> regptr c' = regptr c"
  shows "keeps_cfg f"
  using assms unfolding keeps_cfg_def by blast

lemma keeps_cfgD:
  assumes "keeps_cfg f" "cfg_ok c" "f c r = (v, c', r')"
  shows "cfg_ok c' \<and> init c' = init c \<and> regptr c' = regptr c"
  using assms unfolding keeps_cfg_def by blast

text \<open>A read leaves the registers as they were: the receive interrupt enable is restored.\<close>

lemma can_read_dev_eq:
  "can_read_dev n c r = (let (ms, c') = can_read_loop n c in (ms, c', r))"
  by (simp add: can_read_dev_def Let_def case_prod_beta)

text \<open>A write queues what fits and then starts a transmission with the interrupt enables restored.\<close>

lemma can_write_dev_eq:
  "can_write_dev buf n c r =
     (let (b, c1) = can_write_loop n buf 0 c; (_, c2, r2) = can_standard_transmit c1 r in (b, c2, r2))"
  by (simp add: can_write_dev_def Let_def case_prod_beta)

lemma read_keeps: "keeps_cfg (can_read_dev n)"
proof (rule keeps_cfgI)
  fix c r v c' r'
  assume "cfg_ok c" "can_read_dev n c r = (v, c', r')"
  then show "cfg_ok c' \<and> init c' = init c \<and> regptr c' = regptr c"
    using can_read_loop_ok [of c n v c'] by (simp add: can_read_dev_eq case_prod_beta prod_eq_iff)
qed

lemma write_keeps: "keeps_cfg (can_write_dev buf n)"
proof (rule keeps_cfgI)
  fix c r v c' r'
  assume ok: "cfg_ok c" and w: "can_write_dev buf n c r = (v, c', r')"
  obtain b c1 where l: "can_write_loop n buf 0 c = (b, c1)" by fastforce
  then have tr: "can_standard_transmit c1 r = ((), c', r')"
    using w by (simp add: can_write_dev_eq case_prod_beta prod_eq_iff)
  show "cfg_ok c' \<and> init c' = init c \<and> regptr c' = regptr c"
    using can_write_loop_ok [OF ok l] keeps_cfgD [OF transmit_keeps _ tr] by simp
qed

lemma keeps_regs_only: "keeps_cfg (\<lambda>c r. (f r, c, g r))"
  by (simp add: keeps_cfg_def)

lemma can_inv_frame [simp]:
  "can_inv (s\<lparr>bus := b\<rparr>) = can_inv s" "can_inv (s\<lparr>tmpcanregs := p\<rparr>) = can_inv s"
  "can_inv (set_regs p r s) = can_inv s"
  by (simp_all add: can_inv_def)

lemma can_inv_set_cfg:
  "can_inv s \<Longrightarrow> cfg_ok c \<Longrightarrow> regptr c \<in> {0, base d} \<Longrightarrow> (init c \<Longrightarrow> regptr c = base d) \<Longrightarrow>
   can_inv (set_cfg d c s)"
  by (auto simp: can_inv_def)

section \<open>Opening\<close>

text \<open>The power bit and the pin function selection of each controller.\<close>

fun can_pins :: "can_dev \<Rightarrow> mmio \<Rightarrow> mmio" where
  "can_pins Can1cfg m = wr_or PINSEL0 0x0000005 (wr_and PINSEL0 (NOT 0x0000000F) (wr_or PCONP (push_bit 13 1) m))"
| "can_pins Can2cfg m = wr_or PINSEL0 0x0000A05 (wr_and PINSEL0 (NOT 0x00000F00) (wr_or PCONP (push_bit 14 1) m))"

definition opened_regs :: "CAN_REGS_T \<Rightarrow> CAN_REGS_T" where
  "opened_regs r =
     set_RM 0 (set_irq_enable 1 (set_timing CAN_BRP_DEFAULT 3 10 5 0 (clear_gsr (set_RM 1 r))))"

lemma can_open_fresh:
  "\<not> init (cfg d s) \<Longrightarrow> can_open hnd (base d) s =
     (Some d, (upd_dev d (reset_rings ((cfg d s)\<lparr>init := True, regptr := base d\<rparr>))
                 (opened_regs (dregs d s)) s)
        \<lparr>bus := snd (install_irq CAN_INT hnd HIGHEST_PRIORITY (wr CAN_AFMR 2 (can_pins d (bus s))))\<rparr>)"
  by (cases d) (simp_all add: can_open_def Let_def case_prod_beta upd_dev_def opened_regs_def
      regs_at_def set_regs_def)

lemma can_open_again:
  "init (cfg d s) \<Longrightarrow> can_open hnd (base d) s = (Some d, s\<lparr>bus := can_pins d (bus s)\<rparr>)"
  by (cases d) (simp_all add: can_open_def)

lemma can_open_other:
  "ipbase \<noteq> CAN1 \<Longrightarrow> ipbase \<noteq> CAN2 \<Longrightarrow> can_open hnd ipbase s = (None, s)"
  by (simp add: can_open_def)

lemma ipbase_cases: "(\<exists>d. ipbase = base d) \<or> ipbase \<noteq> CAN1 \<and> ipbase \<noteq> CAN2"
  by (metis base.simps)

lemma can_inv_upd_dev:
  "can_inv s \<Longrightarrow> cfg_ok c \<Longrightarrow> regptr c = base d \<Longrightarrow> can_inv (upd_dev d c r s)"
  by (simp add: upd_dev_def can_inv_set_cfg)

lemma can_open_inv:
  assumes "can_inv s"
  shows "can_inv (snd (can_open hnd ipbase s))"
proof (cases "\<exists>d. ipbase = base d")
  case True
  then obtain d where d: "ipbase = base d" by blast
  show ?thesis
  proof (cases "init (cfg d s)")
    case True
    then show ?thesis using assms by (simp add: d can_open_again)
  next
    case False
    then show ?thesis
      using assms can_invD(1) [OF assms, of d] by (simp add: d can_open_fresh can_inv_upd_dev)
  qed
next
  case False
  then show ?thesis using assms ipbase_cases by (metis can_open_other snd_conv)
qed

lemma can_close_inv: "can_inv s \<Longrightarrow> can_inv (snd (can_close d s))"
  using can_invD [of s d] by (auto simp: can_close_def intro!: can_inv_set_cfg)

lemma can_ioctl_inv:
  assumes "can_inv s" "can_ioctl bs d cmd arg s = Some (st, s')"
  shows "can_inv s'"
proof -
  note inv = with_regs_inv [OF assms(1) keeps_regs_only] with_regs_inv [OF assms(1) set_baud_keeps]
  show ?thesis
    using assms inv
    by (auto simp: can_ioctl_def case_prod_beta split: if_splits option.splits CAN_IOCTL_CMD_T.splits)
qed

section \<open>The handler's work on one device\<close>

text \<open>The device's part of the handler as a function of its structure and its registers.\<close>

definition serve :: "icr_read \<Rightarrow> CAN_CFG_T \<Rightarrow> CAN_REGS_T \<Rightarrow> CAN_CFG_T \<times> CAN_REGS_T" where
  "serve rd_icr c r =
     (let (icr, r) = rd_icr r;
          (c, r) = (if icr_RI icr \<noteq> 0 then snd (can_standard_receive c r) else (c, r));
          (icr, r) = rd_icr r
      in if icr_TI1 icr \<noteq> 0 then snd (can_standard_transmit c r) else (c, r))"

lemma keeps_cfg_snd:
  "keeps_cfg f \<Longrightarrow> cfg_ok c \<Longrightarrow> cfg_ok (fst (snd (f c r))) \<and>
     init (fst (snd (f c r))) = init c \<and> regptr (fst (snd (f c r))) = regptr c"
  by (metis keeps_cfgD prod.collapse)

lemma serve_keeps:
  "cfg_ok c \<Longrightarrow> cfg_ok (fst (serve rd_icr c r)) \<and> init (fst (serve rd_icr c r)) = init c \<and>
     regptr (fst (serve rd_icr c r)) = regptr c"
  by (simp add: serve_def Let_def case_prod_beta keeps_cfg_snd [OF receive_keeps]
      keeps_cfg_snd [OF transmit_keeps])

lemma upd_dev_upd_dev [simp]: "upd_dev d c r (upd_dev d c' r' s) = upd_dev d c r s"
  by (cases d) (simp_all add: upd_dev_def set_regs_def)

lemma upd_dev_same: "set_regs (base d) r s = upd_dev d (cfg d s) r s"
  by (cases d) (simp_all add: upd_dev_def set_regs_def)

lemma handle_dev_serve:
  assumes "cfg_ok (cfg d s)" "regptr (cfg d s) = base d"
  shows "handle_dev rd_icr d s =
    (let (c, r) = serve rd_icr (cfg d s) (dregs d s) in Some (upd_dev d c r (s\<lparr>tmpcanregs := base d\<rparr>)))"
proof -
  let ?r1 = "snd (rd_icr (dregs d s))"
  have "regptr (fst (snd (can_standard_receive (cfg d s) ?r1))) = base d"
    using keeps_cfg_snd [OF receive_keeps assms(1)] assms(2) by simp
  with assms(2) show ?thesis
    by (simp add: handle_dev_def serve_def read_icr_def Let_def case_prod_beta with_regs_base
        upd_dev_same)
qed

lemma handle_dev_null: "regptr (cfg d s) = 0 \<Longrightarrow> handle_dev rd_icr d s = None"
  by (simp add: handle_dev_def read_icr_def)

lemma handle_dev_inv:
  assumes "can_inv s" "handle_dev rd_icr d s = Some s'"
  shows "can_inv s'"
proof (cases "regptr (cfg d s) = base d")
  case True
  note ok = can_invD(1) [OF assms(1), of d]
  show ?thesis
    using assms(2) serve_keeps [OF ok, of rd_icr "dregs d s"] assms(1) True
    by (auto simp: handle_dev_serve [OF ok True] case_prod_beta intro!: can_inv_upd_dev)
next
  case False
  then show ?thesis using can_invD(3) [OF assms(1), of d] handle_dev_null [of d s] assms(2) by simp
qed

lemma CAN_Handler_inv: "can_inv s \<Longrightarrow> CAN_Handler rd_icr s = Some s' \<Longrightarrow> can_inv s'"
  by (auto simp: CAN_Handler_def Let_def bind_eq_Some_conv dest!: handle_dev_inv [rotated])

section \<open>Transmit and receive as queue operations\<close>

text \<open>What starting a transmission of message \<open>m\<close> writes to the controller.\<close>

definition tx_started :: "CANMSG_T \<Rightarrow> CAN_REGS_T \<Rightarrow> CAN_REGS_T" where
  "tx_started m r = (tx_load m r)
     \<lparr>cancmr := (cancmr r)\<lparr>cmr_STB1 := 1, cmr_TR := 1\<rparr>, canier := (canier r)\<lparr>ier_TIE1 := 1\<rparr>\<rparr>"

lemma can_standard_transmit_spec:
  assumes "cfg_ok c" "can_standard_transmit c r = (u, c', r')"
  shows "cfg_ok c' \<and> rxq c' = rxq c \<and>
    (case txq c of
       [] \<Rightarrow> c' = c \<and> r' = r\<lparr>canier := (canier r)\<lparr>ier_TIE1 := 0\<rparr>\<rparr>
     | m # q \<Rightarrow> if sr_TBS1 (cansr r) \<noteq> 0 then txq c' = q \<and> r' = tx_started m r else c' = c \<and> r' = r)"
proof (cases "txq c")
  case Nil
  then show ?thesis
    using assms txq_empty [OF assms(1)] by (auto simp: can_standard_transmit_def)
next
  case (Cons m q)
  then have ne: "tx_head (rb c) \<noteq> tx_tail (rb c)" using txq_empty [OF assms(1)] by auto
  have "m = tx (rb c) ! nat (tx_tail (rb c))" "q = txq (c\<lparr>rb := tx_pop (rb c)\<rparr>)"
    using txq_pop [OF assms(1)] Cons by simp_all
  with ne Cons assms show ?thesis
    by (auto simp: can_standard_transmit_def Let_def tx_started_def tx_load_def split: if_splits)
qed

lemma can_standard_receive_spec:
  assumes "cfg_ok c" "length (rxq c) < 255" "can_standard_receive c r = (u, c', r')"
  shows "cfg_ok c' \<and> txq c' = txq c \<and> r' = r\<lparr>cancmr := (cancmr r)\<lparr>cmr_RRB := 1\<rparr>\<rparr> \<and>
    rxq c' = rxq c @ [rx_store r (rx (rb c) ! nat (rx_head (rb c)))]"
  using assms by (auto simp: can_standard_receive_def Let_def rxq_put)

lemma can_write_ex:
  assumes "can_inv s" "init (cfg d s)"
  obtains s' c1 where
    "can_write d buf n s = Some (min (max n 0) (255 - int (length (txq (cfg d s)))), s')"
    "cfg_ok c1" "rxq c1 = rxq (cfg d s)"
    "txq c1 = txq (cfg d s) @ map buf [0 ..< nat (min (max n 0) (255 - int (length (txq (cfg d s)))))]"
    "s' = upd_dev d (fst (snd (can_standard_transmit c1 (dregs d s))))
            (snd (snd (can_standard_transmit c1 (dregs d s)))) s"
    "init c1 = init (cfg d s)"
proof -
  obtain b c1 where l: "can_write_loop n buf 0 (cfg d s) = (b, c1)" by fastforce
  note ok = can_write_loop_ok [OF can_invD(1) [OF assms(1)] l]
  have "can_write d buf n s = Some (b, upd_dev d (fst (snd (can_standard_transmit c1 (dregs d s))))
            (snd (snd (can_standard_transmit c1 (dregs d s)))) s)"
    using assms(2) can_invD(2) [OF assms] l
    by (simp add: can_write_def with_regs_base can_write_dev_eq case_prod_beta)
  with ok show ?thesis by (intro that [of _ c1]) auto
qed

section \<open>Properties of the driver\<close>

text \<open>
  C4 can_read on an open device returns exactly the oldest max_bytes received messages in the
  order they arrived (all of them if there are fewer, none for a count that is not positive),
  removes them and nothing else from the receive queue, and leaves the transmit queue, the
  controller's registers (its interrupt enables are restored) and the other device unchanged.
\<close>
theorem can_read_spec:
  assumes "can_inv s" "init (cfg d s)"
  shows "\<exists>s'. can_read d max_bytes s = Some (take (nat max_bytes) (rxq (cfg d s)), s') \<and>
           rxq (cfg d s') = drop (nat max_bytes) (rxq (cfg d s)) \<and>
           txq (cfg d s') = txq (cfg d s) \<and> dregs d s' = dregs d s \<and> bus s' = bus s \<and>
           (\<forall>e. e \<noteq> d \<longrightarrow> cfg e s' = cfg e s \<and> dregs e s' = dregs e s)"
proof -
  obtain ms c' where l: "can_read_loop max_bytes (cfg d s) = (ms, c')" by fastforce
  have "can_read d max_bytes s = Some (ms, upd_dev d c' (dregs d s) s)"
    using assms(2) can_invD(2) [OF assms] l by (simp add: can_read_def with_regs_base can_read_dev_eq)
  then show ?thesis using can_read_loop_ok [OF can_invD(1) [OF assms(1)] l] by simp
qed


text \<open>
  The receive routine decodes the controller's frame into a message and appends it to the
  receive queue as long as the queue has a free slot, then releases the controller's buffer; the
  transmit queue is unchanged.
\<close>
theorem can_standard_receive_appends:
  assumes "cfg_ok c" "length (rxq c) < 255"
  shows "let (_, c', r') = can_standard_receive c r in
    cfg_ok c' \<and> txq c' = txq c \<and> cmr_RRB (cancmr r') = 1 \<and>
    (\<exists>m. rxq c' = rxq c @ [m] \<and> DLC m = rfs_DLC (canrfs r) \<and> RTR m = rfs_RTR (canrfs r) \<and>
       FF m = rfs_FF (canrfs r) \<and> MsgID m = ucast (rid_ID29_0 (canrid r)))"
proof -
  obtain u c' r' where e: "can_standard_receive c r = (u, c', r')" by (metis prod_cases3)
  from can_standard_receive_spec [OF assms e] show ?thesis by (simp add: e rx_store_def)
qed

text \<open>
  C29 There is no protection against overflowing the ring: a frame received when 255 messages are
  waiting makes the receive queue look empty, so all of them, the new one included, are lost to
  can_read.
\<close>
theorem can_standard_receive_overflow:
  assumes "cfg_ok c" "length (rxq c) = 255"
  shows "let (_, c', _) = can_standard_receive c r in rxq c' = [] \<and> fst (can_read_loop n c') = []"
proof -
  let ?m = "rx_store r (rx (rb c) ! nat (rx_head (rb c)))"
  let ?c = "c\<lparr>rb := rx_put ?m (rb c)\<rparr>"
  have u: "nat (ring_used 256 (rx_tail (rb c)) (rx_head (rb c))) = 255"
    using assms by (simp add: rxq_def cfg_ok_def)
  have e: "rxq ?c = []"
    using assms(1) ring_list_overflow [of "rx (rb c)" "rx_tail (rb c)" "rx_head (rb c)" ?m] u
    by (simp add: cfg_ok_def rxq_def rx_put_eq)
  have "can_read_loop n ?c = (fst (can_read_loop n ?c), snd (can_read_loop n ?c))" by simp
  from can_read_loop_ok [OF cfg_ok_ops(1) [OF assms(1)] this]
  have "fst (can_read_loop n ?c) = []" unfolding e by simp
  with e show ?thesis by (simp add: can_standard_receive_def Let_def)
qed

section \<open>Concrete states\<close>

text \<open>The static data as the C runtime leaves it (all zero) and the state after opening CAN1.\<close>

definition cfg0 :: CAN_CFG_T where
  "cfg0 = \<lparr>init = False, rb = \<lparr>tx = replicate 256 msg0, rx = replicate 256 msg0,
     tx_head = 0, tx_tail = 0, rx_head = 0, rx_tail = 0\<rparr>, regptr = 0\<rparr>"

definition can0 :: can_state where
  "can0 = \<lparr>bus = mmio0, can1cfg = cfg0, can2cfg = cfg0, can1regs = regs0, can2regs = regs0,
     tmpcanregs = 0\<rparr>"

definition can1_open :: can_state where
  "can1_open = snd (can_open 0x4000 CAN1 can0)"

lemma cfg0_simps [simp]:
  "cfg_ok cfg0" "init cfg0 = False" "regptr cfg0 = 0" "txq cfg0 = []" "rxq cfg0 = []"
  by (simp_all add: cfg0_def cfg_ok_def ring_ok_def txq_def rxq_def ring_list_def ring_used_def)

lemma can0_simps [simp]: "cfg d can0 = cfg0" "dregs d can0 = regs0" "bus can0 = mmio0"
  by (cases d; simp add: can0_def)+

lemma can0_inv [simp]: "can_inv can0"
  by (simp add: can_inv_def)

lemma can1_open_inv [simp]: "can_inv can1_open"
  by (simp add: can1_open_def can_open_inv)

lemma can1_open_simps [simp]:
  "init (can1cfg can1_open)" "regptr (can1cfg can1_open) = CAN1"
  "txq (can1cfg can1_open) = []" "rxq (can1cfg can1_open) = []"
  "can1regs can1_open = opened_regs regs0" "can2cfg can1_open = cfg0"
  unfolding cfg.simps [symmetric] dregs.simps [symmetric] can1_open_def base.simps(1) [symmetric]
  by (subst can_open_fresh, simp_all del: cfg.simps dregs.simps base.simps)+

lemma sr_opened_regs [simp]: "cansr (opened_regs r) = cansr r"
  by (simp add: opened_regs_def set_RM_def set_irq_enable_def set_timing_def clear_gsr_def)

lemma regs0_TBS1 [simp]: "sr_TBS1 (cansr regs0) = 0"
  by (simp add: regs0_def)


definition can1_received :: can_state where
  "can1_received = can1_open\<lparr>can1cfg := (can1cfg can1_open)
     \<lparr>rb := (rb (can1cfg can1_open))\<lparr>rx := replicate 256 msg0, rx_head := 2\<rparr>\<rparr>\<rparr>"

lemma can1_open_rb: "rb (can1cfg can1_open) = rb cfg0"
  unfolding cfg.simps(1) [symmetric] can1_open_def base.simps(1) [symmetric]
  by (subst can_open_fresh) (simp_all del: cfg.simps base.simps add: reset_rings_def cfg0_def)

lemma can1_received_simps [simp]:
  "cfg_ok (can1cfg can1_received)" "init (can1cfg can1_received)"
  "regptr (can1cfg can1_received) = CAN1" "rxq (can1cfg can1_received) = [msg0, msg0]"
  "can2cfg can1_received = cfg0"
  by (simp_all add: can1_received_def can1_open_rb)
    (simp_all add: cfg0_def cfg_ok_def ring_ok_def rxq_def ring_list_def ring_used_def ring_idx_def
      upt_rec)

lemma can1_received_inv: "can_inv can1_received"
  unfolding can_inv_def
proof
  fix d
  show "cfg_ok (cfg d can1_received) \<and> regptr (cfg d can1_received) \<in> {0, base d} \<and>
    (init (cfg d can1_received) \<longrightarrow> regptr (cfg d can1_received) = base d)"
    by (cases d) simp_all
qed

theorem can_read_spec_witness:
  "\<exists>s'. can_read Can1cfg 1 can1_received = Some ([msg0], s') \<and> rxq (cfg Can1cfg s') = [msg0]"
  using can_read_spec [OF can1_received_inv, of Can1cfg 1] by auto

theorem can_standard_receive_appends_witness:
  "let (_, c', r') = can_standard_receive cfg0 regs0 in
    cmr_RRB (cancmr r') = 1 \<and> (\<exists>m. rxq c' = [m] \<and> MsgID m = 0)"
  using can_standard_receive_appends [of cfg0 regs0]
  by (auto simp: Let_def case_prod_beta regs0_def)

definition cfg_full :: CAN_CFG_T where
  "cfg_full = cfg0\<lparr>rb := (rb cfg0)\<lparr>rx_head := 255\<rparr>\<rparr>"

lemma cfg_full_simps: "cfg_ok cfg_full" "length (rxq cfg_full) = 255"
  by (simp_all add: cfg_full_def cfg0_def cfg_ok_def ring_ok_def rxq_def ring_used_def)

theorem can_standard_receive_overflow_witness:
  "let (_, c', _) = can_standard_receive cfg_full regs0 in rxq c' = [] \<and> fst (can_read_loop 1 c') = []"
  by (rule can_standard_receive_overflow [OF cfg_full_simps])

end
