(* ===== verification/Can_Control.thy ===== *)
theory Can_Control
  imports Can
begin

text \<open>
  The control side of the CAN driver: opening and closing, the \<open>can_ioctl\<close> commands, and the
  dispatch of the interrupt handler \<open>CAN_Handler\<close>. The definitions are those of \<open>Can\<close>; this
  theory holds their properties.
\<close>

section \<open>Opening and closing\<close>

text \<open>
  The first can_open of a controller returns its handle with both queues empty, the
  controller out of reset mode at 125 kbit/s with receive and transmit interrupts enabled and its
  error counters cleared, and installs the handler in vector slot 23; the other device is
  unchanged.
\<close>
theorem can_open_first:
  assumes "\<not> init (cfg d s)"
  shows "\<exists>s'. can_open hnd (base d) s = (Some d, s') \<and>
    init (cfg d s') \<and> regptr (cfg d s') = base d \<and> txq (cfg d s') = [] \<and> rxq (cfg d s') = [] \<and>
    mod_RM (canmod (dregs d s')) = 0 \<and> ioctl_get_baud (dregs d s') = 2 \<and>
    ier_RIE (canier (dregs d s')) = 1 \<and> ier_TIE1 (canier (dregs d s')) = 1 \<and>
    gsr_RXERR (cangsr (dregs d s')) = 0 \<and> gsr_TXERR (cangsr (dregs d s')) = 0 \<and>
    rd (vect_addr CAN_INT) (bus s') = hnd \<and> rd (vect_cntl CAN_INT) (bus s') = HIGHEST_PRIORITY \<and>
    (\<forall>e. e \<noteq> d \<longrightarrow> cfg e s' = cfg e s \<and> dregs e s' = dregs e s)"
proof -
  have slot: "rd (vect_addr CAN_INT) (snd (install_irq CAN_INT hnd HIGHEST_PRIORITY m)) = hnd"
    "rd (vect_cntl CAN_INT) (snd (install_irq CAN_INT hnd HIGHEST_PRIORITY m)) = HIGHEST_PRIORITY" for m
    by (simp_all add: install_irq_def Let_def mmio_simps vect_addr_def vect_cntl_def)
  show ?thesis
    by (subst can_open_fresh [OF assms], intro exI conjI, rule refl)
      (simp_all add: slot opened_regs_def set_RM_def set_irq_enable_def set_timing_def
        clear_gsr_def ioctl_get_baud_def)
qed

theorem can_open_first_witness:
  "\<exists>s'. can_open 0x4000 (base Can2cfg) can0 = (Some Can2cfg, s') \<and> init (cfg Can2cfg s') \<and>
     cfg Can1cfg s' = cfg0"
  using can_open_first [of Can2cfg can0 "0x4000"] by (auto simp del: base.simps)

text \<open>
  A second can_open of an open controller returns the same handle again, not the NULL its
  documentation announces: the device structures and registers, and the messages queued, are
  untouched. An address that is no controller gives NULL and changes nothing.
\<close>
theorem can_open_not_exclusive:
  assumes "init (cfg d s)" "ipbase \<noteq> CAN1" "ipbase \<noteq> CAN2"
  shows "fst (can_open hnd (base d) s) = Some d \<and>
    (\<forall>e. cfg e (snd (can_open hnd (base d) s)) = cfg e s \<and>
         dregs e (snd (can_open hnd (base d) s)) = dregs e s) \<and>
    can_open hnd ipbase s = (None, s)"
  using assms by (simp add: can_open_again can_open_other)

theorem can_open_not_exclusive_witness:
  "fst (can_open 0x4000 (base Can1cfg) can1_open) = Some Can1cfg \<and>
   can_open 0x4000 0 can1_open = (None, can1_open)"
  using can_open_not_exclusive [of Can1cfg can1_open 0 "0x4000"] by simp

text \<open>
  can_close on an open device powers its controller down and closes it: it then reports an
  error on every control command and on a second close, reads and writes nothing, and keeps the
  queued messages and the registers of both devices; the other device stays as it was.
\<close>
theorem can_close_shuts:
  assumes "can_inv s" "init (cfg d s)"
  shows "\<exists>s'. can_close d s = (NO_ERROR, s') \<and> \<not> init (cfg d s') \<and>
    rd PCONP (bus s') = rd PCONP (bus s) AND NOT (push_bit (if d = Can1cfg then 13 else 14) 1) \<and>
    can_ioctl bs d cmd arg s' = Some (ERROR, s') \<and> can_close d s' = (ERROR, s') \<and>
    can_read d n s' = Some ([], s') \<and> can_write d buf n s' = Some (0, s') \<and>
    txq (cfg d s') = txq (cfg d s) \<and> rxq (cfg d s') = rxq (cfg d s) \<and>
    (\<forall>e. dregs e s' = dregs e s \<and> (e \<noteq> d \<longrightarrow> cfg e s' = cfg e s))"
proof -
  let ?k = "if d = Can1cfg then 13 else 14"
  let ?s = "set_cfg d ((cfg d s)\<lparr>init := False\<rparr>) (s\<lparr>bus := wr_and PCONP (NOT (push_bit ?k 1)) (bus s)\<rparr>)"
  have "can_close d s = (NO_ERROR, ?s)"
    using assms(2) can_invD(2) [OF assms] by (cases d) (simp_all add: can_close_def)
  moreover have "bus ?s = wr_and PCONP (NOT (push_bit ?k 1)) (bus s)" by (cases d) simp_all
  ultimately show ?thesis
    by (intro exI [of _ ?s])
      (simp add: can_ioctl_def can_close_def can_read_def can_write_def mmio_simps txq_def rxq_def)
qed

theorem can_close_shuts_witness:
  "\<exists>s'. can_close Can1cfg can1_open = (NO_ERROR, s') \<and> \<not> init (cfg Can1cfg s')"
  using can_close_shuts [of can1_open Can1cfg "\<lambda>_. 0" 0 0 0 "\<lambda>_. msg0"] by auto

section \<open>Control commands\<close>

text \<open>
  Setting each of the six baud rates on an open device succeeds and reading the baud rate back
  gives the same enumerator; the command empties both queues, and any other argument is answered
  with SMA_BAD_PARAMS.
\<close>
theorem can_baud_roundtrip:
  assumes "can_inv s" "init (cfg d s)"
  shows "\<exists>s'. can_ioctl bs d 0 rate s = Some (if 0 \<le> rate \<and> rate < 6 then NO_ERROR else SMA_BAD_PARAMS, s') \<and>
    txq (cfg d s') = [] \<and> rxq (cfg d s') = [] \<and> mod_RM (canmod (dregs d s')) = 0 \<and>
    can_ioctl bs d 4 1 s' =
      Some (if 0 \<le> rate \<and> rate < 6 then rate else ioctl_get_baud (dregs d s), s')"
proof -
  obtain st c r where b: "ioctl_set_baud rate (cfg d s) (dregs d s) = (st, c, r)" by (metis prod_cases3)
  have rates: "rate = 0 \<or> rate = 1 \<or> rate = 2 \<or> rate = 3 \<or> rate = 4 \<or> rate = 5"
    if "0 \<le> rate" "rate < 6" using that by linarith
  have c: "c = reset_rings (cfg d s)" and rm: "mod_RM (canmod r) = 0"
    using b by (auto simp: ioctl_set_baud_def Let_def case_prod_beta set_RM_def set_irq_enable_def)
  have st: "st = (if 0 \<le> rate \<and> rate < 6 then NO_ERROR else SMA_BAD_PARAMS) \<and>
      ioctl_get_baud r = (if 0 \<le> rate \<and> rate < 6 then rate else ioctl_get_baud (dregs d s))"
  proof (cases "0 \<le> rate \<and> rate < 6")
    case True
    with rates b show ?thesis
      by (auto simp: ioctl_set_baud_def enum_defs set_BRP_def set_timing_def set_RM_def
          set_irq_enable_def clear_gsr_def ioctl_get_baud_def)
  next
    case False
    with b show ?thesis
      by (auto simp: ioctl_set_baud_def enum_defs set_timing_def set_RM_def
          set_irq_enable_def clear_gsr_def ioctl_get_baud_def)
  qed
  have base: "regptr (cfg d s) = base d" using assms by (rule can_invD)
  have "can_ioctl bs d 0 rate s = Some (st, upd_dev d c r s)"
    using assms(2) b base by (simp add: can_ioctl_def enum_defs with_regs_base)
  moreover have "can_ioctl bs d 4 1 (upd_dev d c r s) = Some (ioctl_get_baud r, upd_dev d c r (upd_dev d c r s))"
    using assms(2) base c
    by (simp add: can_ioctl_def enum_defs with_regs_base ioctl_get_status_def)
  moreover have "upd_dev d c r (upd_dev d c r s) = upd_dev d c r s"
    by (cases d) (simp_all add: upd_dev_def set_regs_def)
  ultimately show ?thesis using st c rm by (intro exI [of _ "upd_dev d c r s"]) simp
qed

theorem can_baud_roundtrip_witness:
  "\<exists>s'. can_ioctl (\<lambda>_. 0) Can1cfg 0 4 can1_open = Some (NO_ERROR, s') \<and>
     can_ioctl (\<lambda>_. 0) Can1cfg 4 1 s' = Some (4, s')"
  using can_baud_roundtrip [of can1_open Can1cfg "\<lambda>_. 0" 4] by auto

lemma ioctl_mode_cases:
  assumes "ioctl_set_mode m r = (st, r')" "mod_SM (canmod r) = 0" "mod_TM (canmod r) = 0"
  shows "st = (if 0 \<le> m \<and> m < 4 then NO_ERROR else SMA_BAD_PARAMS) \<and>
    (0 \<le> m \<and> m < 4 \<longrightarrow> ioctl_get_mode r' = (if mod_LOM (canmod r) = 0 then m else 1))"
proof (cases "0 \<le> m \<and> m < 4")
  case True
  then have "m = 0 \<or> m = 1 \<or> m = 2 \<or> m = 3" by linarith
  then show ?thesis
    using assms(1) [symmetric] assms(2,3)
    by (elim disjE) (simp_all add: ioctl_set_mode_def enum_defs set_RM_def ioctl_get_mode_def)
next
  case False
  with assms show ?thesis by (auto simp: ioctl_set_mode_def enum_defs)
qed

text \<open>
  From an operating controller (no sleep, test or listen-only bit set) setting each of the four
  modes succeeds and the mode read back is the one set; any other argument gives SMA_BAD_PARAMS.
  Listen-only mode is sticky: once its bit is set no mode command clears it, and the mode read
  back stays MODE_LISTEN_ONLY.
\<close>
theorem can_mode_roundtrip:
  assumes "can_inv s" "init (cfg d s)"
    and "mod_SM (canmod (dregs d s)) = 0" "mod_TM (canmod (dregs d s)) = 0"
  shows "\<exists>s'. can_ioctl bs d 3 m s = Some (if 0 \<le> m \<and> m < 4 then NO_ERROR else SMA_BAD_PARAMS, s') \<and>
    txq (cfg d s') = txq (cfg d s) \<and> rxq (cfg d s') = rxq (cfg d s) \<and>
    (0 \<le> m \<and> m < 4 \<longrightarrow> can_ioctl bs d 4 0 s' =
       Some (if mod_LOM (canmod (dregs d s)) = 0 then m else 1, s'))"
proof -
  obtain st r where b: "ioctl_set_mode m (dregs d s) = (st, r)" by fastforce
  note mode = ioctl_mode_cases [OF b assms(3,4)]
  have base: "regptr (cfg d s) = base d" using assms(1,2) by (rule can_invD)
  let ?s = "upd_dev d (cfg d s) r s"
  have "can_ioctl bs d 3 m s = Some (st, ?s)"
    using assms(2) b base by (simp add: can_ioctl_def enum_defs with_regs_base)
  moreover have "can_ioctl bs d 4 0 ?s = Some (ioctl_get_mode r, upd_dev d (cfg d s) r ?s)"
    using assms(2) base by (simp add: can_ioctl_def enum_defs with_regs_base ioctl_get_status_def)
  moreover have "upd_dev d (cfg d s) r ?s = ?s"
    by (cases d) (simp_all add: upd_dev_def set_regs_def)
  ultimately show ?thesis using mode by (intro exI [of _ ?s]) simp
qed

lemma opened_regs0_mod [simp]: "canmod (opened_regs regs0) = canmod regs0"
  by (simp add: opened_regs_def set_RM_def set_irq_enable_def set_timing_def clear_gsr_def regs0_def)

theorem can_mode_roundtrip_witness:
  "\<exists>s'. can_ioctl (\<lambda>_. 0) Can1cfg 3 1 can1_open = Some (NO_ERROR, s') \<and>
     can_ioctl (\<lambda>_. 0) Can1cfg 4 0 s' = Some (1, s')"
proof -
  have "mod_SM (canmod regs0) = 0" "mod_TM (canmod regs0) = 0" by (simp_all add: regs0_def)
  then show ?thesis using can_mode_roundtrip [of can1_open Can1cfg "\<lambda>_. 0" 1] by auto
qed

lemma wait_bus_off_Some: "bs n = 1 \<Longrightarrow> n = k + i \<Longrightarrow> \<exists>m. wait_bus_off bs k = Some m"
proof (induction i arbitrary: k)
  case 0
  then show ?case by (subst wait_bus_off.simps) simp
next
  case (Suc i)
  then have "\<exists>m. wait_bus_off bs (Suc k) = Some m" by simp
  then show ?case by (subst wait_bus_off.simps) auto
qed

lemma wait_bus_off_result: "wait_bus_off bs k = Some m \<Longrightarrow> bs m = 1"
  by (induction rule: wait_bus_off.raw_induct [rotated 1, consumes 1]) (auto split: if_splits)

text \<open>
  The CAN_FORCE_BUS_OFF command of an open device returns exactly when one of its polls of the
  bus status reads 1; it then reports success with the transmit error counter cleared. If the
  controller never reports bus off the command never returns.
\<close>
theorem can_force_bus_off_returns:
  assumes "can_inv s" "init (cfg d s)"
  shows "(can_ioctl bs d 5 arg s \<noteq> None) = (\<exists>n. bs n = 1) \<and>
    (\<forall>st s'. can_ioctl bs d 5 arg s = Some (st, s') \<longrightarrow>
       st = NO_ERROR \<and> cfg d s' = cfg d s \<and> gsr_TXERR (cangsr (dregs d s')) = 0)"
proof -
  have base: "regptr (cfg d s) = base d" using assms by (rule can_invD)
  have "(wait_bus_off bs 0 \<noteq> None) = (\<exists>n. bs n = 1)"
    using wait_bus_off_Some [of bs _ 0] wait_bus_off_result [of bs 0] by fastforce
  moreover have "can_ioctl bs d 5 arg s = (case wait_bus_off bs 0 of None \<Rightarrow> None
      | Some _ \<Rightarrow> Some (NO_ERROR, upd_dev d (cfg d s) (ioctl_force_bus_off (dregs d s)) s))"
    using assms(2) base by (simp add: can_ioctl_def enum_defs with_regs_base split: option.split)
  ultimately show ?thesis
    by (cases "wait_bus_off bs 0") (simp_all add: ioctl_force_bus_off_def)
qed

theorem can_force_bus_off_returns_witness:
  "can_ioctl (\<lambda>n. if n = 3 then 1 else 0) Can1cfg 5 0 can1_open \<noteq> None \<and>
   can_ioctl (\<lambda>n. 0) Can1cfg 5 0 can1_open = None"
proof
  have "\<exists>n. (if n = (3::nat) then 1 else 0) = (1 :: 1 word)" by (rule exI [of _ 3]) simp
  then show "can_ioctl (\<lambda>n. if n = 3 then 1 else 0) Can1cfg 5 0 can1_open \<noteq> None"
    using can_force_bus_off_returns [of can1_open Can1cfg "\<lambda>n. if n = 3 then 1 else 0" 0]
    by (simp only: can1_open_inv can1_open_simps cfg.simps simp_thms)
  show "can_ioctl (\<lambda>n. 0) Can1cfg 5 0 can1_open = None"
    using can_force_bus_off_returns [of can1_open Can1cfg "\<lambda>n. 0" 0]
    by (simp only: can1_open_inv can1_open_simps cfg.simps simp_thms zero_neq_one)
qed

section \<open>The interrupt handler\<close>

text \<open>
  The handler follows the register pointers of both devices without testing them: if it runs
  while one of the two was never opened, it follows a null pointer.
\<close>
theorem CAN_Handler_needs_both:
  assumes "can_inv s" "regptr (cfg d s) = 0"
  shows "CAN_Handler rd_icr s = None"
proof (cases d)
  case Can1cfg
  then show ?thesis using assms(2) by (simp add: CAN_Handler_def handle_dev_null)
next
  case Can2cfg
  let ?s = "s\<lparr>bus := wr PROF_SET PROF_PIN_4 (bus s)\<rparr>"
  have "handle_dev rd_icr Can2cfg s1 = None" if s1: "handle_dev rd_icr Can1cfg ?s = Some s1" for s1
  proof -
    have b: "regptr (cfg Can1cfg ?s) = base Can1cfg"
      using can_invD(3) [OF assms(1), of Can1cfg] s1 handle_dev_null [of Can1cfg ?s rd_icr]
      by (simp del: cfg.simps) metis
    have "cfg Can2cfg s1 = cfg Can2cfg s"
      using s1 can_invD(1) [OF assms(1)]
      by (subst (asm) handle_dev_serve [OF _ b]) (auto simp: case_prod_beta simp del: cfg.simps)
    then show ?thesis using assms(2) Can2cfg by (simp add: handle_dev_null)
  qed
  then show ?thesis by (cases "handle_dev rd_icr Can1cfg ?s") (simp_all add: CAN_Handler_def)
qed

theorem CAN_Handler_needs_both_witness: "CAN_Handler (\<lambda>r. (canicr r, r)) can1_open = None"
  by (rule CAN_Handler_needs_both [of _ Can2cfg]) simp_all

lemma CAN_Handler_runs:
  assumes "can_inv s" "regptr (cfg Can1cfg s) = CAN1" "regptr (cfg Can2cfg s) = CAN2"
  shows "\<exists>s'. CAN_Handler rd_icr s = Some s' \<and>
    (\<forall>d. (cfg d s', dregs d s') = serve rd_icr (cfg d s) (dregs d s)) \<and>
    bus s' = wr PROF_CLR PROF_PIN_4 (wr VICVectAddr 0 (wr PROF_SET PROF_PIN_4 (bus s)))"
proof -
  note ok = can_invD(1) [OF assms(1)]
  have all: "(\<forall>d. P d) = (P Can1cfg \<and> P Can2cfg)" for P by (metis can_dev.exhaust)
  let ?s = "s\<lparr>bus := wr PROF_SET PROF_PIN_4 (bus s)\<rparr>"
  let ?v = "\<lambda>d. serve rd_icr (cfg d s) (dregs d s)"
  let ?s1 = "upd_dev Can1cfg (fst (?v Can1cfg)) (snd (?v Can1cfg)) (?s\<lparr>tmpcanregs := CAN1\<rparr>)"
  have 1: "handle_dev rd_icr Can1cfg ?s = Some ?s1"
    by (subst handle_dev_serve) (use ok assms(2) in \<open>simp_all add: case_prod_beta del: cfg.simps dregs.simps\<close>)
  have 2: "handle_dev rd_icr Can2cfg ?s1 =
      Some (upd_dev Can2cfg (fst (?v Can2cfg)) (snd (?v Can2cfg)) (?s1\<lparr>tmpcanregs := CAN2\<rparr>))"
    by (subst handle_dev_serve) (use ok assms(3) in \<open>simp_all add: case_prod_beta del: cfg.simps dregs.simps\<close>)
  show ?thesis
    unfolding CAN_Handler_def Let_def 1 bind.bind_lunit 2 all
    by (simp del: cfg.simps dregs.simps)
qed

lemma receive_frame: "canicr (snd (snd (can_standard_receive c r))) = canicr r"
    "txq (fst (snd (can_standard_receive c r))) = txq c"
  by (simp_all add: can_standard_receive_def Let_def)

text \<open>
  If reading the interrupt capture register leaves its transmit bit set, the handler serves
  every pending interrupt of both devices: a device with RI set receives its frame, one with TI1
  set goes on to transmit, in this order, and the interrupt is acknowledged between setting and
  clearing the profiling pin.
\<close>
theorem CAN_Handler_serves:
  assumes "can_inv s" "regptr (cfg Can1cfg s) = CAN1" "regptr (cfg Can2cfg s) = CAN2"
  shows "\<exists>s'. CAN_Handler (\<lambda>r. (canicr r, r)) s = Some s' \<and>
    (\<forall>d. (cfg d s', dregs d s') =
       (let i = canicr (dregs d s);
            (c, r) = (if icr_RI i \<noteq> 0 then snd (can_standard_receive (cfg d s) (dregs d s))
                      else (cfg d s, dregs d s))
        in if icr_TI1 i \<noteq> 0 then snd (can_standard_transmit c r) else (c, r))) \<and>
    wlog (bus s') = wlog (bus s) @ [(PROF_SET, PROF_PIN_4), (VICVectAddr, 0), (PROF_CLR, PROF_PIN_4)]"
proof -
  have "serve (\<lambda>r. (canicr r, r)) c r =
     (let i = canicr r; (c', r') = (if icr_RI i \<noteq> 0 then snd (can_standard_receive c r) else (c, r))
      in if icr_TI1 i \<noteq> 0 then snd (can_standard_transmit c' r') else (c', r'))" for c r
    by (simp add: serve_def Let_def case_prod_beta receive_frame)
  with CAN_Handler_runs [OF assms, of "\<lambda>r. (canicr r, r)"] show ?thesis
    by (auto simp: mmio_simps simp del: cfg.simps dregs.simps)
qed

text \<open>
  C38 If, as the source's own comment says, the interrupt bits are cleared on read, the second read
  of the capture register never sees the transmit interrupt: no device's transmit queue advances
  in the handler, whatever was pending at its entry.
\<close>
theorem CAN_Handler_tx_lost:
  assumes "can_inv s" "regptr (cfg Can1cfg s) = CAN1" "regptr (cfg Can2cfg s) = CAN2"
    and clear: "\<And>i. icr_TI1 (f i) = 0"
  shows "\<exists>s'. CAN_Handler (\<lambda>r. (canicr r, r\<lparr>canicr := f (canicr r)\<rparr>)) s = Some s' \<and>
    (\<forall>d. txq (cfg d s') = txq (cfg d s) \<and> cmr_TR (cancmr (dregs d s')) = cmr_TR (cancmr (dregs d s)))"
proof -
  let ?rd = "\<lambda>r. (canicr r, r\<lparr>canicr := f (canicr r)\<rparr>)"
  have 1: "txq (fst (serve ?rd c r)) = txq c" for c r
    by (simp add: serve_def Let_def case_prod_beta receive_frame clear)
  have 2: "cmr_TR (cancmr (snd (serve ?rd c r))) = cmr_TR (cancmr r)" for c r
    by (simp add: serve_def Let_def case_prod_beta receive_frame clear)
      (simp add: can_standard_receive_def Let_def)
  obtain s' where s': "CAN_Handler ?rd s = Some s'"
    "\<forall>d. (cfg d s', dregs d s') = serve ?rd (cfg d s) (dregs d s)"
    using CAN_Handler_runs [OF assms(1-3), of ?rd] by blast
  have "txq (cfg d s') = txq (cfg d s) \<and> cmr_TR (cancmr (dregs d s')) = cmr_TR (cancmr (dregs d s))" for d
    using s'(2) [rule_format, of d] 1 [of "cfg d s" "dregs d s"] 2 [of "cfg d s" "dregs d s"]
    by (cases "serve ?rd (cfg d s) (dregs d s)") (simp only: prod.inject fst_conv snd_conv)
  then show ?thesis using s'(1) by blast
qed

text \<open>Both devices opened, one after the other.\<close>

definition both_open :: can_state where
  "both_open = snd (can_open 0x4000 CAN2 can1_open)"

lemma both_open_eq:
  "both_open = (upd_dev Can2cfg (reset_rings (cfg0\<lparr>init := True, regptr := CAN2\<rparr>))
     (opened_regs (dregs Can2cfg can1_open)) can1_open)
     \<lparr>bus := snd (install_irq CAN_INT 0x4000 HIGHEST_PRIORITY (wr CAN_AFMR 2 (can_pins Can2cfg (bus can1_open))))\<rparr>"
  unfolding both_open_def base.simps(2) [symmetric] by (subst can_open_fresh) simp_all

lemma both_open_simps [simp]:
  "can_inv both_open" "regptr (can1cfg both_open) = CAN1" "regptr (can2cfg both_open) = CAN2"
  "txq (can1cfg both_open) = []"
proof -
  show "can_inv both_open" by (simp add: both_open_def can_open_inv)
  show "regptr (can1cfg both_open) = CAN1" "regptr (can2cfg both_open) = CAN2" "txq (can1cfg both_open) = []"
    unfolding cfg.simps [symmetric] both_open_eq by (simp_all del: cfg.simps) simp_all
qed

theorem CAN_Handler_serves_witness: "CAN_Handler (\<lambda>r. (canicr r, r)) both_open \<noteq> None"
  using CAN_Handler_serves [of both_open] by auto

theorem CAN_Handler_tx_lost_witness:
  "\<exists>s'. CAN_Handler (\<lambda>r. (canicr r, r\<lparr>canicr := (canicr r)\<lparr>icr_TI1 := 0, icr_RI := 0\<rparr>\<rparr>)) both_open = Some s' \<and>
     txq (cfg Can1cfg s') = []"
  using CAN_Handler_tx_lost [of both_open "\<lambda>i. i\<lparr>icr_TI1 := 0, icr_RI := 0\<rparr>"]
  by (auto dest!: spec [of _ Can1cfg])

end
