(* ===== verification/Can_System.thy ===== *)
theory Can_System
  imports Can_Control
begin

text \<open>
  The CAN demo as a system: the set-up and the main loop of \<^verbatim>\<open>main.c\<close> on top of the driver, and
  the interleaving of the application's calls, the interrupt handler and the controllers.

  The state of the system is the driver's state with four logs per device: the frames accepted
  from the application, submitted to the controller, received from the controller and delivered
  to the application. A driver call is one step, a run of the handler is one step, and between
  steps the controllers may change their registers in any way. So the handler runs between calls here;
  \<open>can_write\<close> has interrupts on when it starts the transmission, and what the handler does to a call it
  interrupts is in \<open>Can_Race\<close> and \<open>Can_Hw\<close>, statement by statement. The handles passed to the driver are
  those of the two device structures, as in \<^verbatim>\<open>main.c\<close>.
\<close>

section \<open>Frames\<close>

text \<open>What of a message the controller carries.\<close>

type_synonym can_frame = "4 word \<times> 1 word \<times> 1 word \<times> 29 word \<times> u8 list"

definition frame_of :: "CANMSG_T \<Rightarrow> can_frame" where
  "frame_of m = (DLC m, RTR m, FF m, ucast (MsgID m), Data m)"

definition tx_frame :: "CAN_REGS_T \<Rightarrow> can_frame" where
  "tx_frame r = (tfi_DLC (cantfi1 r), tfi_RTR (cantfi1 r), tfi_FF (cantfi1 r), tid_ID29_0 (cantid1 r),
     [tda_Data1 (cantda1 r), tda_Data2 (cantda1 r), tda_Data3 (cantda1 r), tda_Data4 (cantda1 r),
      tdb_Data5 (cantdb1 r), tdb_Data6 (cantdb1 r), tdb_Data7 (cantdb1 r), tdb_Data8 (cantdb1 r)])"

definition rx_frame :: "CAN_REGS_T \<Rightarrow> can_frame" where
  "rx_frame r = (rfs_DLC (canrfs r), rfs_RTR (canrfs r), rfs_FF (canrfs r), rid_ID29_0 (canrid r),
     [rda_Data1 (canrda r), rda_Data2 (canrda r), rda_Data3 (canrda r), rda_Data4 (canrda r),
      rdb_Data5 (canrdb r), rdb_Data6 (canrdb r), rdb_Data7 (canrdb r), rdb_Data8 (canrdb r)])"

lemma list8:
  assumes "length xs = 8"
  shows "xs = [xs ! 0, xs ! 1, xs ! 2, xs ! 3, xs ! 4, xs ! 5, xs ! 6, xs ! 7]"
  using assms by (intro nth_equalityI) (auto simp: less_Suc_eq nth_Cons' numeral_eq_Suc)

lemma list_update8:
  assumes "length xs = 8"
  shows "xs[0 := a, 1 := b, 2 := c, 3 := d, 4 := e, 5 := f, 6 := g, 7 := h] = [a, b, c, d, e, f, g, h]"
  by (subst list8 [OF assms]) simp

lemma tx_frame_started [simp]: "length (Data m) = 8 \<Longrightarrow> tx_frame (tx_started m r) = frame_of m"
  using list8 [of "Data m"] by (simp add: tx_frame_def tx_started_def tx_load_def frame_of_def)

lemma ucast_29 [simp]: "ucast (ucast (x :: 29 word) :: u32) = x"
  by (rule bit_word_eqI) (simp add: bit_simps)

lemma rx_store_frame [simp]:
  "length (Data m) = 8 \<Longrightarrow> frame_of (rx_store r m) = rx_frame r \<and> length (Data (rx_store r m)) = 8"
  by (simp add: rx_store_def frame_of_def rx_frame_def list_update8 [simplified One_nat_def])

text \<open>
  C6 What the transmit routine loads into the transmit buffer is what the receive routine decodes:
  if the receiving controller shows the frame of the sender's transmit buffer, the message stored
  equals the message sent in length code, remote flag, format, data and the 29 identifier bits.
\<close>
theorem can_frame_roundtrip:
  assumes "length (Data m) = 8" "length (Data old) = 8" "rx_frame r' = tx_frame (tx_load m r)"
  shows "let m' = rx_store r' old in
    DLC m' = DLC m \<and> RTR m' = RTR m \<and> FF m' = FF m \<and> Data m' = Data m \<and>
    MsgID m' = MsgID m AND 0x1FFFFFFF"
proof -
  have "tx_frame (tx_load m r) = frame_of m"
    using assms(1) list8 [of "Data m"] by (simp add: tx_frame_def tx_load_def frame_of_def)
  then have "frame_of (rx_store r' old) = frame_of m" using assms by simp
  moreover have "MsgID (rx_store r' old) = ucast (ucast (MsgID m) :: 29 word)"
    using calculation by (simp add: frame_of_def rx_store_def)
  moreover have "ucast (ucast x :: 29 word) = x AND 0x1FFFFFFF" for x :: u32
  proof -
    have m: "(0x1FFFFFFF :: u32) = mask 29" by (simp add: mask_eq_exp_minus_1)
    show ?thesis unfolding m by (rule bit_word_eqI) (auto simp: bit_simps)
  qed
  ultimately show ?thesis by (simp add: frame_of_def Let_def)
qed

theorem can_frame_roundtrip_witness:
  "let m' = rx_store (regs0\<lparr>canrid := \<lparr>rid_ID29_0 = 5, rid_top = 0\<rparr>\<rparr>) msg0 in MsgID m' = 5"
proof -
  have "rx_frame (regs0\<lparr>canrid := \<lparr>rid_ID29_0 = 5, rid_top = 0\<rparr>\<rparr>) = tx_frame (tx_load (msg0\<lparr>MsgID := 5\<rparr>) regs0)"
    by (simp add: rx_frame_def tx_frame_def tx_load_def regs0_def msg0_def)
  from can_frame_roundtrip [OF _ _ this, of msg0] show ?thesis by (simp add: msg0_def Let_def)
qed

section \<open>The application\<close>

text \<open>
  The CAN part of \<open>main\<close> before its loop: each controller is opened and set to 125 kbit/s.
  \<open>bs\<close> are the bus status values a poll would read; the commands used here do not poll.
\<close>

abbreviation (input) "PROF_DIR \<equiv> (0x3FFFC060 :: u32)"
abbreviation (input) "PROF_PIN_MASK \<equiv> (0x003F0000 :: u32)"

definition main_open :: "(nat \<Rightarrow> 1 word) \<Rightarrow> u32 \<Rightarrow> can_state \<Rightarrow> (can_dev option \<times> can_dev option \<times> can_state) option" where
  "main_open bs hnd s = do {
     let (candev1, s) = can_open hnd CAN1 s;
     (_, s) \<leftarrow> (case candev1 of None \<Rightarrow> None | Some d \<Rightarrow> can_ioctl bs d 0 2 s);
     let (candev2, s) = can_open hnd CAN2 s;
     (_, s) \<leftarrow> (case candev2 of None \<Rightarrow> None | Some d \<Rightarrow> can_ioctl bs d 0 2 s);
     Some (candev1, candev2, s)
   }"

abbreviation (input) "PROF_PIN_1 \<equiv> (0x20000 :: u32)"
abbreviation (input) "PROF_PIN_2 \<equiv> (0x10000 :: u32)"
abbreviation (input) "PROF_PIN_3 \<equiv> (0x80000 :: u32)"
abbreviation (input) "PROF_PIN_5 \<equiv> (0x200000 :: u32)"
abbreviation (input) "PROF_PIN_6 \<equiv> (0x100000 :: u32)"

definition prof :: "u32 \<Rightarrow> u32 \<Rightarrow> can_state \<Rightarrow> can_state" where
  "prof reg pin s = s\<lparr>bus := wr reg pin (bus s)\<rparr>"

text \<open>Read all messages of a device, one at a time, into \<open>RxMsg\<close>.\<close>

partial_function (option) main_drain :: "can_dev \<Rightarrow> CANMSG_T \<Rightarrow> can_state \<Rightarrow> (CANMSG_T \<times> can_state) option" where
  "main_drain d RxMsg s =
     Option.bind (can_read d 1 s) (\<lambda>(ms, s).
       case ms of
         [] \<Rightarrow> Some (RxMsg, s)
       | m # _ \<Rightarrow> main_drain d m (prof PROF_SET PROF_PIN_3 (prof PROF_CLR PROF_PIN_2 s)))"

text \<open>One round of the main loop; the delay between sending and reading only counts.\<close>

definition main_iter :: "can_dev \<Rightarrow> can_dev \<Rightarrow> CANMSG_T \<Rightarrow> CANMSG_T \<Rightarrow> can_state \<Rightarrow>
    (CANMSG_T \<times> CANMSG_T \<times> can_state) option" where
  "main_iter candev1 candev2 TxMsg RxMsg s = do {
     let s = prof PROF_SET PROF_PIN_5 s;
     let TxMsg = TxMsg\<lparr>MsgID := MsgID TxMsg + 1\<rparr>;
     let TxMsg = TxMsg\<lparr>DLC := 7\<rparr>;
     (_, s) \<leftarrow> can_write candev1 (\<lambda>_. TxMsg) 1 s;
     let s = prof PROF_CLR PROF_PIN_5 s;
     let s = prof PROF_CLR PROF_PIN_1 s;
     let s = prof PROF_SET PROF_PIN_6 s;
     let s = prof PROF_CLR PROF_PIN_6 s;
     let s = prof PROF_SET PROF_PIN_1 s;
     let s = prof PROF_SET PROF_PIN_2 s;
     (RxMsg, s) \<leftarrow> main_drain candev2 RxMsg s;
     Some (TxMsg, RxMsg, prof PROF_CLR PROF_PIN_3 s)
   }"

lemma prof_simps [simp]:
  "cfg d (prof a v s) = cfg d s" "dregs d (prof a v s) = dregs d s" "can_inv (prof a v s) = can_inv s"
  by (simp_all add: prof_def)

lemma can_read_ex:
  assumes "can_inv s" "init (cfg d s)"
  obtains s' where "can_read d n s = Some (take (nat n) (rxq (cfg d s)), s')" "can_inv s'"
    "rxq (cfg d s') = drop (nat n) (rxq (cfg d s))" "txq (cfg d s') = txq (cfg d s)" "init (cfg d s')"
    "\<forall>e. dregs e s' = dregs e s" "\<forall>e. e \<noteq> d \<longrightarrow> cfg e s' = cfg e s"
proof -
  obtain ms c' where l: "can_read_loop n (cfg d s) = (ms, c')" by fastforce
  have r: "can_read d n s = Some (ms, upd_dev d c' (dregs d s) s)"
    using assms(2) can_invD(2) [OF assms] l by (simp add: can_read_def with_regs_base can_read_dev_eq)
  note ok = can_read_loop_ok [OF can_invD(1) [OF assms(1)] l]
  show ?thesis
    by (rule that [of "upd_dev d c' (dregs d s) s"])
      (use r ok assms can_invD(2) [OF assms] in \<open>auto intro: can_inv_upd_dev\<close>)
qed

lemma main_drain_returns:
  assumes "can_inv s" "init (cfg d s)"
  shows "\<exists>s'. main_drain d m s = Some (last (m # rxq (cfg d s)), s') \<and> can_inv s' \<and>
    rxq (cfg d s') = [] \<and> txq (cfg d s') = txq (cfg d s) \<and> (\<forall>e. e \<noteq> d \<longrightarrow> cfg e s' = cfg e s) \<and>
    (\<forall>e. dregs e s' = dregs e s) \<and> init (cfg d s')"
  using assms
proof (induction "rxq (cfg d s)" arbitrary: m s)
  case Nil
  obtain s' where s': "can_read d 1 s = Some (take (nat 1) (rxq (cfg d s)), s')" "can_inv s'"
    "rxq (cfg d s') = drop (nat 1) (rxq (cfg d s))" "txq (cfg d s') = txq (cfg d s)" "init (cfg d s')"
    "\<forall>e. dregs e s' = dregs e s" "\<forall>e. e \<noteq> d \<longrightarrow> cfg e s' = cfg e s"
    using Nil.prems by (rule can_read_ex [where n = 1])
  show ?case
    by (subst main_drain.simps) (simp add: s' Nil.hyps [symmetric])
next
  case (Cons x q)
  obtain s' where s': "can_read d 1 s = Some (take (nat 1) (rxq (cfg d s)), s')" "can_inv s'"
    "rxq (cfg d s') = drop (nat 1) (rxq (cfg d s))" "txq (cfg d s') = txq (cfg d s)" "init (cfg d s')"
    "\<forall>e. dregs e s' = dregs e s" "\<forall>e. e \<noteq> d \<longrightarrow> cfg e s' = cfg e s"
    using Cons.prems by (rule can_read_ex [where n = 1])
  let ?s = "prof PROF_SET PROF_PIN_3 (prof PROF_CLR PROF_PIN_2 s')"
  note xq = Cons.hyps(2) [symmetric]
  have q: "rxq (cfg d ?s) = q" using s'(3) by (simp add: xq)
  have eq: "main_drain d m s = main_drain d x ?s"
    by (subst main_drain.simps) (simp add: s'(1) xq)
  have "can_inv ?s" "init (cfg d ?s)" using s'(2,5) by simp_all
  from Cons.hyps(1) [OF q [symmetric] this, of x] obtain s2 where
    "main_drain d x ?s = Some (last (x # q), s2)" "can_inv s2" "rxq (cfg d s2) = []"
    "txq (cfg d s2) = txq (cfg d ?s)" "\<forall>e. e \<noteq> d \<longrightarrow> cfg e s2 = cfg e ?s"
    "\<forall>e. dregs e s2 = dregs e ?s" "init (cfg d s2)"
    unfolding q by blast
  then show ?case using s'(4,6,7) by (intro exI [of _ s2]) (simp add: eq xq)
qed

lemma main_iter_ex:
  assumes "can_inv s" "init (cfg Can1cfg s)" "init (cfg Can2cfg s)"
  shows "let tm = TxMsg\<lparr>MsgID := MsgID TxMsg + 1, DLC := 7\<rparr>; q = txq (cfg Can1cfg s);
             q' = (if length q < 255 then q @ [tm] else q) in
    \<exists>s'. main_iter Can1cfg Can2cfg TxMsg RxMsg s = Some (tm, last (RxMsg # rxq (cfg Can2cfg s)), s') \<and>
      can_inv s' \<and> init (cfg Can1cfg s') \<and> init (cfg Can2cfg s') \<and> rxq (cfg Can2cfg s') = [] \<and> rxq (cfg Can1cfg s') = rxq (cfg Can1cfg s) \<and>
      txq (cfg Can1cfg s') = (if sr_TBS1 (cansr (dregs Can1cfg s)) \<noteq> 0 then tl q' else q') \<and>
      dregs Can1cfg s' = (if sr_TBS1 (cansr (dregs Can1cfg s)) \<noteq> 0 then tx_started (hd q') (dregs Can1cfg s)
        else dregs Can1cfg s) \<and> dregs Can2cfg s' = dregs Can2cfg s"
proof -
  let ?s = "prof PROF_SET PROF_PIN_5 s"
  let ?m = "TxMsg\<lparr>MsgID := MsgID TxMsg + 1, DLC := 7\<rparr>"
  let ?k = "min (max 1 0) (255 - int (length (txq (cfg Can1cfg ?s))))"
  have i: "can_inv ?s" "init (cfg Can1cfg ?s)" using assms by simp_all
  obtain s1 c1 where w: "can_write Can1cfg (\<lambda>_. ?m) 1 ?s = Some (?k, s1)" "cfg_ok c1"
    "rxq c1 = rxq (cfg Can1cfg ?s)" "txq c1 = txq (cfg Can1cfg ?s) @ map (\<lambda>_. ?m) [0 ..< nat ?k]"
    "s1 = upd_dev Can1cfg (fst (snd (can_standard_transmit c1 (dregs Can1cfg ?s))))
            (snd (snd (can_standard_transmit c1 (dregs Can1cfg ?s)))) ?s" "init c1 = init (cfg Can1cfg ?s)"
    using i by (rule can_write_ex)
  have inv1: "can_inv s1"
    using w(1) i with_regs_inv [OF i(1) write_keeps] unfolding can_write_def by simp
  obtain u c2 r2 where t: "can_standard_transmit c1 (dregs Can1cfg ?s) = (u, c2, r2)" by (metis prod_cases3)
  note tr = can_standard_transmit_spec [OF w(2) t]
  let ?s2 = "prof PROF_SET PROF_PIN_2 (prof PROF_SET PROF_PIN_1 (prof PROF_CLR PROF_PIN_6
    (prof PROF_SET PROF_PIN_6 (prof PROF_CLR PROF_PIN_1 (prof PROF_CLR PROF_PIN_5 s1)))))"
  have "can_inv ?s2" "init (cfg Can2cfg ?s2)" using inv1 assms(3) w(5) by simp_all
  from main_drain_returns [OF this, of RxMsg] obtain s3 where d:
    "main_drain Can2cfg RxMsg ?s2 = Some (last (RxMsg # rxq (cfg Can2cfg ?s2)), s3)" "can_inv s3"
    "rxq (cfg Can2cfg s3) = []" "cfg Can1cfg s3 = cfg Can1cfg ?s2" "init (cfg Can2cfg s3)"
    "\<forall>e. dregs e s3 = dregs e ?s2" by blast
  have c: "cfg Can1cfg s3 = c2" "cfg Can2cfg s1 = cfg Can2cfg s"
    unfolding d(4) w(5) by (simp_all add: t [simplified prof_simps] del: cfg.simps dregs.simps)
  have rg: "dregs Can1cfg s3 = r2" "dregs Can2cfg s3 = dregs Can2cfg s"
    unfolding d(6) [rule_format] w(5) by (simp_all add: t [simplified prof_simps] del: cfg.simps dregs.simps)
  have "length (txq (cfg Can1cfg s)) \<le> 255" using len_txq can_invD(1) [OF assms(1)] by blast
  then have q: "txq c1 = (if length (txq (cfg Can1cfg s)) < 255 then txq (cfg Can1cfg s) @ [?m]
      else txq (cfg Can1cfg s))" "txq c1 \<noteq> []" using w(4) by (auto simp del: cfg.simps)
  have "main_iter Can1cfg Can2cfg TxMsg RxMsg s =
      Some (?m, last (RxMsg # rxq (cfg Can2cfg s)), prof PROF_CLR PROF_PIN_3 s3)"
    unfolding main_iter_def Let_def by (simp add: w(1) d(1) c(2) del: cfg.simps)
  moreover have "init c2"
    using keeps_cfgD [OF transmit_keeps w(2) t] w(6) assms(2) by (simp del: cfg.simps)
  ultimately show ?thesis
    using d(2,3,5) c rg tr q w(3) by (auto simp: Let_def split: list.splits if_splits simp del: cfg.simps dregs.simps)
qed


text \<open>What opening a closed device and setting it to 125 kbit/s leaves in its structure and registers.\<close>

definition opened_cfg :: "can_dev \<Rightarrow> CAN_CFG_T \<Rightarrow> CAN_CFG_T" where
  "opened_cfg d c = reset_rings (c\<lparr>init := True, regptr := base d\<rparr>)"

definition baud_regs :: "CAN_REGS_T \<Rightarrow> CAN_REGS_T" where
  "baud_regs r = snd (snd (ioctl_set_baud 2 undefined r))"

lemma set_baud_2: "ioctl_set_baud 2 c r = (NO_ERROR, reset_rings c, baud_regs r)"
  by (simp add: baud_regs_def ioctl_set_baud_def enum_defs Let_def)

lemma reset_rings_idem [simp]: "reset_rings (reset_rings c) = reset_rings c"
  by (simp add: reset_rings_def)

lemma open_and_set:
  assumes "\<not> init (cfg d s)"
  obtains s' where "can_open hnd (base d) s = (Some d, s')"
    "can_ioctl bs d 0 2 s' = Some (NO_ERROR, upd_dev d (opened_cfg d (cfg d s)) (baud_regs (opened_regs (dregs d s))) s')"
    "\<forall>e. e \<noteq> d \<longrightarrow> cfg e s' = cfg e s \<and> dregs e s' = dregs e s"
proof -
  let ?s = "snd (can_open hnd (base d) s)"
  have c: "cfg d ?s = opened_cfg d (cfg d s)" "dregs d ?s = opened_regs (dregs d s)"
    "can_open hnd (base d) s = (Some d, ?s)"
    "\<forall>e. e \<noteq> d \<longrightarrow> cfg e ?s = cfg e s \<and> dregs e ?s = dregs e s"
    by (simp_all add: can_open_fresh [OF assms] opened_cfg_def)
  have "regptr (cfg d ?s) = base d" "init (cfg d ?s)" unfolding c(1) by (simp_all add: opened_cfg_def)
  then have "can_ioctl bs d 0 2 ?s =
      Some (NO_ERROR, upd_dev d (opened_cfg d (cfg d s)) (baud_regs (opened_regs (dregs d s))) ?s)"
    by (simp add: can_ioctl_def enum_defs with_regs_base set_baud_2 c(1,2))
      (simp add: opened_cfg_def)
  with c show ?thesis by (intro that) auto
qed

lemma main_open_ex:
  assumes "\<not> init (cfg Can1cfg s)" "\<not> init (cfg Can2cfg s)"
  obtains s' where "main_open bs hnd s = Some (Some Can1cfg, Some Can2cfg, s')"
    "\<forall>d. cfg d s' = opened_cfg d (cfg d s) \<and> dregs d s' = baud_regs (opened_regs (dregs d s))"
proof -
  obtain s1 where 1: "can_open hnd (base Can1cfg) s = (Some Can1cfg, s1)"
    "can_ioctl bs Can1cfg 0 2 s1 = Some (NO_ERROR, upd_dev Can1cfg (opened_cfg Can1cfg (cfg Can1cfg s))
       (baud_regs (opened_regs (dregs Can1cfg s))) s1)"
    "\<forall>e. e \<noteq> Can1cfg \<longrightarrow> cfg e s1 = cfg e s \<and> dregs e s1 = dregs e s"
    using assms(1) by (rule open_and_set)
  let ?s1 = "upd_dev Can1cfg (opened_cfg Can1cfg (cfg Can1cfg s)) (baud_regs (opened_regs (dregs Can1cfg s))) s1"
  have n: "\<not> init (cfg Can2cfg ?s1)" using 1(3) assms(2) by (simp del: cfg.simps)
  obtain s2 where 2: "can_open hnd (base Can2cfg) ?s1 = (Some Can2cfg, s2)"
    "can_ioctl bs Can2cfg 0 2 s2 = Some (NO_ERROR, upd_dev Can2cfg (opened_cfg Can2cfg (cfg Can2cfg ?s1))
       (baud_regs (opened_regs (dregs Can2cfg ?s1))) s2)"
    "\<forall>e. e \<noteq> Can2cfg \<longrightarrow> cfg e s2 = cfg e ?s1 \<and> dregs e s2 = dregs e ?s1"
    using n by (rule open_and_set)
  let ?s2 = "upd_dev Can2cfg (opened_cfg Can2cfg (cfg Can2cfg ?s1)) (baud_regs (opened_regs (dregs Can2cfg ?s1))) s2"
  have "main_open bs hnd s = Some (Some Can1cfg, Some Can2cfg, ?s2)"
    using 1(1,2) 2(1,2) unfolding base.simps by (simp add: main_open_def del: cfg.simps dregs.simps)
  moreover have "cfg d ?s2 = opened_cfg d (cfg d s) \<and> dregs d ?s2 = baud_regs (opened_regs (dregs d s))" for d
    using 1(3) 2(3) by (cases d) (simp_all del: cfg.simps dregs.simps)
  ultimately show ?thesis using that by blast
qed

lemma opened_cfg_simps [simp]:
  "cfg_ok c \<Longrightarrow> cfg_ok (opened_cfg d c)" "init (opened_cfg d c)" "regptr (opened_cfg d c) = base d"
  "txq (opened_cfg d c) = []" "rxq (opened_cfg d c) = []"
  by (simp_all add: opened_cfg_def)

text \<open>
  The set-up of main opens both controllers before it enables interrupts: from the zeroed static
  data it returns both handles, with both devices open at 125 kbit/s, out of reset, with empty
  queues, in the invariant, and with both register pointers set, so the interrupt handler that may
  run from then on follows no null pointer.
\<close>
theorem main_open_ready:
  "\<exists>s'. main_open bs hnd can0 = Some (Some Can1cfg, Some Can2cfg, s') \<and> can_inv s' \<and>
     (\<forall>d. init (cfg d s') \<and> txq (cfg d s') = [] \<and> rxq (cfg d s') = [] \<and>
        ioctl_get_baud (dregs d s') = 2 \<and> mod_RM (canmod (dregs d s')) = 0) \<and>
     CAN_Handler rd_icr s' \<noteq> None"
proof -
  obtain s' where s': "main_open bs hnd can0 = Some (Some Can1cfg, Some Can2cfg, s')"
    "\<forall>d. cfg d s' = opened_cfg d (cfg d can0) \<and> dregs d s' = baud_regs (opened_regs (dregs d can0))"
    by (rule main_open_ex [of can0]) simp_all
  have inv: "can_inv s'" unfolding can_inv_def s'(2) [rule_format, THEN conjunct1] by simp
  have h: "CAN_Handler rd_icr s' \<noteq> None"
    using CAN_Handler_runs [OF inv, of rd_icr] s'(2) by (auto simp del: cfg.simps dregs.simps)
  have "ioctl_get_baud (baud_regs r) = 2 \<and> mod_RM (canmod (baud_regs r)) = 0" for r
    by (simp add: baud_regs_def ioctl_set_baud_def enum_defs Let_def ioctl_get_baud_def set_RM_def
        set_irq_enable_def clear_gsr_def set_BRP_def)
  with s' inv h show ?thesis by (intro exI [of _ s']) simp
qed

text \<open>The first round after the set-up, with the transmit buffer of CAN1 free.\<close>

definition can_free0 :: can_state where
  "can_free0 = upd_dev Can1cfg cfg0 (regs0\<lparr>cansr := (cansr regs0)\<lparr>sr_TBS1 := 1\<rparr>\<rparr>) can0"


section \<open>Interleaved execution\<close>

record can_sys =
  drv :: can_state
  accepted :: "can_dev \<Rightarrow> can_frame list"
  submitted :: "can_dev \<Rightarrow> can_frame list"
  received :: "can_dev \<Rightarrow> can_frame list"
  delivered :: "can_dev \<Rightarrow> can_frame list"
  overflow :: "can_dev \<Rightarrow> bool"

text \<open>
  The transmit routine loads the transmit buffer exactly in this case; what it submits is then
  read from the controller's registers.
\<close>

definition submits :: "CAN_CFG_T \<Rightarrow> CAN_REGS_T \<Rightarrow> bool" where
  "submits c r \<longleftrightarrow> tx_head (rb c) \<noteq> tx_tail (rb c) \<and> sr_TBS1 (cansr r) \<noteq> 0"

definition tx_log :: "CAN_CFG_T \<Rightarrow> CAN_REGS_T \<Rightarrow> CAN_REGS_T \<Rightarrow> can_frame list" where
  "tx_log c r r' = (if submits c r then [tx_frame r'] else [])"

text \<open>The frames one run of the handler receives from, and submits to, a controller.\<close>

definition irq_rx :: "icr_read \<Rightarrow> CAN_REGS_T \<Rightarrow> can_frame list" where
  "irq_rx rd_icr r = (let (icr, r) = rd_icr r in if icr_RI icr \<noteq> 0 then [rx_frame r] else [])"

definition irq_tx :: "icr_read \<Rightarrow> CAN_CFG_T \<Rightarrow> CAN_REGS_T \<Rightarrow> CAN_REGS_T \<Rightarrow> can_frame list" where
  "irq_tx rd_icr c r r' =
     (let (icr, r) = rd_icr r;
          (c, r) = (if icr_RI icr \<noteq> 0 then snd (can_standard_receive c r) else (c, r));
          (icr, r) = rd_icr r
      in if icr_TI1 icr \<noteq> 0 then tx_log c r r' else [])"

inductive can_step :: "can_sys \<Rightarrow> can_sys \<Rightarrow> bool" where
  step_write: "can_step s (s\<lparr>drv := t,
      accepted := (accepted s)(d := accepted s d @ map (frame_of \<circ> buf) [0 ..< nat k]),
      submitted := (submitted s)(d := submitted s d @
        tx_log (snd (can_write_loop n buf 0 (cfg d (drv s)))) (dregs d (drv s)) (dregs d t))\<rparr>)"
  if "can_write d buf n (drv s) = Some (k, t)" "\<forall>i. length (Data (buf i)) = 8"
| step_read: "can_step s (s\<lparr>drv := t, delivered := (delivered s)(d := delivered s d @ map frame_of ms)\<rparr>)"
  if "can_read d n (drv s) = Some (ms, t)"
| step_irq: "can_step s (s\<lparr>drv := t,
      received := (\<lambda>d. received s d @ irq_rx rd_icr (dregs d (drv s))),
      submitted := (\<lambda>d. submitted s d @ irq_tx rd_icr (cfg d (drv s)) (dregs d (drv s)) (dregs d t)),
      overflow := (\<lambda>d. overflow s d \<or>
        irq_rx rd_icr (dregs d (drv s)) \<noteq> [] \<and> length (rxq (cfg d (drv s))) = 255)\<rparr>)"
  if "CAN_Handler rd_icr (drv s) = Some t"
| step_bus: "can_step s (s\<lparr>drv := (drv s)\<lparr>can1regs := r1, can2regs := r2\<rparr>\<rparr>)"

inductive_cases can_stepE: "can_step s s'"

inductive can_reachable :: "can_sys \<Rightarrow> bool" where
  start: "can_reachable \<lparr>drv = s, accepted = (\<lambda>_. []), submitted = (\<lambda>_. []), received = (\<lambda>_. []),
      delivered = (\<lambda>_. []), overflow = (\<lambda>_. False)\<rparr>"
  if "main_open bs hnd can0 = Some (h1, h2, s)"
| step: "can_reachable s'" if "can_reachable s" "can_step s s'"

subsection \<open>Invariant\<close>

text \<open>Every slot of a ring is a message of eight data bytes.\<close>

definition data_ok :: "CAN_CFG_T \<Rightarrow> bool" where
  "data_ok c \<longleftrightarrow> (\<forall>m \<in> set (tx (rb c)) \<union> set (rx (rb c)). length (Data m) = 8)"

definition dev_inv :: "can_sys \<Rightarrow> can_dev \<Rightarrow> bool" where
  "dev_inv s d \<longleftrightarrow> init (cfg d (drv s)) \<and> data_ok (cfg d (drv s)) \<and>
     accepted s d = submitted s d @ map frame_of (txq (cfg d (drv s))) \<and>
     (\<not> overflow s d \<longrightarrow> received s d = delivered s d @ map frame_of (rxq (cfg d (drv s))))"

definition sys_inv :: "can_sys \<Rightarrow> bool" where
  "sys_inv s \<longleftrightarrow> can_inv (drv s) \<and> (\<forall>d. dev_inv s d)"

lemma data_ok_put:
  assumes "data_ok c" "length (Data m) = 8"
  shows "data_ok (c\<lparr>rb := rx_put m (rb c)\<rparr>)" "data_ok (c\<lparr>rb := tx_put m (rb c)\<rparr>)"
  using assms set_update_subset_insert [of "rx (rb c)" "nat (rx_head (rb c))" m]
    set_update_subset_insert [of "tx (rb c)" "nat (tx_head (rb c))" m]
  by (auto simp: data_ok_def ring_op_eqs)

lemma data_ok_pop: "data_ok (c\<lparr>rb := rx_pop (rb c)\<rparr>) = data_ok c" "data_ok (c\<lparr>rb := tx_pop (rb c)\<rparr>) = data_ok c"
  by (simp_all add: data_ok_def ring_op_eqs)

lemma data_ok_nth:
  assumes "data_ok c" "cfg_ok c"
  shows "length (Data (rx (rb c) ! nat (rx_head (rb c)))) = 8"
    and "length (Data (tx (rb c) ! nat (tx_tail (rb c)))) = 8"
  using assms by (auto simp: data_ok_def cfg_ok_def ring_ok_def nat_less_iff)

lemma read_loop_data: "data_ok c \<Longrightarrow> data_ok (snd (can_read_loop n c))"
proof (induction n c rule: can_read_loop.induct)
  case (1 n c)
  show ?case
  proof (cases "n > 0 \<and> rx_tail (rb c) \<noteq> rx_head (rb c)")
    case True
    then show ?thesis
      using "1.IH" [OF True] "1.prems"
      by (subst can_read_loop.simps) (simp add: case_prod_beta Let_def data_ok_pop)
  qed (subst can_read_loop.simps, use "1.prems" in auto)
qed

lemma write_loop_data:
  "data_ok c \<Longrightarrow> \<forall>i. length (Data (buf i)) = 8 \<Longrightarrow> data_ok (snd (can_write_loop n buf k c))"
proof (induction n buf k c rule: can_write_loop.induct)
  case (1 n buf k c)
  show ?case
  proof (cases "n > 0 \<and> can_get_free_tx_count c > 0")
    case True
    then show ?thesis
      using "1.IH" [OF True] "1.prems"
      by (subst can_write_loop.simps) (simp add: case_prod_beta Let_def data_ok_put)
  qed (subst can_write_loop.simps, use "1.prems" in auto)
qed

text \<open>The transmit routine moves the oldest queued frame to the submitted ones.\<close>

lemma transmit_log:
  assumes "cfg_ok c" "data_ok c" "can_standard_transmit c r = (u, c', r')"
  shows "data_ok c' \<and> map frame_of (txq c) = tx_log c r r' @ map frame_of (txq c')"
proof -
  have d: "data_ok c'" using assms(2,3)
    by (auto simp: can_standard_transmit_def Let_def data_ok_pop split: if_splits)
  note sp = can_standard_transmit_spec [OF assms(1,3)]
  show ?thesis
  proof (cases "txq c")
    case Nil
    then have "\<not> submits c r" using txq_empty [OF assms(1)] by (auto simp: submits_def)
    with Nil sp d show ?thesis by (simp add: tx_log_def)
  next
    case (Cons m q)
    then have ne: "tx_head (rb c) \<noteq> tx_tail (rb c)" using txq_empty [OF assms(1)] by auto
    have "m = tx (rb c) ! nat (tx_tail (rb c))" using txq_pop [OF assms(1)] Cons by simp
    then have m: "length (Data m) = 8" using data_ok_nth [OF assms(2,1)] by simp
    show ?thesis
      using sp d Cons ne m by (cases "sr_TBS1 (cansr r) = 0") (simp_all add: tx_log_def submits_def)
  qed
qed

lemma receive_log:
  assumes "cfg_ok c" "data_ok c" "can_standard_receive c r = (u, c', r')"
  shows "cfg_ok c' \<and> data_ok c' \<and> txq c' = txq c \<and>
    (length (rxq c) < 255 \<longrightarrow> map frame_of (rxq c') = map frame_of (rxq c) @ [rx_frame r])"
proof -
  let ?m = "rx_store r (rx (rb c) ! nat (rx_head (rb c)))"
  have m: "frame_of ?m = rx_frame r" "length (Data ?m) = 8"
    using data_ok_nth(1) [OF assms(2,1)] by simp_all
  have c': "c' = c\<lparr>rb := rx_put ?m (rb c)\<rparr>" using assms(3) by (simp add: can_standard_receive_def Let_def)
  have "data_ok c'" unfolding c' using assms(2) m(2) by (rule data_ok_put)
  with c' assms(1) m show ?thesis by (simp add: rxq_put)
qed

lemma serve_log:
  assumes "cfg_ok c" "data_ok c" "serve rd_icr c r = (c', r')"
  shows "data_ok c' \<and> map frame_of (txq c) = irq_tx rd_icr c r r' @ map frame_of (txq c') \<and>
    (irq_rx rd_icr r = [] \<or> length (rxq c) < 255 \<longrightarrow>
       map frame_of (rxq c') = map frame_of (rxq c) @ irq_rx rd_icr r)"
proof -
  obtain i1 r1 where 1: "rd_icr r = (i1, r1)" by fastforce
  obtain c2 r2 where 2: "(if icr_RI i1 \<noteq> 0 then snd (can_standard_receive c r1) else (c, r1)) = (c2, r2)"
    by fastforce
  obtain i3 r3 where 3: "rd_icr r2 = (i3, r3)" by fastforce
  have rx: "cfg_ok c2 \<and> data_ok c2 \<and> txq c2 = txq c \<and>
      (irq_rx rd_icr r = [] \<or> length (rxq c) < 255 \<longrightarrow>
         map frame_of (rxq c2) = map frame_of (rxq c) @ irq_rx rd_icr r)"
  proof (cases "icr_RI i1 = 0")
    case True
    with 2 assms show ?thesis by (simp add: irq_rx_def 1)
  next
    case False
    then have "can_standard_receive c r1 = ((), c2, r2)" using 2 by (simp add: prod_eq_iff)
    from receive_log [OF assms(1,2) this] False show ?thesis by (simp add: irq_rx_def 1)
  qed
  show ?thesis
  proof (cases "icr_TI1 i3 = 0")
    case True
    with assms(3) rx show ?thesis by (simp add: serve_def irq_tx_def 1 2 3 Let_def)
  next
    case False
    then have t: "can_standard_transmit c2 r3 = ((), c', r')"
      using assms(3) by (simp add: serve_def 1 2 3 prod_eq_iff)
    have "irq_tx rd_icr c r r' = tx_log c2 r3 r'" using False by (simp add: irq_tx_def 1 2 3)
    with transmit_log [OF _ _ t] can_standard_transmit_spec [OF _ t] rx show ?thesis by simp
  qed
qed

lemma step_write_inv:
  assumes "sys_inv s" "can_write d buf n (drv s) = Some (k, t)" "\<forall>i. length (Data (buf i)) = 8"
  shows "sys_inv (s\<lparr>drv := t,
      accepted := (accepted s)(d := accepted s d @ map (frame_of \<circ> buf) [0 ..< nat k]),
      submitted := (submitted s)(d := submitted s d @
        tx_log (snd (can_write_loop n buf 0 (cfg d (drv s)))) (dregs d (drv s)) (dregs d t))\<rparr>)"
proof -
  have inv: "can_inv (drv s)" and dev: "dev_inv s e" for e using assms(1) by (simp_all add: sys_inv_def)
  have i: "init (cfg d (drv s))" and da: "data_ok (cfg d (drv s))" using dev [of d] by (simp_all add: dev_inv_def)
  note ok = can_invD(1) [OF inv, of d] and base = can_invD(2) [OF inv i]
  obtain b c1 where l: "can_write_loop n buf 0 (cfg d (drv s)) = (b, c1)" by fastforce
  obtain u c2 r2 where tr: "can_standard_transmit c1 (dregs d (drv s)) = (u, c2, r2)" by (metis prod_cases3)
  note lo = can_write_loop_ok [OF ok l]
  have d1: "data_ok c1" using write_loop_data [OF da assms(3), of n 0] l by simp
  have t: "k = b" "t = upd_dev d c2 r2 (drv s)"
    using assms(2) i base l tr by (auto simp: can_write_def with_regs_base can_write_dev_eq)
  note tl = transmit_log [OF _ d1 tr] and tk = keeps_cfgD [OF transmit_keeps _ tr]
    and sp = can_standard_transmit_spec [OF _ tr]
  have "can_inv t" unfolding t(2) using inv lo tk base by (intro can_inv_upd_dev) auto
  moreover have "rxq c2 = rxq (cfg d (drv s))" "init c2" using lo sp tk i by simp_all
  ultimately show ?thesis
    using dev dev [of d] lo tl t
    by (auto simp: sys_inv_def dev_inv_def l map_append [symmetric] simp del: map_append)
      (simp_all flip: append_assoc)
qed

lemma step_read_inv:
  assumes "sys_inv s" "can_read d n (drv s) = Some (ms, t)"
  shows "sys_inv (s\<lparr>drv := t, delivered := (delivered s)(d := delivered s d @ map frame_of ms)\<rparr>)"
proof -
  have inv: "can_inv (drv s)" and dev: "dev_inv s e" for e using assms(1) by (simp_all add: sys_inv_def)
  have i: "init (cfg d (drv s))" and da: "data_ok (cfg d (drv s))" using dev [of d] by (simp_all add: dev_inv_def)
  note ok = can_invD(1) [OF inv, of d] and base = can_invD(2) [OF inv i]
  obtain xs c1 where l: "can_read_loop n (cfg d (drv s)) = (xs, c1)" by fastforce
  note lo = can_read_loop_ok [OF ok l]
  have d1: "data_ok c1" using read_loop_data [OF da, of n] l by simp
  have t: "ms = xs" "t = upd_dev d c1 (dregs d (drv s)) (drv s)"
    using assms(2) i base l by (auto simp: can_read_def with_regs_base can_read_dev_eq)
  have "can_inv t" unfolding t(2) using inv lo base by (intro can_inv_upd_dev) auto
  moreover have "map frame_of (rxq (cfg d (drv s))) = map frame_of xs @ map frame_of (rxq c1)"
    using lo by (simp flip: map_append)
  ultimately show ?thesis
    using dev dev [of d] lo d1 t i by (auto simp: sys_inv_def dev_inv_def)
qed

lemma step_irq_inv:
  assumes "sys_inv s" "CAN_Handler rd_icr (drv s) = Some t"
  shows "sys_inv (s\<lparr>drv := t,
      received := (\<lambda>d. received s d @ irq_rx rd_icr (dregs d (drv s))),
      submitted := (\<lambda>d. submitted s d @ irq_tx rd_icr (cfg d (drv s)) (dregs d (drv s)) (dregs d t)),
      overflow := (\<lambda>d. overflow s d \<or>
        irq_rx rd_icr (dregs d (drv s)) \<noteq> [] \<and> length (rxq (cfg d (drv s))) = 255)\<rparr>)"
proof -
  have inv: "can_inv (drv s)" and dev: "dev_inv s e" for e using assms(1) by (simp_all add: sys_inv_def)
  have base: "regptr (cfg e (drv s)) = base e" for e using dev [of e] can_invD(2) [OF inv] by (simp add: dev_inv_def)
  have t: "(cfg e t, dregs e t) = serve rd_icr (cfg e (drv s)) (dregs e (drv s))" for e
    using CAN_Handler_runs [OF inv, of rd_icr] base [of Can1cfg] base [of Can2cfg] assms(2) by auto
  have "can_inv t" using inv assms(2) by (rule CAN_Handler_inv)
  moreover have "init (cfg e t) \<and> data_ok (cfg e t) \<and>
      accepted s e = submitted s e @ irq_tx rd_icr (cfg e (drv s)) (dregs e (drv s)) (dregs e t) @
        map frame_of (txq (cfg e t)) \<and>
      (\<not> (overflow s e \<or> irq_rx rd_icr (dregs e (drv s)) \<noteq> [] \<and> length (rxq (cfg e (drv s))) = 255) \<longrightarrow>
        received s e @ irq_rx rd_icr (dregs e (drv s)) = delivered s e @ map frame_of (rxq (cfg e t)))" for e
  proof -
    note ok = can_invD(1) [OF inv, of e]
    have da: "data_ok (cfg e (drv s))" using dev [of e] by (simp add: dev_inv_def)
    note sl = serve_log [OF ok da t [symmetric]] and len = len_rxq [OF ok]
    have "init (cfg e t)"
      using serve_keeps [OF ok, of rd_icr "dregs e (drv s)"] t [of e, symmetric] dev [of e] by (simp add: dev_inv_def)
    then show ?thesis using sl len dev [of e] by (auto simp: dev_inv_def)
  qed
  ultimately show ?thesis by (simp add: sys_inv_def dev_inv_def)
qed

lemma step_bus_inv:
  assumes "sys_inv s"
  shows "sys_inv (s\<lparr>drv := (drv s)\<lparr>can1regs := r1, can2regs := r2\<rparr>\<rparr>)"
proof -
  have "cfg d ((drv s)\<lparr>can1regs := r1, can2regs := r2\<rparr>) = cfg d (drv s)" for d by (cases d) simp_all
  with assms show ?thesis by (simp add: sys_inv_def dev_inv_def can_inv_def)
qed

lemma can_step_inv: "can_step s s' \<Longrightarrow> sys_inv s \<Longrightarrow> sys_inv s'"
  by (erule can_stepE) (use step_write_inv step_read_inv step_irq_inv step_bus_inv in blast)+

lemma start_inv:
  assumes "main_open bs hnd can0 = Some (h1, h2, s)"
  shows "sys_inv \<lparr>drv = s, accepted = (\<lambda>_. []), submitted = (\<lambda>_. []), received = (\<lambda>_. []),
      delivered = (\<lambda>_. []), overflow = (\<lambda>_. False)\<rparr>"
proof -
  have c: "cfg d s = opened_cfg d cfg0" for d
    using main_open_ex [of can0 bs hnd] assms by (auto simp del: cfg.simps)
  have "data_ok (opened_cfg d cfg0)" for d
    by (simp add: data_ok_def opened_cfg_def reset_rings_def cfg0_def msg0_def)
  then show ?thesis by (simp add: sys_inv_def dev_inv_def can_inv_def c)
qed

lemma can_reachable_inv: "can_reachable s \<Longrightarrow> sys_inv s"
  by (induction rule: can_reachable.induct) (auto intro: start_inv can_step_inv)


text \<open>
  C19 No reachable state is stuck: once main has set up both devices, the interrupt handler, can_read
  and can_write return from every reachable state, for every behaviour of the capture register.
\<close>
theorem can_system_never_stuck:
  assumes "can_reachable s"
  shows "CAN_Handler rd_icr (drv s) \<noteq> None \<and> can_write d buf n (drv s) \<noteq> None \<and>
    can_read d n (drv s) \<noteq> None"
proof -
  have inv: "can_inv (drv s)" and i: "init (cfg e (drv s))" for e
    using can_reachable_inv [OF assms] by (simp_all add: sys_inv_def dev_inv_def)
  have base: "regptr (cfg e (drv s)) = base e" for e by (rule can_invD(2) [OF inv i])
  have "CAN_Handler rd_icr (drv s) \<noteq> None"
    using CAN_Handler_runs [OF inv, of rd_icr] base [of Can1cfg] base [of Can2cfg] by auto
  then show ?thesis
    by (simp add: can_write_def can_read_def i with_regs_base [OF base] case_prod_beta)
qed

definition sys0 :: "can_state \<Rightarrow> can_sys" where
  "sys0 s = \<lparr>drv = s, accepted = (\<lambda>_. []), submitted = (\<lambda>_. []), received = (\<lambda>_. []),
      delivered = (\<lambda>_. []), overflow = (\<lambda>_. False)\<rparr>"

text \<open>A reachable state after the application has written one message.\<close>

lemma reachable_after_write:
  "\<exists>s. can_reachable s \<and> accepted s Can1cfg = [frame_of msg0]"
proof -
  obtain s where s: "main_open (\<lambda>_. 0) 0x4000 can0 = Some (Some Can1cfg, Some Can2cfg, s)"
    "\<forall>d. cfg d s = opened_cfg d (cfg d can0) \<and> dregs d s = baud_regs (opened_regs (dregs d can0))"
    by (rule main_open_ex [of can0]) simp_all
  have r: "can_reachable (sys0 s)" unfolding sys0_def by (rule can_reachable.start) fact
  have inv: "can_inv s" unfolding can_inv_def s(2) [rule_format, THEN conjunct1] by simp
  have o: "init (cfg Can1cfg s)" "txq (cfg Can1cfg s) = []"
    unfolding s(2) [rule_format, THEN conjunct1] by simp_all
  obtain t where "can_write Can1cfg (\<lambda>_. msg0) 1 s = Some (1, t)"
    using can_write_ex [OF inv o(1), of "\<lambda>_. msg0" 1] o(2) by auto
  then have w: "can_write Can1cfg (\<lambda>_. msg0) 1 (drv (sys0 s)) = Some (1, t)" by (simp add: sys0_def)
  have "\<forall>i :: nat. length (Data msg0) = 8" by (simp add: msg0_def)
  note st = can_step.step_write [OF w this]
  have "\<exists>s'. can_step (sys0 s) s' \<and> accepted s' Can1cfg = [frame_of msg0]"
    by (rule exI, rule conjI, rule st) (simp add: sys0_def)
  with r show ?thesis by (meson can_reachable.step)
qed


theorem can_system_never_stuck_witness:
  "\<exists>s :: can_sys. accepted s Can1cfg = [frame_of msg0] \<and> CAN_Handler (\<lambda>r. (canicr r, r)) (drv s) \<noteq> None"
proof -
  obtain s where "can_reachable s" "accepted s Can1cfg = [frame_of msg0]"
    using reachable_after_write by blast
  then show ?thesis using can_system_never_stuck [of s "\<lambda>r. (canicr r, r)" Can1cfg "\<lambda>_. msg0" 0]
    by (intro exI [of _ s]) simp
qed

end
