(* ===== verification/Can_Stmt.thy ===== *)
theory Can_Stmt
  imports Can_System
begin

text \<open>
  The CAN driver one statement at a time. \<open>Can_System\<close> takes \<open>can_read\<close>, \<open>can_write\<close> and the
  handler as single steps; here \<open>can_read\<close>, \<open>can_write\<close> and the \<open>can_standard_transmit\<close> that
  \<open>can_write\<close> ends with (\<^verbatim>\<open>drivers/can.c\<close>) are sequences of statements on one device, so that
  \<open>Can_Race\<close> can run the interrupt handler between any two of them. The position in the code is a
  \<open>can_pc\<close>; the local variables are fields of the state, and a statement on local variables only is
  merged with the statement before it, since the handler cannot see the difference. A store to a field of
  the interrupt enable register is two steps, a load and a store of the whole word. Without
  interrupts the statements compute \<open>can_read_dev\<close> and \<open>can_write_dev\<close>, and they always return.
\<close>

section \<open>State\<close>

datatype can_pc =
    Idle
  | R_save | R_mask | R_test | R_copy | R_inc | R_wrap | R_restore
  | W_save1 | W_save2 | W_save3 | W_mask3 | W_mask2 | W_mask1 | W_test | W_put | W_inc | W_wrap
  | W_restore1 | W_restore2 | W_restore3
  | T_empty | T_off | T_tbs | T_dlc | T_rtr | T_ff | T_id | T_data nat | T_stb | T_inc | T_wrap
  | T_tie | T_tr

text \<open>
  The device structure and its registers, the position, the locals (\<open>f_count\<close> is \<open>max_bytes\<close> or
  \<open>n_telegrams\<close>, \<open>f_out\<close> what was stored through \<open>data\<close>, \<open>f_in\<close> and \<open>f_pos\<close> what is read through it),
  and the logs: frames accepted by \<open>can_write\<close>, requested for transmission, received, delivered by
  \<open>can_read\<close>; whether a frame arrived on a full ring, and whether a transmit interrupt was served
  while \<open>can_write\<close> was inside \<open>can_standard_transmit\<close>.
\<close>

record fine =
  f_cfg :: CAN_CFG_T
  f_regs :: CAN_REGS_T
  f_pc :: can_pc
  f_ld :: "canier_bits option"
  f_count :: int
  f_bytes :: int
  f_out :: "CANMSG_T list"
  f_in :: "nat \<Rightarrow> CANMSG_T"
  f_pos :: nat
  sv_RIE :: "1 word"
  sv_TIE1 :: "1 word"
  sv_TIE2 :: "1 word"
  sv_TIE3 :: "1 word"
  g_acc :: "can_frame list"
  g_sub :: "can_frame list"
  g_rcv :: "can_frame list"
  g_dlv :: "can_frame list"
  g_ovf :: bool
  g_race :: bool

definition at_pc :: "can_pc \<Rightarrow> fine \<Rightarrow> fine" where
  "at_pc p s = s\<lparr>f_pc := p\<rparr>"

text \<open>
  A store to a field of the interrupt enable register is two steps: the register is loaded (\<open>f_ld\<close>),
  and in a second step the loaded word is stored with the field changed. What the handler did to the
  register in between is overwritten.
\<close>

definition ier_stmt :: "can_pc \<Rightarrow> (canier_bits \<Rightarrow> canier_bits) \<Rightarrow> fine \<Rightarrow> fine" where
  "ier_stmt p f s = (case f_ld s of
       None \<Rightarrow> s\<lparr>f_ld := Some (canier (f_regs s))\<rparr>
     | Some i \<Rightarrow> s\<lparr>f_regs := (f_regs s)\<lparr>canier := f i\<rparr>, f_ld := None, f_pc := p\<rparr>)"

definition on_regs :: "(CAN_REGS_T \<Rightarrow> CAN_REGS_T) \<Rightarrow> fine \<Rightarrow> fine" where
  "on_regs f s = s\<lparr>f_regs := f (f_regs s)\<rparr>"

definition on_rb :: "(CAN_RING_BUFFER_T \<Rightarrow> CAN_RING_BUFFER_T) \<Rightarrow> fine \<Rightarrow> fine" where
  "on_rb f s = s\<lparr>f_cfg := (f_cfg s)\<lparr>rb := f (rb (f_cfg s))\<rparr>\<rparr>"

abbreviation f_rb :: "fine \<Rightarrow> CAN_RING_BUFFER_T" where
  "f_rb s \<equiv> rb (f_cfg s)"

text \<open>The message at the tail of the transmit ring, read again by every statement that uses it.\<close>

definition cur_msg :: "fine \<Rightarrow> CANMSG_T" where
  "cur_msg s = tx (f_rb s) ! nat (tx_tail (f_rb s))"

text \<open>Data byte \<open>k\<close> of transmit buffer 1.\<close>

definition tx_byte :: "nat \<Rightarrow> u8 \<Rightarrow> CAN_REGS_T \<Rightarrow> CAN_REGS_T" where
  "tx_byte k v r =
     (if k = 0 then r\<lparr>cantda1 := (cantda1 r)\<lparr>tda_Data1 := v\<rparr>\<rparr>
      else if k = 1 then r\<lparr>cantda1 := (cantda1 r)\<lparr>tda_Data2 := v\<rparr>\<rparr>
      else if k = 2 then r\<lparr>cantda1 := (cantda1 r)\<lparr>tda_Data3 := v\<rparr>\<rparr>
      else if k = 3 then r\<lparr>cantda1 := (cantda1 r)\<lparr>tda_Data4 := v\<rparr>\<rparr>
      else if k = 4 then r\<lparr>cantdb1 := (cantdb1 r)\<lparr>tdb_Data5 := v\<rparr>\<rparr>
      else if k = 5 then r\<lparr>cantdb1 := (cantdb1 r)\<lparr>tdb_Data6 := v\<rparr>\<rparr>
      else if k = 6 then r\<lparr>cantdb1 := (cantdb1 r)\<lparr>tdb_Data7 := v\<rparr>\<rparr>
      else r\<lparr>cantdb1 := (cantdb1 r)\<lparr>tdb_Data8 := v\<rparr>\<rparr>)"

section \<open>The statements\<close>

definition read_stmt :: "fine \<Rightarrow> fine" where
  "read_stmt s = (case f_pc s of
       R_save \<Rightarrow> at_pc R_mask (s\<lparr>sv_RIE := ier_RIE (canier (f_regs s))\<rparr>)
     | R_mask \<Rightarrow> ier_stmt R_test (\<lambda>i. i\<lparr>ier_RIE := 0\<rparr>) s
     | R_test \<Rightarrow>
         (if f_count s > 0 \<and> rx_tail (f_rb s) \<noteq> rx_head (f_rb s) then at_pc R_copy s
          else at_pc R_restore s)
     | R_copy \<Rightarrow>
         (let m = rx (f_rb s) ! nat (rx_tail (f_rb s))
          in at_pc R_inc (s\<lparr>f_out := f_out s @ [m], g_dlv := g_dlv s @ [frame_of m]\<rparr>))
     | R_inc \<Rightarrow> at_pc R_wrap (on_rb (\<lambda>b. b\<lparr>rx_tail := rx_tail b + 1\<rparr>) s)
     | R_wrap \<Rightarrow>
         at_pc R_test
           ((on_rb (\<lambda>b. if rx_tail b \<ge> CAN_RING_BUFSIZE then b\<lparr>rx_tail := 0\<rparr> else b) s)
            \<lparr>f_bytes := f_bytes s + 1, f_count := f_count s - 1\<rparr>)
     | R_restore \<Rightarrow> ier_stmt Idle (\<lambda>i. i\<lparr>ier_RIE := sv_RIE s\<rparr>) s
     | _ \<Rightarrow> s)"

definition write_stmt :: "fine \<Rightarrow> fine" where
  "write_stmt s = (case f_pc s of
       W_save1 \<Rightarrow> at_pc W_save2 (s\<lparr>sv_TIE1 := ier_TIE1 (canier (f_regs s))\<rparr>)
     | W_save2 \<Rightarrow> at_pc W_save3 (s\<lparr>sv_TIE2 := ier_TIE2 (canier (f_regs s))\<rparr>)
     | W_save3 \<Rightarrow> at_pc W_mask3 (s\<lparr>sv_TIE3 := ier_TIE3 (canier (f_regs s))\<rparr>)
     | W_mask3 \<Rightarrow> ier_stmt W_mask2 (\<lambda>i. i\<lparr>ier_TIE3 := 0\<rparr>) s
     | W_mask2 \<Rightarrow> ier_stmt W_mask1 (\<lambda>i. i\<lparr>ier_TIE2 := 0\<rparr>) s
     | W_mask1 \<Rightarrow> ier_stmt W_test (\<lambda>i. i\<lparr>ier_TIE1 := 0\<rparr>) s
     | W_test \<Rightarrow>
         (if f_count s > 0 \<and> can_get_free_tx_count (f_cfg s) > 0 then at_pc W_put s
          else at_pc W_restore1 s)
     | W_put \<Rightarrow>
         at_pc W_inc ((on_rb (\<lambda>b. b\<lparr>tx := (tx b)[nat (tx_head b) := f_in s (f_pos s)]\<rparr>) s)
           \<lparr>f_pos := Suc (f_pos s)\<rparr>)
     | W_inc \<Rightarrow>
         at_pc W_wrap ((on_rb (\<lambda>b. b\<lparr>tx_head := tx_head b + 1\<rparr>) s)
           \<lparr>g_acc := g_acc s @ [frame_of (tx (f_rb s) ! nat (tx_head (f_rb s)))]\<rparr>)
     | W_wrap \<Rightarrow>
         at_pc W_test
           ((on_rb (\<lambda>b. if tx_head b \<ge> CAN_RING_BUFSIZE then b\<lparr>tx_head := 0\<rparr> else b) s)
            \<lparr>f_bytes := f_bytes s + 1, f_count := f_count s - 1\<rparr>)
     | W_restore1 \<Rightarrow> ier_stmt W_restore2 (\<lambda>i. i\<lparr>ier_TIE1 := sv_TIE1 s\<rparr>) s
     | W_restore2 \<Rightarrow> ier_stmt W_restore3 (\<lambda>i. i\<lparr>ier_TIE2 := sv_TIE2 s\<rparr>) s
     | W_restore3 \<Rightarrow> ier_stmt T_empty (\<lambda>i. i\<lparr>ier_TIE3 := sv_TIE3 s\<rparr>) s
     | _ \<Rightarrow> s)"

definition transmit_stmt :: "fine \<Rightarrow> fine" where
  "transmit_stmt s = (case f_pc s of
       T_empty \<Rightarrow> (if tx_head (f_rb s) = tx_tail (f_rb s) then at_pc T_off s else at_pc T_tbs s)
     | T_off \<Rightarrow> ier_stmt Idle (\<lambda>i. i\<lparr>ier_TIE1 := 0\<rparr>) s
     | T_tbs \<Rightarrow> (if sr_TBS1 (cansr (f_regs s)) \<noteq> 0 then at_pc T_dlc s else at_pc Idle s)
     | T_dlc \<Rightarrow> at_pc T_rtr (on_regs (\<lambda>r. r\<lparr>cantfi1 := (cantfi1 r)\<lparr>tfi_DLC := DLC (cur_msg s)\<rparr>\<rparr>) s)
     | T_rtr \<Rightarrow> at_pc T_ff (on_regs (\<lambda>r. r\<lparr>cantfi1 := (cantfi1 r)\<lparr>tfi_RTR := RTR (cur_msg s)\<rparr>\<rparr>) s)
     | T_ff \<Rightarrow> at_pc T_id (on_regs (\<lambda>r. r\<lparr>cantfi1 := (cantfi1 r)\<lparr>tfi_FF := FF (cur_msg s)\<rparr>\<rparr>) s)
     | T_id \<Rightarrow>
         at_pc (T_data 0) (on_regs (\<lambda>r. r\<lparr>cantid1 := (cantid1 r)\<lparr>tid_ID29_0 := ucast (MsgID (cur_msg s))\<rparr>\<rparr>) s)
     | T_data k \<Rightarrow>
         at_pc (if k < 7 then T_data (Suc k) else T_stb) (on_regs (tx_byte k (Data (cur_msg s) ! k)) s)
     | T_stb \<Rightarrow> at_pc T_inc (on_regs (\<lambda>r. r\<lparr>cancmr := (cancmr r)\<lparr>cmr_STB1 := 1\<rparr>\<rparr>) s)
     | T_inc \<Rightarrow> at_pc T_wrap (on_rb (\<lambda>b. b\<lparr>tx_tail := tx_tail b + 1\<rparr>) s)
     | T_wrap \<Rightarrow>
         at_pc T_tie (on_rb (\<lambda>b. if tx_tail b \<ge> CAN_RING_BUFSIZE then b\<lparr>tx_tail := 0\<rparr> else b) s)
     | T_tie \<Rightarrow> ier_stmt T_tr (\<lambda>i. i\<lparr>ier_TIE1 := 1\<rparr>) s
     | T_tr \<Rightarrow>
         at_pc Idle ((on_regs (\<lambda>r. r\<lparr>cancmr := (cancmr r)\<lparr>cmr_TR := 1\<rparr>\<rparr>) s)
           \<lparr>g_sub := g_sub s @ [tx_frame (f_regs s)]\<rparr>)
     | _ \<Rightarrow> s)"

fun in_read :: "can_pc \<Rightarrow> bool" where
  "in_read p = (p \<in> {R_save, R_mask, R_test, R_copy, R_inc, R_wrap, R_restore})"

fun in_transmit :: "can_pc \<Rightarrow> bool" where
  "in_transmit (T_data k) = True"
| "in_transmit p = (p \<in> {T_empty, T_off, T_tbs, T_dlc, T_rtr, T_ff, T_id, T_stb, T_inc, T_wrap, T_tie, T_tr})"

definition stmt :: "fine \<Rightarrow> fine" where
  "stmt s = (if in_read (f_pc s) then read_stmt s
     else if in_transmit (f_pc s) then transmit_stmt s else write_stmt s)"

text \<open>The calls: nothing happens on a device that is not open.\<close>

definition call_read :: "int \<Rightarrow> fine \<Rightarrow> fine" where
  "call_read n s = s\<lparr>f_count := n, f_bytes := 0, f_out := [], f_ld := None,
     f_pc := if init (f_cfg s) then R_save else Idle\<rparr>"

definition call_write :: "(nat \<Rightarrow> CANMSG_T) \<Rightarrow> int \<Rightarrow> fine \<Rightarrow> fine" where
  "call_write buf n s = s\<lparr>f_count := n, f_bytes := 0, f_in := buf, f_pos := 0, f_ld := None,
     f_pc := if init (f_cfg s) then W_save1 else Idle\<rparr>"

lemmas upd_defs = at_pc_def on_regs_def on_rb_def

section \<open>Without interrupts\<close>

text \<open>The code running alone: one statement after the other until the call has returned.\<close>

inductive alone :: "fine \<Rightarrow> fine \<Rightarrow> bool" where
  returned: "alone s s" if "f_pc s = Idle"
| stmt: "alone s t" if "f_pc s \<noteq> Idle" "alone (stmt s) t"

lemma alone_step: "alone (stmt s) t \<Longrightarrow> f_pc s \<noteq> Idle \<Longrightarrow> alone s t"
  by (rule alone.stmt)

lemma alone_idle: "alone s t \<Longrightarrow> f_pc t = Idle"
  by (induction rule: alone.induct) simp_all

lemma alone_unique: "alone s t \<Longrightarrow> alone s u \<Longrightarrow> u = t"
proof (induction rule: alone.induct)
  case (returned s)
  from returned(2,1) show ?case by cases simp_all
next
  case (stmt s t)
  from stmt.prems stmt.hyps(1) have "alone (stmt s) u" by cases simp_all
  then show ?case by (rule stmt.IH)
qed

text \<open>Running by simplification: a known position is stepped, a returned call stops.\<close>

lemma alone_run:
  "f_pc s \<noteq> Idle \<Longrightarrow> alone s t = alone (stmt s) t"
  "f_pc s = Idle \<Longrightarrow> alone s t = (t = s)"
  by (auto elim: alone.cases intro: alone.intros)

text \<open>The two steps of a store to the interrupt enable register, alone.\<close>

lemma ier_alone:
  assumes "f_ld s = None" "f_pc s \<noteq> Idle" "stmt s = ier_stmt q f s"
    "stmt (s\<lparr>f_ld := Some (canier (f_regs s))\<rparr>) = ier_stmt q f (s\<lparr>f_ld := Some (canier (f_regs s))\<rparr>)"
  shows "alone s t = alone (s\<lparr>f_regs := (f_regs s)\<lparr>canier := f (canier (f_regs s))\<rparr>, f_ld := None, f_pc := q\<rparr>) t"
  using assms
  by (simp add: alone_run(1) [of s] alone_run(1) [of "s\<lparr>f_ld := Some (canier (f_regs s))\<rparr>"] ier_stmt_def)

lemma read_ier_alone:
  assumes "f_ld s = None"
  shows "f_pc s = R_mask \<Longrightarrow> alone s t = alone (s\<lparr>f_regs := (f_regs s)\<lparr>canier := (canier (f_regs s))\<lparr>ier_RIE := 0\<rparr>\<rparr>,
      f_ld := None, f_pc := R_test\<rparr>) t"
    and "f_pc s = R_restore \<Longrightarrow> alone s t = alone (s\<lparr>f_regs := (f_regs s)\<lparr>canier := (canier (f_regs s))
      \<lparr>ier_RIE := sv_RIE s\<rparr>\<rparr>, f_ld := None, f_pc := Idle\<rparr>) t"
  using assms by (subst ier_alone; simp add: stmt_def read_stmt_def)+

lemma write_ier_alone:
  assumes "f_ld s = None"
  shows "f_pc s = W_mask3 \<Longrightarrow> alone s t = alone (s\<lparr>f_regs := (f_regs s)\<lparr>canier := (canier (f_regs s))\<lparr>ier_TIE3 := 0\<rparr>\<rparr>,
      f_ld := None, f_pc := W_mask2\<rparr>) t"
    and "f_pc s = W_mask2 \<Longrightarrow> alone s t = alone (s\<lparr>f_regs := (f_regs s)\<lparr>canier := (canier (f_regs s))\<lparr>ier_TIE2 := 0\<rparr>\<rparr>,
      f_ld := None, f_pc := W_mask1\<rparr>) t"
    and "f_pc s = W_mask1 \<Longrightarrow> alone s t = alone (s\<lparr>f_regs := (f_regs s)\<lparr>canier := (canier (f_regs s))\<lparr>ier_TIE1 := 0\<rparr>\<rparr>,
      f_ld := None, f_pc := W_test\<rparr>) t"
    and "f_pc s = W_restore1 \<Longrightarrow> alone s t = alone (s\<lparr>f_regs := (f_regs s)\<lparr>canier := (canier (f_regs s))
      \<lparr>ier_TIE1 := sv_TIE1 s\<rparr>\<rparr>, f_ld := None, f_pc := W_restore2\<rparr>) t"
    and "f_pc s = W_restore2 \<Longrightarrow> alone s t = alone (s\<lparr>f_regs := (f_regs s)\<lparr>canier := (canier (f_regs s))
      \<lparr>ier_TIE2 := sv_TIE2 s\<rparr>\<rparr>, f_ld := None, f_pc := W_restore3\<rparr>) t"
    and "f_pc s = W_restore3 \<Longrightarrow> alone s t = alone (s\<lparr>f_regs := (f_regs s)\<lparr>canier := (canier (f_regs s))
      \<lparr>ier_TIE3 := sv_TIE3 s\<rparr>\<rparr>, f_ld := None, f_pc := T_empty\<rparr>) t"
  using assms by (subst ier_alone; simp add: stmt_def write_stmt_def)+

text \<open>The read loop, from its test to the statement after it.\<close>

lemma read_loop_alone:
  assumes "f_pc s = R_test" "can_read_loop (f_count s) (f_cfg s) = (ms, c)"
  shows "\<exists>g k. (\<forall>t. alone (s\<lparr>f_pc := R_restore, f_cfg := c, f_out := f_out s @ ms, f_count := k,
      f_bytes := f_bytes s + int (length ms), g_dlv := g\<rparr>) t \<longrightarrow> alone s t)"
  using assms
proof (induction "f_count s" "f_cfg s" arbitrary: s ms rule: can_read_loop.induct)
  case 1
  show ?case
  proof (cases "f_count s > 0 \<and> rx_tail (f_rb s) \<noteq> rx_head (f_rb s)")
    case True
    let ?c = "f_cfg s" and ?m = "rx (f_rb s) ! nat (rx_tail (f_rb s))"
    let ?c1 = "?c\<lparr>rb := rx_pop (f_rb s)\<rparr>"
    let ?s1 = "s\<lparr>f_cfg := ?c1, f_out := f_out s @ [?m], f_count := f_count s - 1, f_bytes := f_bytes s + 1,
      g_dlv := g_dlv s @ [frame_of ?m]\<rparr>"
    obtain ms' where l: "can_read_loop (f_count s - 1) ?c1 = (ms', c)" "ms = ?m # ms'"
      using "1.prems"(2) True by (subst (asm) can_read_loop.simps) (auto split: prod.splits)
    have go: "stmt (stmt (stmt (stmt s))) = ?s1"
      using True "1.prems"(1) by (simp add: stmt_def read_stmt_def upd_defs Let_def rx_pop_def)
    have run: "alone ?s1 t \<Longrightarrow> alone s t" for t
      by (rule alone_step, rule alone_step, rule alone_step, rule alone_step, subst go)
        (use True "1.prems"(1) in \<open>simp_all add: stmt_def read_stmt_def upd_defs Let_def\<close>)
    obtain g k where "\<forall>t. alone (?s1\<lparr>f_pc := R_restore, f_cfg := c, f_out := f_out ?s1 @ ms', f_count := k,
        f_bytes := f_bytes ?s1 + int (length ms'), g_dlv := g\<rparr>) t \<longrightarrow> alone ?s1 t"
      using "1.hyps" [OF True, of ?s1 ms'] l "1.prems"(1) by auto
    then have "\<forall>t. alone (s\<lparr>f_pc := R_restore, f_cfg := c, f_out := f_out s @ ms, f_count := k,
        f_bytes := f_bytes s + int (length ms), g_dlv := g\<rparr>) t \<longrightarrow> alone s t"
      using run l(2) by (simp add: add.assoc)
    then show ?thesis by blast
  next
    case False
    then have "ms = []" "c = f_cfg s" using "1.prems"(2) by (subst (asm) can_read_loop.simps, auto)+
    moreover have "stmt s = s\<lparr>f_pc := R_restore\<rparr>"
      using False "1.prems"(1) by (auto simp: stmt_def read_stmt_def upd_defs)
    moreover have "s\<lparr>f_pc := R_restore, f_cfg := f_cfg s, f_out := f_out s @ [], f_count := f_count s,
        f_bytes := f_bytes s + int (length []), g_dlv := g_dlv s\<rparr> = s\<lparr>f_pc := R_restore\<rparr>" by simp
    ultimately show ?thesis using alone_step [of s] "1.prems"(1)
      by (intro exI [of _ "g_dlv s"] exI [of _ "f_count s"]) simp
  qed
qed

lemma write_loop_alone:
  assumes "f_pc s = W_test" "can_write_loop (f_count s) (f_in s) (f_pos s) (f_cfg s) = (b, c)"
  shows "\<exists>g k i. (\<forall>t. alone (s\<lparr>f_pc := W_restore1, f_cfg := c, f_count := k, f_bytes := f_bytes s + b,
      f_pos := i, g_acc := g\<rparr>) t \<longrightarrow> alone s t)"
  using assms
proof (induction "f_count s" "f_in s" "f_pos s" "f_cfg s" arbitrary: s b rule: can_write_loop.induct)
  case 1
  show ?case
  proof (cases "f_count s > 0 \<and> can_get_free_tx_count (f_cfg s) > 0")
    case True
    let ?m = "f_in s (f_pos s)"
    let ?c1 = "(f_cfg s)\<lparr>rb := tx_put ?m (f_rb s)\<rparr>"
    let ?g = "g_acc s @ [frame_of ((tx (f_rb s))[nat (tx_head (f_rb s)) := ?m] ! nat (tx_head (f_rb s)))]"
    let ?s1 = "s\<lparr>f_cfg := ?c1, f_count := f_count s - 1, f_bytes := f_bytes s + 1,
      f_pos := Suc (f_pos s), g_acc := ?g\<rparr>"
    obtain b' where l: "can_write_loop (f_count s - 1) (f_in s) (Suc (f_pos s)) ?c1 = (b', c)" "b = b' + 1"
      using "1.prems"(2) True by (subst (asm) can_write_loop.simps) (auto split: prod.splits)
    have go: "stmt (stmt (stmt (stmt s))) = ?s1"
      using True "1.prems"(1) by (simp add: stmt_def write_stmt_def upd_defs Let_def tx_put_def)
    have run: "alone ?s1 t \<Longrightarrow> alone s t" for t
      by (rule alone_step, rule alone_step, rule alone_step, rule alone_step, subst go)
        (use True "1.prems"(1) in \<open>simp_all add: stmt_def write_stmt_def upd_defs Let_def\<close>)
    obtain g k i where "\<forall>t. alone (?s1\<lparr>f_pc := W_restore1, f_cfg := c, f_count := k,
        f_bytes := f_bytes ?s1 + b', f_pos := i, g_acc := g\<rparr>) t \<longrightarrow> alone ?s1 t"
      using "1.hyps" [OF True, of ?s1 b'] l "1.prems"(1) by auto
    then have "\<forall>t. alone (s\<lparr>f_pc := W_restore1, f_cfg := c, f_count := k,
        f_bytes := f_bytes s + b, f_pos := i, g_acc := g\<rparr>) t \<longrightarrow> alone s t"
      using run l(2) by (simp add: add.assoc add.commute [of 1])
    then show ?thesis by blast
  next
    case False
    then have "b = 0" "c = f_cfg s" using "1.prems"(2) by (subst (asm) can_write_loop.simps, auto)+
    moreover have "stmt s = s\<lparr>f_pc := W_restore1\<rparr>"
      using False "1.prems"(1) by (auto simp: stmt_def write_stmt_def upd_defs)
    ultimately show ?thesis using alone_step [of s] "1.prems"(1)
      by (intro exI [of _ "g_acc s"] exI [of _ "f_count s"] exI [of _ "f_pos s"]) simp
  qed
qed

lemma tda_full: "(d :: cantda_bits)\<lparr>tda_Data1 := w, tda_Data2 := x, tda_Data3 := y, tda_Data4 := z\<rparr> =
    \<lparr>tda_Data1 = w, tda_Data2 = x, tda_Data3 = y, tda_Data4 = z\<rparr>"
  by (cases d) simp

lemma tdb_full: "(d :: cantdb_bits)\<lparr>tdb_Data5 := w, tdb_Data6 := x, tdb_Data7 := y, tdb_Data8 := z\<rparr> =
    \<lparr>tdb_Data5 = w, tdb_Data6 = x, tdb_Data7 = y, tdb_Data8 = z\<rparr>"
  by (cases d) simp

lemma stmt_T: "in_transmit (f_pc s) \<Longrightarrow> stmt s = transmit_stmt s"
  by (cases "f_pc s") (simp_all add: stmt_def)

lemmas run_T = alone_run stmt_T transmit_stmt_def upd_defs

lemma data_alone:
  assumes "f_pc s = T_data 0"
  shows "alone s t = alone (s\<lparr>f_regs := (f_regs s)\<lparr>
      cantda1 := cantda1 (tx_load (cur_msg s) (f_regs s)),
      cantdb1 := cantdb1 (tx_load (cur_msg s) (f_regs s))\<rparr>, f_pc := T_stb\<rparr>) t"
  using assms
  by (simp add: alone_run(1) [where s = "_\<lparr>f_pc := T_data k\<rparr>" for k] alone_run(1) [of s] stmt_T
      transmit_stmt_def upd_defs cur_msg_def tx_byte_def tx_load_def tda_full tdb_full numeral_eq_Suc)

lemma head_alone:
  assumes "f_pc s = T_dlc"
  shows "alone s t = alone (s\<lparr>f_regs := (f_regs s)\<lparr>
      cantfi1 := cantfi1 (tx_load (cur_msg s) (f_regs s)),
      cantid1 := cantid1 (tx_load (cur_msg s) (f_regs s))\<rparr>, f_pc := T_data 0\<rparr>) t"
  using assms
  by (simp add: alone_run(1) [where s = "_\<lparr>f_pc := T_rtr\<rparr>"] alone_run(1) [where s = "_\<lparr>f_pc := T_ff\<rparr>"]
      alone_run(1) [where s = "_\<lparr>f_pc := T_id\<rparr>"] alone_run(1) [of s] stmt_T
      transmit_stmt_def upd_defs cur_msg_def tx_load_def)

lemma request_alone:
  assumes "f_pc s = T_stb"
  shows "\<exists>t. alone s t \<and> f_bytes t = f_bytes s \<and> f_cfg t = (f_cfg s)\<lparr>rb := tx_pop (f_rb s)\<rparr> \<and>
    (f_ld s = None \<longrightarrow> f_regs t = (f_regs s)\<lparr>cancmr := (cancmr (f_regs s))\<lparr>cmr_STB1 := 1, cmr_TR := 1\<rparr>,
      canier := (canier (f_regs s))\<lparr>ier_TIE1 := 1\<rparr>\<rparr>) \<and>
    g_acc t = g_acc s \<and> g_sub t = g_sub s @ [tx_frame (f_regs s)]"
  using assms by (cases "f_ld s") (simp_all add: run_T ier_stmt_def tx_pop_def Let_def tx_frame_def)

lemma transmit_alone:
  assumes "f_pc s = T_empty" "f_ld s = None"
  shows "\<exists>t. alone s t \<and> f_bytes t = f_bytes s \<and>
    (f_cfg t, f_regs t) = snd (can_standard_transmit (f_cfg s) (f_regs s))"
proof -
  consider (empty) "tx_head (f_rb s) = tx_tail (f_rb s)"
    | (busy) "tx_head (f_rb s) \<noteq> tx_tail (f_rb s)" "sr_TBS1 (cansr (f_regs s)) = 0"
    | (free) "tx_head (f_rb s) \<noteq> tx_tail (f_rb s)" "sr_TBS1 (cansr (f_regs s)) \<noteq> 0" by blast
  then show ?thesis
  proof cases
    case free
    let ?m = "cur_msg s"
    let ?r = "tx_load ?m (f_regs s)"
    have "alone s t = alone (s\<lparr>f_regs := ?r, f_pc := T_stb\<rparr>) t" for t
      using free assms(1)
      by (simp add: alone_run(1) [of s] alone_run(1) [where s = "_\<lparr>f_pc := T_tbs\<rparr>"] stmt_T
          transmit_stmt_def upd_defs head_alone data_alone cur_msg_def tx_load_def)
    moreover obtain t where "alone (s\<lparr>f_regs := ?r, f_pc := T_stb\<rparr>) t" "f_bytes t = f_bytes s"
        "f_cfg t = (f_cfg s)\<lparr>rb := tx_pop (f_rb s)\<rparr>"
        "f_regs t = ?r\<lparr>cancmr := (cancmr ?r)\<lparr>cmr_STB1 := 1, cmr_TR := 1\<rparr>, canier := (canier ?r)\<lparr>ier_TIE1 := 1\<rparr>\<rparr>"
      using request_alone [of "s\<lparr>f_regs := ?r, f_pc := T_stb\<rparr>"] assms(2) by auto
    ultimately show ?thesis using free
      by (intro exI [of _ t]) (simp add: can_standard_transmit_def Let_def cur_msg_def tx_load_def)
  qed (use assms in \<open>simp_all add: run_T ier_stmt_def can_standard_transmit_def\<close>)
qed

lemma read_alone:
  assumes "init (f_cfg s)"
  shows "\<exists>t. alone (call_read n s) t \<and> f_bytes t = int (length (f_out t)) \<and>
    (f_out t, f_cfg t, f_regs t) = can_read_dev n (f_cfg s) (f_regs s)"
proof -
  let ?r = "(f_regs s)\<lparr>canier := (canier (f_regs s))\<lparr>ier_RIE := 0\<rparr>\<rparr>"
  let ?s = "(call_read n s)\<lparr>sv_RIE := ier_RIE (canier (f_regs s)), f_regs := ?r, f_ld := None, f_pc := R_test\<rparr>"
  obtain ms c where l: "can_read_loop n (f_cfg s) = (ms, c)" by fastforce
  have "alone (call_read n s) t = alone ?s t" for t
    using assms by (simp add: call_read_def alone_run(1) [where s = "_\<lparr>f_pc := R_save\<rparr>"] read_ier_alone(1)
        stmt_def read_stmt_def upd_defs)
  moreover obtain g k where go: "\<forall>t. alone (?s\<lparr>f_pc := R_restore, f_cfg := c, f_out := f_out ?s @ ms, f_count := k,
      f_bytes := f_bytes ?s + int (length ms), g_dlv := g\<rparr>) t \<longrightarrow> alone ?s t"
    using read_loop_alone [of ?s ms c] l by (auto simp: call_read_def)
  moreover define s2 where "s2 = ?s\<lparr>f_pc := R_restore, f_cfg := c, f_out := f_out ?s @ ms, f_count := k,
      f_bytes := f_bytes ?s + int (length ms), g_dlv := g\<rparr>"
  have s2: "f_pc s2 = R_restore" "f_cfg s2 = c" "f_out s2 = ms" "f_bytes s2 = int (length ms)"
    "f_regs s2 = ?r" "sv_RIE s2 = ier_RIE (canier (f_regs s))" "f_ld s2 = None"
    by (simp_all add: s2_def call_read_def)
  define t where "t = s2\<lparr>f_regs := (f_regs s2)\<lparr>canier := (canier (f_regs s2))\<lparr>ier_RIE := sv_RIE s2\<rparr>\<rparr>,
    f_ld := None, f_pc := Idle\<rparr>"
  have "alone s2 t" unfolding read_ier_alone(2) [OF s2(7,1)] t_def by (rule alone.returned) simp
  ultimately have "alone (call_read n s) t" unfolding s2_def by blast
  then show ?thesis using s2 by (intro exI [of _ t]) (simp add: t_def can_read_dev_def l)
qed

lemma write_alone:
  assumes "init (f_cfg s)"
  shows "\<exists>t. alone (call_write buf n s) t \<and>
    (f_bytes t, f_cfg t, f_regs t) = can_write_dev buf n (f_cfg s) (f_regs s)"
proof -
  let ?i = "canier (f_regs s)"
  let ?r = "(f_regs s)\<lparr>canier := ?i\<lparr>ier_TIE3 := 0, ier_TIE2 := 0, ier_TIE1 := 0\<rparr>\<rparr>"
  let ?s = "(call_write buf n s)\<lparr>sv_TIE1 := ier_TIE1 ?i, sv_TIE2 := ier_TIE2 ?i, sv_TIE3 := ier_TIE3 ?i,
    f_regs := ?r, f_ld := None, f_pc := W_test\<rparr>"
  obtain b c where l: "can_write_loop n buf 0 (f_cfg s) = (b, c)" by fastforce
  have start: "alone (call_write buf n s) t = alone ?s t" for t
    using assms by (simp add: call_write_def alone_run(1) [where s = "_\<lparr>f_pc := W_save1\<rparr>"]
        alone_run(1) [where s = "_\<lparr>f_pc := W_save2\<rparr>"] alone_run(1) [where s = "_\<lparr>f_pc := W_save3\<rparr>"]
        write_ier_alone(1-3) stmt_def write_stmt_def upd_defs)
  obtain g k i where w: "\<forall>t. alone (?s\<lparr>f_pc := W_restore1, f_cfg := c, f_count := k,
      f_bytes := f_bytes ?s + b, f_pos := i, g_acc := g\<rparr>) t \<longrightarrow> alone ?s t"
    using write_loop_alone [of ?s b c] l by (auto simp: call_write_def)
  define s1 where "s1 = ?s\<lparr>f_pc := W_restore1, f_cfg := c, f_count := k,
      f_bytes := f_bytes ?s + b, f_pos := i, g_acc := g\<rparr>"
  define s2 where "s2 = s1\<lparr>f_regs := ?r\<lparr>canier := (canier ?r)\<lparr>ier_TIE1 := ier_TIE1 ?i,
      ier_TIE2 := ier_TIE2 ?i, ier_TIE3 := ier_TIE3 ?i\<rparr>\<rparr>, f_ld := None, f_pc := T_empty\<rparr>"
  have s1: "f_pc s1 = W_restore1" "f_ld s1 = None" "f_regs s1 = ?r" "sv_TIE1 s1 = ier_TIE1 ?i"
    "sv_TIE2 s1 = ier_TIE2 ?i" "sv_TIE3 s1 = ier_TIE3 ?i" "f_cfg s1 = c" "f_bytes s1 = b"
    by (simp_all add: s1_def call_write_def)
  have s2: "f_pc s2 = T_empty" "f_ld s2 = None" "f_bytes s2 = b" "f_cfg s2 = c" using s1 by (simp_all add: s2_def)
  have restore: "alone s1 t = alone s2 t" for t using s1 by (simp add: write_ier_alone(4-6) s2_def)
  obtain t where t: "alone s2 t" "f_bytes t = f_bytes s2"
      "(f_cfg t, f_regs t) = snd (can_standard_transmit (f_cfg s2) (f_regs s2))"
    using transmit_alone [OF s2(1,2)] by blast
  have r2: "f_regs s2 = ?r\<lparr>canier := (canier ?r)\<lparr>ier_TIE1 := ier_TIE1 ?i, ier_TIE2 := ier_TIE2 ?i,
      ier_TIE3 := ier_TIE3 ?i\<rparr>\<rparr>" by (simp add: s2_def)
  have "alone (call_write buf n s) t" using w t(1) unfolding start restore [symmetric] s1_def by blast
  then show ?thesis
    using t(2,3) by (intro exI [of _ t]) (simp add: can_write_dev_def l s2 r2 case_prod_beta prod_eq_iff Let_def)
qed

text \<open>
  Executed statement by statement with no interrupt in between, \<open>can_read\<close> and \<open>can_write\<close> return, with
  exactly the result, device structure and registers of \<open>can_read_dev\<close> and \<open>can_write_dev\<close>, and no other
  outcome is possible: what is shown of the calls in \<open>Can\<close> holds of their statements.
\<close>
lemma statements_compute_calls:
  assumes "init (f_cfg s)"
  shows "(\<exists>t. alone (call_read n s) t) \<and> (\<exists>t. alone (call_write buf n s) t) \<and>
    (\<forall>t. alone (call_read n s) t \<longrightarrow> f_bytes t = int (length (f_out t)) \<and>
       (f_out t, f_cfg t, f_regs t) = can_read_dev n (f_cfg s) (f_regs s)) \<and>
    (\<forall>t. alone (call_write buf n s) t \<longrightarrow>
       (f_bytes t, f_cfg t, f_regs t) = can_write_dev buf n (f_cfg s) (f_regs s))"
  using read_alone [OF assms, of n] write_alone [OF assms, of buf n] alone_unique by metis

text \<open>A device just opened, with empty rings and empty logs.\<close>

definition fine_start :: "CAN_CFG_T \<Rightarrow> CAN_REGS_T \<Rightarrow> fine" where
  "fine_start c r = \<lparr>f_cfg = c, f_regs = r, f_pc = Idle, f_ld = None, f_count = 0, f_bytes = 0, f_out = [],
     f_in = (\<lambda>_. msg0), f_pos = 0, sv_RIE = 0, sv_TIE1 = 0, sv_TIE2 = 0, sv_TIE3 = 0,
     g_acc = [], g_sub = [], g_rcv = [], g_dlv = [], g_ovf = False, g_race = False\<rparr>"

end
