(* ===== verification/Can_Race.thy ===== *)
theory Can_Race
  imports Can_Stmt
begin

text \<open>
  The statements of \<open>can_read\<close> and \<open>can_write\<close> interleaved with the interrupt handler, with calls
  and with bus activity, for one device. The handler itself is not interrupted (interrupts are off
  while it runs). A store to a bit field of the interrupt enable register is two steps, a load and a
  store of the whole register, so that it can undo what the handler did in between. The other
  registers a statement changes bit by bit are those of the transmit buffer, which the handler writes
  only when it runs inside \<open>can_standard_transmit\<close> (the flag \<open>g_race\<close>), and the command register,
  which is write-only.

  Both routines switch interrupt enables off around their loops. What that buys rests on one fact
  about the controller, \<open>icr_gated\<close>: the capture register shows a receive or transmit event only
  while its enable is on. Nothing received is then lost whatever the interleaving, and nothing
  accepted is lost unless a transmit interrupt is taken inside the \<open>can_standard_transmit\<close> that
  \<open>can_write\<close> calls after it has switched the enables on again. When that can happen is the subject
  of \<open>Can_Hw\<close>.
\<close>

section \<open>With interrupts\<close>

text \<open>
  The handler's share of one device, as in \<open>serve\<close>: the receive part, and whether the transmit
  part runs.
\<close>

definition rx_part :: "icr_read \<Rightarrow> CAN_CFG_T \<Rightarrow> CAN_REGS_T \<Rightarrow> CAN_CFG_T \<times> CAN_REGS_T" where
  "rx_part rd_icr c r =
     (let (icr, r) = rd_icr r in if icr_RI icr \<noteq> 0 then snd (can_standard_receive c r) else (c, r))"

definition irq_ti :: "icr_read \<Rightarrow> CAN_CFG_T \<Rightarrow> CAN_REGS_T \<Rightarrow> bool" where
  "irq_ti rd_icr c r = (icr_TI1 (fst (rd_icr (snd (rx_part rd_icr c r)))) \<noteq> 0)"

lemma serve_parts:
  "serve rd_icr c r = (let (c2, r2) = rx_part rd_icr c r; r3 = snd (rd_icr r2)
     in if irq_ti rd_icr c r then snd (can_standard_transmit c2 r3) else (c2, r3))"
  by (simp add: serve_def rx_part_def irq_ti_def Let_def case_prod_beta)

lemma irq_tx_parts:
  "irq_tx rd_icr c r r' = (let (c2, r2) = rx_part rd_icr c r; r3 = snd (rd_icr r2)
     in if irq_ti rd_icr c r then tx_log c2 r3 r' else [])"
  by (simp add: irq_tx_def rx_part_def irq_ti_def Let_def case_prod_beta)

text \<open>What the controller and the bus leave alone: the enables and the transmit buffer.\<close>

definition bus_frame :: "CAN_REGS_T \<Rightarrow> CAN_REGS_T \<Rightarrow> bool" where
  "bus_frame r r' \<longleftrightarrow> canier r' = canier r \<and> cantfi1 r' = cantfi1 r \<and> cantid1 r' = cantid1 r \<and>
     cantda1 r' = cantda1 r \<and> cantdb1 r' = cantdb1 r"

text \<open>
  What the driver relies on: the capture register shows a receive (transmit) event only while the
  receive (transmit buffer 1) enable is on. While it is read the controller goes on.
\<close>

definition icr_gated :: "icr_read \<Rightarrow> bool" where
  "icr_gated rd_icr \<longleftrightarrow> (\<forall>r.
     bus_frame r (snd (rd_icr r)) \<and>
     (icr_RI (fst (rd_icr r)) \<noteq> 0 \<longrightarrow> ier_RIE (canier r) \<noteq> 0) \<and>
     (icr_TI1 (fst (rd_icr r)) \<noteq> 0 \<longrightarrow> ier_TIE1 (canier r) \<noteq> 0))"

definition interrupt :: "icr_read \<Rightarrow> fine \<Rightarrow> fine" where
  "interrupt rd_icr s =
     (let c = f_cfg s; r = f_regs s; (c', r') = serve rd_icr c r
      in s\<lparr>f_cfg := c', f_regs := r',
           g_rcv := g_rcv s @ irq_rx rd_icr r,
           g_sub := g_sub s @ irq_tx rd_icr c r r',
           g_ovf := (g_ovf s \<or> irq_rx rd_icr r \<noteq> [] \<and> length (rxq c) = 255),
           g_race := (g_race s \<or> irq_ti rd_icr c r \<and> in_transmit (f_pc s))\<rparr>)"

inductive fine_step :: "fine \<Rightarrow> fine \<Rightarrow> bool" where
  fine_read: "fine_step s (call_read n s)" if "f_pc s = Idle"
| fine_write: "fine_step s (call_write buf n s)" if "f_pc s = Idle" "\<forall>i. length (Data (buf i)) = 8"
| fine_stmt: "fine_step s (stmt s)" if "f_pc s \<noteq> Idle"
| fine_irq: "fine_step s (interrupt rd_icr s)" if "icr_gated rd_icr"
| fine_bus: "fine_step s (s\<lparr>f_regs := r\<rparr>)" if "bus_frame (f_regs s) r"

inductive_cases fine_stepE: "fine_step s s'"

inductive fine_reachable :: "fine \<Rightarrow> bool" where
  start: "fine_reachable (fine_start c r)" if "cfg_ok c" "data_ok c" "txq c = []" "rxq c = []"
| step: "fine_reachable s'" if "fine_reachable s" "fine_step s s'"

subsection \<open>What the handler does to each ring\<close>

lemma icr_gatedD:
  assumes "icr_gated rd_icr" "rd_icr r = (i, r1)"
  shows "bus_frame r r1"
    "icr_RI i \<noteq> 0 \<longrightarrow> ier_RIE (canier r) \<noteq> 0" "icr_TI1 i \<noteq> 0 \<longrightarrow> ier_TIE1 (canier r) \<noteq> 0"
  using assms by (metis icr_gated_def fst_conv snd_conv)+

text \<open>
  The receive part stores at most one message, and only while the receive enable is on; it touches
  neither the transmit ring nor the enables nor the transmit buffer.
\<close>

lemma rx_part_cases:
  assumes "icr_gated rd_icr" "rx_part rd_icr c r = (c2, r2)"
  obtains "c2 = c" "bus_frame r r2" "irq_rx rd_icr r = []"
  | m where "c2 = c\<lparr>rb := rx_put m (rb c)\<rparr>" "bus_frame r r2" "irq_rx rd_icr r \<noteq> []"
      "ier_RIE (canier r) \<noteq> 0"
      "length (Data (rx (rb c) ! nat (rx_head (rb c)))) = 8 \<longrightarrow>
         length (Data m) = 8 \<and> irq_rx rd_icr r = [frame_of m]"
proof -
  obtain i r1 where 1: "rd_icr r = (i, r1)" by fastforce
  note g = icr_gatedD [OF assms(1) 1]
  show thesis
  proof (cases "icr_RI i = 0")
    case True
    with assms(2) 1 g that(1) show thesis by (simp add: rx_part_def irq_rx_def)
  next
    case False
    let ?m = "rx_store r1 (rx (rb c) ! nat (rx_head (rb c)))"
    have "c2 = c\<lparr>rb := rx_put ?m (rb c)\<rparr>" "bus_frame r r2"
      using assms(2) 1 g False by (auto simp: rx_part_def can_standard_receive_def Let_def bus_frame_def)
    then show thesis using False 1 g by (intro that(2) [of ?m]) (simp_all add: irq_rx_def)
  qed
qed

lemma rx_put_tx [simp]:
  "tx (rx_put m b) = tx b" "tx_head (rx_put m b) = tx_head b" "tx_tail (rx_put m b) = tx_tail b"
  "rx_tail (rx_put m b) = rx_tail b"
  by (simp_all add: rx_put_eq)

lemma rx_part_tx:
  assumes "icr_gated rd_icr" "rx_part rd_icr c r = (c2, r2)"
  shows "tx (rb c2) = tx (rb c) \<and> tx_head (rb c2) = tx_head (rb c) \<and> tx_tail (rb c2) = tx_tail (rb c) \<and>
    bus_frame r r2"
  using assms by (cases rule: rx_part_cases) simp_all

lemma transmit_rx [simp]:
  "rx (rb (fst (snd (can_standard_transmit c r)))) = rx (rb c)"
  "rx_head (rb (fst (snd (can_standard_transmit c r)))) = rx_head (rb c)"
  "rx_tail (rb (fst (snd (can_standard_transmit c r)))) = rx_tail (rb c)"
  "ier_RIE (canier (snd (snd (can_standard_transmit c r)))) = ier_RIE (canier r)"
  by (auto simp: can_standard_transmit_def Let_def tx_pop_eq tx_load_def)

subsection \<open>The receive side\<close>

text \<open>An index that may stand just past the end, before the statement that resets it.\<close>

definition wrapped :: "int \<Rightarrow> int" where
  "wrapped i = (if i \<ge> 256 then 0 else i)"

definition rx_pend :: "fine \<Rightarrow> CANMSG_T list" where
  "rx_pend s =
     (let b = f_rb s; q = ring_list (rx b) (wrapped (rx_tail b)) (rx_head b)
      in if f_pc s = R_inc then tl q else q)"

fun rx_masked :: "can_pc \<Rightarrow> bool" where
  "rx_masked p = (p \<in> {R_test, R_copy, R_inc, R_wrap, R_restore})"

definition rx_inv :: "fine \<Rightarrow> bool" where
  "rx_inv s \<longleftrightarrow> length (rx (f_rb s)) = 256 \<and> (\<forall>m \<in> set (rx (f_rb s)). length (Data m) = 8) \<and>
     0 \<le> rx_tail (f_rb s) \<and> rx_tail (f_rb s) \<le> 256 \<and> (rx_tail (f_rb s) = 256 \<longrightarrow> f_pc s = R_wrap) \<and>
     0 \<le> rx_head (f_rb s) \<and> rx_head (f_rb s) < 256 \<and>
     (rx_masked (f_pc s) \<longrightarrow> ier_RIE (canier (f_regs s)) = 0) \<and>
     (f_pc s \<in> {R_copy, R_inc} \<longrightarrow> rx_tail (f_rb s) \<noteq> rx_head (f_rb s)) \<and>
     (\<not> g_ovf s \<longrightarrow> g_rcv s = g_dlv s @ map frame_of (rx_pend s))"

text \<open>A step outside the read loop that leaves the receive ring and its logs alone.\<close>

lemma rx_inv_frame:
  assumes "rx_inv s" "rx (f_rb t) = rx (f_rb s)" "rx_head (f_rb t) = rx_head (f_rb s)"
    "rx_tail (f_rb t) = rx_tail (f_rb s)" "g_ovf t = g_ovf s" "g_rcv t = g_rcv s" "g_dlv t = g_dlv s" "\<not> in_read (f_pc s)"
    "f_pc t = f_pc s \<or> \<not> rx_masked (f_pc t)"
  shows "rx_inv t"
proof -
  have p: "rx_pend t = rx_pend s" using assms(2-4,8,9) by (auto simp: rx_pend_def Let_def)
  have pc: "\<not> rx_masked (f_pc t)" using assms(8,9) by auto
  then have "f_pc t \<notin> {R_copy, R_inc, R_wrap}" "f_pc s \<noteq> R_wrap" using assms(8) by auto
  with pc p assms(1-7) show ?thesis unfolding rx_inv_def by simp
qed

lemma read_stmt_rx_inv:
  assumes "rx_inv s" "in_read (f_pc s)"
  shows "rx_inv (read_stmt s)"
proof -
  let ?b = "f_rb s"
  have pop: "ring_list (rx ?b) (rx_tail ?b) (rx_head ?b) =
      rx ?b ! nat (rx_tail ?b) # ring_list (rx ?b) (ring_next 256 (rx_tail ?b)) (rx_head ?b)"
    if "f_pc s \<in> {R_copy, R_inc}"
    using ring_list_pop [of "rx ?b" "rx_tail ?b" "rx_head ?b"] assms(1) that
    by (auto simp: rx_inv_def ring_ok_def)
  have w: "wrapped (rx_tail ?b + 1) = ring_next 256 (rx_tail ?b)" by (simp add: wrapped_def ring_next_def)
  have n: "wrapped (rx_tail ?b) = rx_tail ?b" if "f_pc s \<noteq> R_wrap"
    using assms(1) that by (auto simp: rx_inv_def wrapped_def)
  show ?thesis
  proof (cases "f_pc s")
    case R_copy
    with assms(1) pop n show ?thesis by (auto simp: rx_inv_def read_stmt_def ier_stmt_def upd_defs rx_pend_def Let_def)
  next
    case R_inc
    with assms(1) pop n w show ?thesis by (auto simp: rx_inv_def read_stmt_def ier_stmt_def upd_defs rx_pend_def Let_def)
  next
    case R_wrap
    with assms(1) show ?thesis
      by (auto simp: rx_inv_def read_stmt_def ier_stmt_def upd_defs rx_pend_def Let_def wrapped_def)
  qed (use assms in \<open>auto simp: rx_inv_def read_stmt_def ier_stmt_def upd_defs rx_pend_def Let_def split: option.splits\<close>)
qed

lemma other_stmt_rx:
  assumes "\<not> in_read (f_pc s)"
  shows "rx (f_rb (stmt s)) = rx (f_rb s) \<and> rx_head (f_rb (stmt s)) = rx_head (f_rb s) \<and>
    rx_tail (f_rb (stmt s)) = rx_tail (f_rb s) \<and>
    g_ovf (stmt s) = g_ovf s \<and> g_rcv (stmt s) = g_rcv s \<and> g_dlv (stmt s) = g_dlv s \<and>
    \<not> rx_masked (f_pc (stmt s))"
  using assms
  by (cases "f_pc s") (simp_all add: stmt_def write_stmt_def transmit_stmt_def ier_stmt_def upd_defs tx_byte_def split: option.splits)

lemma stmt_rx_inv: "rx_inv s \<Longrightarrow> rx_inv (stmt s)"
  using read_stmt_rx_inv [of s] rx_inv_frame [of s "stmt s"] other_stmt_rx [of s]
  by (cases "in_read (f_pc s)") (auto simp: stmt_def)

lemma interrupt_rx_inv:
  assumes "rx_inv s" "icr_gated rd_icr"
  shows "rx_inv (interrupt rd_icr s)"
proof -
  let ?c = "f_cfg s" and ?r = "f_regs s"
  obtain c2 r2 where p: "rx_part rd_icr ?c ?r = (c2, r2)" by fastforce
  obtain i r3 where 3: "rd_icr r2 = (i, r3)" by fastforce
  have f3: "canier r3 = canier r2" using icr_gatedD(1) [OF assms(2) 3] by (simp add: bus_frame_def)
  define t where "t = interrupt rd_icr s"
  have t: "rx (f_rb t) = rx (rb c2)" "rx_head (f_rb t) = rx_head (rb c2)" "rx_tail (f_rb t) = rx_tail (rb c2)"
    "ier_RIE (canier (f_regs t)) = ier_RIE (canier r2)" "f_pc t = f_pc s" "g_dlv t = g_dlv s"
    "g_rcv t = g_rcv s @ irq_rx rd_icr ?r"
    "g_ovf t = (g_ovf s \<or> irq_rx rd_icr ?r \<noteq> [] \<and> length (rxq ?c) = 255)"
    using 3 f3 by (auto simp: t_def interrupt_def serve_parts p Let_def case_prod_beta)
  from assms(2) p have "rx_inv t"
  proof (cases rule: rx_part_cases)
    case 1
    then have "rx_pend t = rx_pend s" using t(1-3,5) by (simp add: rx_pend_def Let_def)
    with 1 assms(1) t show ?thesis by (simp add: rx_inv_def bus_frame_def)
  next
    case (2 m)
    then have pc: "\<not> rx_masked (f_pc s)" using assms(1) by (auto simp: rx_inv_def)
    then have ok: "ring_ok (rx (f_rb s)) (rx_tail (f_rb s)) (rx_head (f_rb s))" "length (rx (f_rb s)) = 256"
      "wrapped (rx_tail (f_rb s)) = rx_tail (f_rb s)"
      using assms(1) by (auto simp: rx_inv_def ring_ok_def wrapped_def)
    have "rx (f_rb s) ! nat (rx_head (f_rb s)) \<in> set (rx (f_rb s))"
      using ok by (intro nth_mem) (auto simp: ring_ok_def)
    then have m: "length (Data m) = 8" "irq_rx rd_icr ?r = [frame_of m]"
      using 2 assms(1) by (auto simp: rx_inv_def)
    have put: "rx_pend t = rx_pend s @ [m]" if "\<not> g_ovf t"
    proof -
      have "ring_used 256 (rx_tail (f_rb s)) (rx_head (f_rb s)) < 255"
        using that ring_used_range [OF ok(1)] ok(2) 2(3) t(8) by (simp add: rxq_def) linarith
      then show ?thesis
        using ring_list_put [OF ok(1), of m] ok 2(1) t(1-3,5) pc
        by (simp add: rx_pend_def rx_put_eq Let_def)
    qed
    have len: "length (rx (f_rb t)) = 256" "\<forall>m \<in> set (rx (f_rb t)). length (Data m) = 8"
      using assms(1) t(1) 2(1) m set_update_subset_insert [of "rx (f_rb s)" "nat (rx_head (f_rb s))" m]
      by (auto simp: rx_inv_def rx_put_eq)
    have "rx_tail (f_rb t) = rx_tail (f_rb s)" "rx_head (f_rb t) = ring_next 256 (rx_head (f_rb s))"
      "0 \<le> ring_next 256 (rx_head (f_rb s))" "ring_next 256 (rx_head (f_rb s)) < 256"
      using t(2,3) 2(1) ok by (simp_all add: rx_put_eq ring_next_def ring_ok_def)
    moreover have "\<not> g_ovf t \<longrightarrow> g_rcv t = g_dlv t @ map frame_of (rx_pend t)"
      using put t(6-8) m(2) assms(1) by (auto simp: rx_inv_def)
    moreover have "f_pc t \<notin> {R_copy, R_inc}" using pc t(5) by auto
    ultimately show ?thesis using len ok pc t(5) assms(1) unfolding rx_inv_def ring_ok_def by simp
  qed
  then show ?thesis by (simp add: t_def)
qed

lemma fine_step_rx_inv:
  assumes "fine_step s s'" "rx_inv s"
  shows "rx_inv s'"
  using assms(1)
proof cases
  case (fine_read n)
  show ?thesis
    by (rule rx_inv_frame [OF assms(2)]) (use fine_read in \<open>simp_all add: call_read_def\<close>)
next
  case (fine_write buf n)
  show ?thesis
    by (rule rx_inv_frame [OF assms(2)]) (use fine_write in \<open>simp_all add: call_write_def\<close>)
next
  case fine_stmt
  then show ?thesis using assms(2) by (simp add: stmt_rx_inv)
next
  case (fine_irq rd_icr)
  then show ?thesis using assms(2) by (simp add: interrupt_rx_inv)
next
  case (fine_bus r)
  then have "rx_pend s' = rx_pend s" by (simp add: rx_pend_def)
  with fine_bus show ?thesis using assms(2) by (simp add: rx_inv_def bus_frame_def)
qed

subsection \<open>The transmit side\<close>

definition tx_pend :: "fine \<Rightarrow> CANMSG_T list" where
  "tx_pend s = ring_list (tx (f_rb s)) (wrapped (tx_tail (f_rb s))) (wrapped (tx_head (f_rb s)))"

text \<open>Taken from the ring, loaded, and not yet requested.\<close>

definition in_flight :: "fine \<Rightarrow> can_frame list" where
  "in_flight s = (if f_pc s \<in> {T_wrap, T_tie, T_tr} then [tx_frame (f_regs s)] else [])"

text \<open>How much of message \<open>m\<close> the transmit buffer shows at each position of the routine.\<close>

fun loaded :: "can_pc \<Rightarrow> can_frame \<Rightarrow> CANMSG_T \<Rightarrow> bool" where
  "loaded T_rtr (dlc, rtr, ff, ident, bs) m = (dlc = DLC m)"
| "loaded T_ff (dlc, rtr, ff, ident, bs) m = (dlc = DLC m \<and> rtr = RTR m)"
| "loaded T_id (dlc, rtr, ff, ident, bs) m = (dlc = DLC m \<and> rtr = RTR m \<and> ff = FF m)"
| "loaded (T_data k) (dlc, rtr, ff, ident, bs) m =
     (k \<le> 7 \<and> dlc = DLC m \<and> rtr = RTR m \<and> ff = FF m \<and> ident = ucast (MsgID m) \<and> take k bs = take k (Data m))"
| "loaded T_stb f m = (f = frame_of m)"
| "loaded T_inc f m = (f = frame_of m)"
| "loaded p f m = True"

fun loading :: "can_pc \<Rightarrow> bool" where
  "loading (T_data k) = True"
| "loading p = (p \<in> {T_tbs, T_dlc, T_rtr, T_ff, T_id, T_stb, T_inc})"

fun tx_masked :: "can_pc \<Rightarrow> bool" where
  "tx_masked p = (p \<in> {W_test, W_put, W_inc, W_wrap, W_restore1})"

definition tx_inv :: "fine \<Rightarrow> bool" where
  "tx_inv s \<longleftrightarrow> length (tx (f_rb s)) = 256 \<and> (\<forall>m \<in> set (tx (f_rb s)). length (Data m) = 8) \<and>
     (\<forall>i. length (Data (f_in s i)) = 8) \<and>
     0 \<le> tx_tail (f_rb s) \<and> tx_tail (f_rb s) \<le> 256 \<and> (tx_tail (f_rb s) = 256 \<longrightarrow> f_pc s = T_wrap) \<and>
     0 \<le> tx_head (f_rb s) \<and> tx_head (f_rb s) \<le> 256 \<and> (tx_head (f_rb s) = 256 \<longrightarrow> f_pc s = W_wrap) \<and>
     (tx_masked (f_pc s) \<longrightarrow> ier_TIE1 (canier (f_regs s)) = 0) \<and>
     (f_pc s \<in> {W_put, W_inc} \<longrightarrow> ring_used 256 (tx_tail (f_rb s)) (tx_head (f_rb s)) < 255) \<and>
     (loading (f_pc s) \<longrightarrow> tx_tail (f_rb s) \<noteq> tx_head (f_rb s)) \<and>
     loaded (f_pc s) (tx_frame (f_regs s)) (cur_msg s) \<and>
     g_acc s = g_sub s @ in_flight s @ map frame_of (tx_pend s)"

text \<open>A step that leaves the transmit ring, its logs and buffer alone, and a masked enable.\<close>

lemma tx_inv_frame:
  assumes "tx_inv s" "tx (f_rb t) = tx (f_rb s)" "tx_head (f_rb t) = tx_head (f_rb s)"
    "tx_tail (f_rb t) = tx_tail (f_rb s)" "tx_masked (f_pc t) \<longrightarrow> ier_TIE1 (canier (f_regs t)) = ier_TIE1 (canier (f_regs s))"
    "tx_frame (f_regs t) = tx_frame (f_regs s)" "\<forall>i. length (Data (f_in t i)) = 8"
    "g_acc t = g_acc s" "g_sub t = g_sub s"
    "f_pc t = f_pc s \<or> \<not> in_transmit (f_pc s) \<and> \<not> in_transmit (f_pc t) \<and> \<not> tx_masked (f_pc s) \<and> \<not> tx_masked (f_pc t)"
  shows "tx_inv t"
proof -
  have p: "tx_pend t = tx_pend s" "cur_msg t = cur_msg s" using assms(2-4) by (simp_all add: tx_pend_def cur_msg_def)
  show ?thesis
  proof (cases "f_pc t = f_pc s")
    case True
    then have "in_flight t = in_flight s" using assms(6) by (simp add: in_flight_def)
    with True assms p show ?thesis unfolding tx_inv_def by simp
  next
    case False
    then have n: "\<not> in_transmit (f_pc s)" "\<not> in_transmit (f_pc t)" "\<not> tx_masked (f_pc s)" "\<not> tx_masked (f_pc t)"
      using assms(10) by auto
    have "\<not> loading p \<and> loaded p f m \<and> p \<notin> {T_wrap, T_tie, T_tr}" if "\<not> in_transmit p" for p f m
      using that by (cases p) auto
    with n have "in_flight t = []" "in_flight s = []" "\<not> loading (f_pc t)" "loaded (f_pc t) (tx_frame (f_regs t)) (cur_msg t)"
      "f_pc s \<noteq> T_wrap" "f_pc s \<noteq> W_wrap"
      by (auto simp: in_flight_def)
    with n assms p show ?thesis unfolding tx_inv_def by auto
  qed
qed

lemma ring_list_store_head:
  assumes "ring_ok xs tail head"
  shows "ring_list (xs[nat head := v]) tail head = ring_list xs tail head"
proof -
  have "(xs[nat head := v]) ! ring_idx (int (length xs)) tail k = xs ! ring_idx (int (length xs)) tail k"
    if "k < nat (ring_used (int (length xs)) tail head)" for k
    using ring_idx_not_head [OF assms that] by simp
  then show ?thesis by (simp add: ring_list_def Let_def)
qed

lemma all_set_update: "\<forall>x \<in> set xs. P x \<Longrightarrow> P v \<Longrightarrow> \<forall>x \<in> set (xs[i := v]). P x"
  using set_update_subset_insert [of xs i v] by blast

lemma tx_inv_ring:
  assumes "tx_inv s" "f_pc s \<notin> {W_wrap, T_wrap}"
  shows "ring_ok (tx (f_rb s)) (tx_tail (f_rb s)) (tx_head (f_rb s))" "length (tx (f_rb s)) = 256"
    "wrapped (tx_tail (f_rb s)) = tx_tail (f_rb s)" "wrapped (tx_head (f_rb s)) = tx_head (f_rb s)"
  using assms by (auto simp: tx_inv_def ring_ok_def wrapped_def)

lemma wrapped_next: "wrapped (i + 1) = ring_next 256 i"
  by (simp add: wrapped_def ring_next_def)

lemma tx_frame_ier [simp]: "tx_frame (r\<lparr>canier := i\<rparr>) = tx_frame r" "tx_frame (r\<lparr>cancmr := j\<rparr>) = tx_frame r"
  by (simp_all add: tx_frame_def)

lemma write_stmt_tx_inv:
  assumes "tx_inv s" "\<not> in_read (f_pc s)" "\<not> in_transmit (f_pc s)"
  shows "tx_inv (write_stmt s)"
proof (cases "f_pc s")
  case W_test
  then have "f_pc s \<notin> {W_wrap, T_wrap}" by simp
  note ring = tx_inv_ring [OF assms(1) this]
  have "can_get_free_tx_count (f_cfg s) > 0 \<Longrightarrow> ring_used 256 (tx_tail (f_rb s)) (tx_head (f_rb s)) < 255"
    by (simp add: can_get_free_tx_count_def ring_used_def Let_def split: if_splits)
  with W_test assms(1) show ?thesis
    by (simp add: tx_inv_def write_stmt_def ier_stmt_def upd_defs in_flight_def tx_pend_def)
next
  case W_put
  then have "f_pc s \<notin> {W_wrap, T_wrap}" by simp
  note ring = tx_inv_ring [OF assms(1) this]
  have "\<forall>m \<in> set ((tx (f_rb s))[nat (tx_head (f_rb s)) := f_in s (f_pos s)]). length (Data m) = 8"
    using assms(1) by (intro all_set_update) (simp_all add: tx_inv_def)
  with W_put assms(1) ring show ?thesis
    by (simp add: tx_inv_def write_stmt_def ier_stmt_def upd_defs in_flight_def tx_pend_def ring_list_store_head)
next
  case W_inc
  then have "f_pc s \<notin> {W_wrap, T_wrap}" by simp
  note ring = tx_inv_ring [OF assms(1) this]
  have "ring_list (tx (f_rb s)) (tx_tail (f_rb s)) (ring_next 256 (tx_head (f_rb s))) =
      ring_list (tx (f_rb s)) (tx_tail (f_rb s)) (tx_head (f_rb s)) @ [tx (f_rb s) ! nat (tx_head (f_rb s))]"
    using ring_list_put [OF ring(1), of "tx (f_rb s) ! nat (tx_head (f_rb s))"] ring W_inc assms(1)
    by (simp add: tx_inv_def)
  with W_inc assms(1) ring show ?thesis
    by (simp add: tx_inv_def write_stmt_def ier_stmt_def upd_defs in_flight_def tx_pend_def wrapped_next ring_ok_def)
next
  case W_wrap
  with assms(1) show ?thesis
    by (auto simp: tx_inv_def write_stmt_def ier_stmt_def upd_defs in_flight_def tx_pend_def wrapped_def)
qed (use assms in \<open>simp_all add: tx_inv_def write_stmt_def ier_stmt_def upd_defs in_flight_def tx_pend_def split: option.splits\<close>)

lemma tx_frame_byte:
  "k < 8 \<Longrightarrow> tx_frame (tx_byte k v r) = (case tx_frame r of (a, b, c, d, bs) \<Rightarrow> (a, b, c, d, bs[k := v]))"
  by (auto simp: tx_byte_def tx_frame_def less_Suc_eq numeral_eq_Suc)

lemma loaded_byte:
  assumes "loaded (T_data k) f m" "length (Data m) = 8" "length (snd (snd (snd (snd f)))) = 8"
    "f' = (case f of (a, b, c, d, bs) \<Rightarrow> (a, b, c, d, bs[k := Data m ! k]))"
  shows "loaded (if k < 7 then T_data (Suc k) else T_stb) f' m"
proof -
  obtain a b c d bs where f: "f = (a, b, c, d, bs)" by (metis prod.collapse)
  have k: "k \<le> 7" "take k bs = take k (Data m)" "length bs = 8" using assms(1,3) f by simp_all
  then have "take (Suc k) (bs[k := Data m ! k]) = take (Suc k) (Data m)"
    using assms(2) by (simp add: take_Suc_conv_app_nth)
  moreover have "k = 7 \<Longrightarrow> bs[k := Data m ! k] = Data m"
    using calculation assms(2) k(3) by simp
  ultimately show ?thesis using k assms(1,4) f by (auto simp: frame_of_def)
qed

lemma cur_msg_upd [simp]: "cur_msg (s\<lparr>f_regs := r\<rparr>) = cur_msg s" "cur_msg (s\<lparr>f_pc := p\<rparr>) = cur_msg s"
  by (simp_all add: cur_msg_def)

text \<open>A statement of the routine that writes one field of the transmit buffer.\<close>

lemma load_stmt_tx_inv:
  assumes "tx_inv s" "loading (f_pc s)" "loading p" "canier (f (f_regs s)) = canier (f_regs s)"
    "loaded p (tx_frame (f (f_regs s))) (cur_msg s)"
  shows "tx_inv (at_pc p (on_regs f s))"
proof -
  have "p \<notin> {T_wrap, T_tie, T_tr, W_put, W_inc, W_wrap}" "f_pc s \<notin> {T_wrap, T_tie, T_tr, W_wrap}"
    "\<not> tx_masked p"
    using assms(2,3) by (auto simp: loading.simps split: if_splits)
  then show ?thesis using assms unfolding tx_inv_def
    by (simp add: upd_defs in_flight_def tx_pend_def)
qed

lemma transmit_stmt_tx_inv:
  assumes "tx_inv s" "in_transmit (f_pc s)"
  shows "tx_inv (transmit_stmt s)"
proof (cases "f_pc s")
  case (T_data k)
  have l: "loaded (T_data k) (tx_frame (f_regs s)) (cur_msg s)" using assms(1) T_data by (simp add: tx_inv_def)
  have ring: "ring_ok (tx (f_rb s)) (tx_tail (f_rb s)) (tx_head (f_rb s))" "length (tx (f_rb s)) = 256"
    using tx_inv_ring [OF assms(1)] T_data by simp_all
  then have "cur_msg s \<in> set (tx (f_rb s))" unfolding cur_msg_def by (intro nth_mem) (auto simp: ring_ok_def)
  then have d: "length (Data (cur_msg s)) = 8" using assms(1) by (simp add: tx_inv_def)
  have k: "k < 8" using l by (cases "tx_frame (f_regs s)") (simp split: prod.splits)
  have "loaded (if k < 7 then T_data (Suc k) else T_stb)
      (tx_frame (tx_byte k (Data (cur_msg s) ! k) (f_regs s))) (cur_msg s)"
    by (rule loaded_byte [OF l d _ tx_frame_byte [OF k]]) (simp add: tx_frame_def)
  then have "tx_inv (at_pc (if k < 7 then T_data (Suc k) else T_stb) (on_regs (tx_byte k (Data (cur_msg s) ! k)) s))"
    using T_data by (intro load_stmt_tx_inv [OF assms(1)]) (simp_all add: tx_byte_def)
  then show ?thesis using T_data unfolding transmit_stmt_def by (simp only: can_pc.case)
next
  case T_inc
  then have "f_pc s \<notin> {W_wrap, T_wrap}" by simp
  note ring = tx_inv_ring [OF assms(1) this]
  have "tx_tail (f_rb s) \<noteq> tx_head (f_rb s)" using assms(1) T_inc by (simp add: tx_inv_def)
  then have "ring_list (tx (f_rb s)) (tx_tail (f_rb s)) (tx_head (f_rb s)) =
      cur_msg s # ring_list (tx (f_rb s)) (ring_next 256 (tx_tail (f_rb s))) (tx_head (f_rb s))"
    using ring_list_pop [OF ring(1)] ring(2) by (simp add: cur_msg_def)
  with T_inc assms(1) ring show ?thesis
    by (simp add: tx_inv_def transmit_stmt_def ier_stmt_def upd_defs in_flight_def tx_pend_def wrapped_next ring_ok_def)
next
  case T_wrap
  with assms(1) show ?thesis
    by (auto simp: tx_inv_def transmit_stmt_def ier_stmt_def upd_defs in_flight_def tx_pend_def wrapped_def)
next
  case T_dlc
  then show ?thesis
    by (simp add: transmit_stmt_def) (intro load_stmt_tx_inv [OF assms(1)]; simp add: tx_frame_def)
next
  case T_rtr
  then show ?thesis using assms(1)
    by (simp add: transmit_stmt_def) (intro load_stmt_tx_inv [OF assms(1)]; simp add: tx_frame_def tx_inv_def)
next
  case T_ff
  then show ?thesis using assms(1)
    by (simp add: transmit_stmt_def) (intro load_stmt_tx_inv [OF assms(1)]; simp add: tx_frame_def tx_inv_def)
next
  case T_id
  then show ?thesis using assms(1)
    by (simp add: transmit_stmt_def) (intro load_stmt_tx_inv [OF assms(1)]; simp add: tx_frame_def tx_inv_def)
next
  case T_stb
  then show ?thesis using assms(1)
    by (simp add: transmit_stmt_def) (intro load_stmt_tx_inv [OF assms(1)]; simp add: tx_inv_def)
qed (use assms in \<open>auto simp: tx_inv_def transmit_stmt_def ier_stmt_def upd_defs in_flight_def tx_pend_def split: option.splits\<close>)

lemma interrupt_no_ti_tx_inv:
  assumes "tx_inv s" "icr_gated rd_icr" "\<not> irq_ti rd_icr (f_cfg s) (f_regs s)"
  shows "tx_inv (interrupt rd_icr s)"
proof -
  obtain c2 r2 where p: "rx_part rd_icr (f_cfg s) (f_regs s) = (c2, r2)" by fastforce
  obtain i r3 where 3: "rd_icr r2 = (i, r3)" by fastforce
  have tx: "tx (rb c2) = tx (f_rb s)" "tx_head (rb c2) = tx_head (f_rb s)" "tx_tail (rb c2) = tx_tail (f_rb s)"
    and f: "bus_frame (f_regs s) r2"
    using rx_part_tx [OF assms(2) p] by simp_all
  have r3: "canier r3 = canier (f_regs s)" "tx_frame r3 = tx_frame (f_regs s)"
    using f icr_gatedD(1) [OF assms(2) 3] by (simp_all add: bus_frame_def tx_frame_def)
  have "interrupt rd_icr s = s\<lparr>f_cfg := c2, f_regs := r3, g_rcv := g_rcv s @ irq_rx rd_icr (f_regs s),
      g_ovf := (g_ovf s \<or> irq_rx rd_icr (f_regs s) \<noteq> [] \<and> length (rxq (f_cfg s)) = 255)\<rparr>"
    using assms(3) p 3 by (simp add: interrupt_def serve_parts irq_tx_parts Let_def)
  then show ?thesis
    using assms(1) tx r3 by (intro tx_inv_frame [OF assms(1)]) (simp_all add: tx_inv_def)
qed

lemma interrupt_ti_tx_inv:
  assumes "tx_inv s" "icr_gated rd_icr" "irq_ti rd_icr (f_cfg s) (f_regs s)" "\<not> in_transmit (f_pc s)"
  shows "tx_inv (interrupt rd_icr s)"
proof -
  let ?b = "f_rb s"
  obtain c2 r2 where p: "rx_part rd_icr (f_cfg s) (f_regs s) = (c2, r2)" by fastforce
  obtain i r3 where 3: "rd_icr r2 = (i, r3)" by fastforce
  have tx: "tx (rb c2) = tx ?b" "tx_head (rb c2) = tx_head ?b" "tx_tail (rb c2) = tx_tail ?b"
    and f: "bus_frame (f_regs s) r2"
    using rx_part_tx [OF assms(2) p] by simp_all
  have r3: "canier r3 = canier (f_regs s)" using f icr_gatedD(1) [OF assms(2) 3] by (simp add: bus_frame_def)
  have "ier_TIE1 (canier (f_regs s)) \<noteq> 0"
    using assms(3) icr_gatedD(3) [OF assms(2) 3] f p 3 by (simp add: irq_ti_def bus_frame_def)
  then have m: "\<not> tx_masked (f_pc s)" using assms(1) by (auto simp: tx_inv_def)
  have pc: "\<not> loading (f_pc s)" "loaded (f_pc s) g v" "f_pc s \<notin> {T_wrap, T_tie, T_tr, W_put, W_inc, W_wrap}" for g v
    using assms(4) m by (cases "f_pc s", simp_all)+
  note ring = tx_inv_ring [OF assms(1)]
  obtain c4 r4 where 4: "can_standard_transmit c2 r3 = ((), c4, r4)" by (metis prod.collapse unit.exhaust)
  define t where "t = interrupt rd_icr s"
  have t: "f_cfg t = c4" "f_regs t = r4" "f_pc t = f_pc s" "f_in t = f_in s" "g_acc t = g_acc s"
    "g_sub t = g_sub s @ tx_log c2 r3 r4"
    using p 3 4 assms(3) by (simp_all add: t_def interrupt_def serve_parts irq_tx_parts Let_def)
  have "tx_inv t"
  proof (cases "submits c2 r3")
    case False
    then have "tx (rb c4) = tx ?b" "tx_head (rb c4) = tx_head ?b" "tx_tail (rb c4) = tx_tail ?b"
      using 4 tx by (auto simp: can_standard_transmit_def submits_def Let_def split: if_splits)
    moreover have "tx_log c2 r3 r4 = []" using False by (simp add: tx_log_def)
    ultimately show ?thesis using assms(1) pc m t
      by (simp add: tx_inv_def in_flight_def tx_pend_def)
  next
    case True
    let ?m = "tx ?b ! nat (tx_tail ?b)"
    have ne: "tx_tail ?b \<noteq> tx_head ?b" using True tx by (auto simp: submits_def)
    have ok: "ring_ok (tx ?b) (tx_tail ?b) (tx_head ?b)" "length (tx ?b) = 256"
      "wrapped (tx_tail ?b) = tx_tail ?b" "wrapped (tx_head ?b) = tx_head ?b"
      using ring pc(3) by simp_all
    have c4: "tx (rb c4) = tx ?b" "tx_head (rb c4) = tx_head ?b" "tx_tail (rb c4) = ring_next 256 (tx_tail ?b)"
      "r4 = tx_started ?m r3"
      using 4 tx True by (auto simp: can_standard_transmit_def submits_def Let_def tx_pop_eq tx_started_def tx_load_def)
    have "?m \<in> set (tx ?b)" using ok by (intro nth_mem) (auto simp: ring_ok_def)
    then have "tx_log c2 r3 r4 = [frame_of ?m]" using assms(1) True c4(4) by (simp add: tx_log_def tx_inv_def)
    moreover have "tx_pend s = ?m # tx_pend t"
      using ring_list_pop [OF ok(1) ne] ok c4 t(1) by (simp add: tx_pend_def) (simp add: wrapped_def ring_next_def ring_ok_def)
    moreover have "0 \<le> ring_next 256 (tx_tail ?b)" "ring_next 256 (tx_tail ?b) < 256"
      using ok by (simp_all add: ring_next_def ring_ok_def)
    moreover have "in_flight t = []" "in_flight s = []" using pc(3) t(3) by (simp_all add: in_flight_def)
    ultimately show ?thesis using assms(1) pc m t c4(1-3) by (simp add: tx_inv_def)
  qed
  then show ?thesis by (simp add: t_def)
qed

lemma read_stmt_tx:
  assumes "in_read (f_pc s)"
  shows "tx (f_rb (read_stmt s)) = tx (f_rb s) \<and> tx_head (f_rb (read_stmt s)) = tx_head (f_rb s) \<and>
    tx_tail (f_rb (read_stmt s)) = tx_tail (f_rb s) \<and> f_in (read_stmt s) = f_in s \<and>
    tx_frame (f_regs (read_stmt s)) = tx_frame (f_regs s) \<and>
    g_acc (read_stmt s) = g_acc s \<and> g_sub (read_stmt s) = g_sub s \<and>
    \<not> in_transmit (f_pc (read_stmt s)) \<and> \<not> tx_masked (f_pc (read_stmt s)) \<and>
    \<not> in_transmit (f_pc s) \<and> \<not> tx_masked (f_pc s)"
  using assms by (cases "f_pc s") (simp_all add: read_stmt_def ier_stmt_def upd_defs Let_def split: option.splits)

lemma stmt_tx_inv:
  assumes "tx_inv s"
  shows "tx_inv (stmt s)"
proof (cases "in_read (f_pc s)")
  case True
  then have "tx_inv (read_stmt s)"
    using read_stmt_tx [OF True] assms by (intro tx_inv_frame [OF assms]) (simp_all add: tx_inv_def)
  with True show ?thesis by (simp add: stmt_def)
next
  case False
  then show ?thesis using assms write_stmt_tx_inv [of s] transmit_stmt_tx_inv [of s] by (simp add: stmt_def)
qed

lemma stmt_race [simp]: "g_race (stmt s) = g_race s"
  by (cases "f_pc s") (simp_all add: stmt_def read_stmt_def write_stmt_def transmit_stmt_def ier_stmt_def upd_defs Let_def split: option.splits)

lemma call_tx_inv:
  assumes "tx_inv s" "f_pc s = Idle"
  shows "tx_inv (call_read n s)" "\<forall>i. length (Data (buf i)) = 8 \<Longrightarrow> tx_inv (call_write buf n s)"
proof -
  show "tx_inv (call_read n s)"
    by (rule tx_inv_frame [OF assms(1)]) (use assms in \<open>auto simp: call_read_def tx_inv_def\<close>)
  show "tx_inv (call_write buf n s)" if "\<forall>i. length (Data (buf i)) = 8"
    by (rule tx_inv_frame [OF assms(1)]) (use assms that in \<open>auto simp: call_write_def\<close>)
qed

lemma bus_tx_inv: "tx_inv s \<Longrightarrow> bus_frame (f_regs s) r \<Longrightarrow> tx_inv (s\<lparr>f_regs := r\<rparr>)"
  by (rule tx_inv_frame, assumption) (simp_all add: bus_frame_def tx_frame_def tx_inv_def)

lemma fine_step_tx_inv:
  assumes "fine_step s s'" "g_race s \<or> tx_inv s"
  shows "g_race s' \<or> tx_inv s'"
  using assms(1)
proof cases
  case (fine_read n)
  then show ?thesis using assms(2) call_tx_inv(1) [of s n] by (auto simp: call_read_def)
next
  case (fine_write buf n)
  then show ?thesis using assms(2) call_tx_inv(2) [of s buf n] by (auto simp: call_write_def)
next
  case fine_stmt
  then show ?thesis using assms(2) stmt_tx_inv [of s] by auto
next
  case (fine_irq rd_icr)
  have "g_race s' = (g_race s \<or> irq_ti rd_icr (f_cfg s) (f_regs s) \<and> in_transmit (f_pc s))"
    using fine_irq(1) by (simp add: interrupt_def Let_def case_prod_beta)
  with fine_irq show ?thesis
    using assms(2) interrupt_no_ti_tx_inv [of s rd_icr] interrupt_ti_tx_inv [of s rd_icr] by auto
next
  case (fine_bus r)
  then show ?thesis using assms(2) bus_tx_inv [of s r] by auto
qed

lemma fine_reachable_inv: "fine_reachable s \<Longrightarrow> rx_inv s \<and> (g_race s \<or> tx_inv s)"
proof (induction rule: fine_reachable.induct)
  case (start c r)
  then have "wrapped (tx_tail (rb c)) = tx_tail (rb c)" "wrapped (tx_head (rb c)) = tx_head (rb c)"
    "wrapped (rx_tail (rb c)) = rx_tail (rb c)"
    by (simp_all add: cfg_ok_def ring_ok_def wrapped_def)
  with start show ?case
    by (auto simp: rx_inv_def tx_inv_def fine_start_def cfg_ok_def ring_ok_def data_ok_def rx_pend_def
        tx_pend_def in_flight_def rxq_def txq_def msg0_def Let_def)
next
  case (step s s')
  then show ?case using fine_step_rx_inv fine_step_tx_inv by blast
qed

section \<open>Properties\<close>

text \<open>
  C2 Whatever the interleaving of the statements of can_read and can_write with the interrupt
  handler, with calls and with bus activity: unless a frame arrived on a full ring, the frames
  received are those delivered followed by those still in the receive ring; and unless a transmit
  interrupt was served while can_write was inside can_standard_transmit, the frames accepted are
  those requested for transmission, the one just being loaded, and those still in the transmit ring,
  in order. Between calls the rings are the queues of the device structure.
\<close>
theorem can_interleaved_no_loss:
  assumes "fine_reachable s"
  shows "(\<not> g_ovf s \<longrightarrow> g_rcv s = g_dlv s @ map frame_of (rx_pend s)) \<and>
    (\<not> g_race s \<longrightarrow> g_acc s = g_sub s @ in_flight s @ map frame_of (tx_pend s)) \<and>
    (f_pc s = Idle \<longrightarrow> rx_pend s = rxq (f_cfg s) \<and> in_flight s = [] \<and>
       (\<not> g_race s \<longrightarrow> tx_pend s = txq (f_cfg s)))"
proof -
  note inv = fine_reachable_inv [OF assms]
  have "rx_pend s = rxq (f_cfg s)" if "f_pc s = Idle"
    using inv that by (auto simp: rx_inv_def rx_pend_def rxq_def wrapped_def Let_def)
  moreover have "tx_pend s = txq (f_cfg s)" if "f_pc s = Idle" "\<not> g_race s"
    using inv that tx_inv_ring [of s] by (simp add: tx_pend_def txq_def)
  moreover have "\<not> g_ovf s \<longrightarrow> g_rcv s = g_dlv s @ map frame_of (rx_pend s)"
    using inv unfolding rx_inv_def by simp
  moreover have "\<not> g_race s \<longrightarrow> g_acc s = g_sub s @ in_flight s @ map frame_of (tx_pend s)"
    using inv unfolding tx_inv_def by blast
  moreover have "f_pc s = Idle \<longrightarrow> in_flight s = []" by (simp add: in_flight_def)
  ultimately show ?thesis by blast
qed

subsection \<open>Concrete executions\<close>

primrec run :: "nat \<Rightarrow> fine \<Rightarrow> fine" where
  "run 0 s = s"
| "run (Suc k) s = (if f_pc s = Idle then s else run k (stmt s))"

lemma run_reachable: "fine_reachable s \<Longrightarrow> fine_reachable (run k s)"
  by (induction k arbitrary: s) (auto intro: fine_reachable.step fine_step.fine_stmt)

text \<open>
  The first \<open>can_write\<close> of one message after opening, up to the first store to the transmit
  buffer: the ring holds the message, the enable is on and the buffer is free.
\<close>

lemma write_reaches_load:
  assumes "f_pc s = Idle" "init (f_cfg s)" "tx_tail (f_rb s) = 0" "tx_head (f_rb s) = 0"
    "sr_TBS1 (cansr (f_regs s)) \<noteq> 0" "length (tx (f_rb s)) = 256"
  shows "f_pc (run 22 (call_write buf 1 s)) = T_dlc \<and>
    f_rb (run 22 (call_write buf 1 s)) = (f_rb s)\<lparr>tx := (tx (f_rb s))[0 := buf 0], tx_head := 1\<rparr> \<and>
    cansr (f_regs (run 22 (call_write buf 1 s))) = cansr (f_regs s) \<and>
    ier_TIE1 (canier (f_regs (run 22 (call_write buf 1 s)))) = ier_TIE1 (canier (f_regs s)) \<and>
    g_acc (run 22 (call_write buf 1 s)) = g_acc s @ [frame_of (buf 0)] \<and>
    g_race (run 22 (call_write buf 1 s)) = g_race s"
  using assms
  by (simp add: call_write_def eval_nat_numeral stmt_def write_stmt_def transmit_stmt_def ier_stmt_def upd_defs
      can_get_free_tx_count_def Let_def)

definition opened_free :: fine where
  "opened_free = fine_start (opened_cfg Can1cfg cfg0)
     ((opened_regs regs0)\<lparr>cansr := (cansr regs0)\<lparr>sr_TBS1 := 1\<rparr>\<rparr>)"

definition racing :: fine where
  "racing = run 22 (call_write (\<lambda>_. msg0) 1 opened_free)"

lemma racing_simps:
  "fine_reachable racing" "f_pc racing = T_dlc" "\<not> g_race racing" "length (tx_pend racing) = 1"
  "sr_TBS1 (cansr (f_regs racing)) \<noteq> 0" "ier_TIE1 (canier (f_regs racing)) \<noteq> 0"
  "g_acc racing = [frame_of msg0]"
proof -
  have s: "f_pc opened_free = Idle" "init (f_cfg opened_free)" "tx_tail (f_rb opened_free) = 0"
    "tx_head (f_rb opened_free) = 0" "sr_TBS1 (cansr (f_regs opened_free)) = 1" "length (tx (f_rb opened_free)) = 256"
    "ier_TIE1 (canier (f_regs opened_free)) = 1" "g_acc opened_free = []" "\<not> g_race opened_free"
    by (simp_all add: opened_free_def fine_start_def opened_cfg_def reset_rings_def cfg0_def opened_regs_def
        set_RM_def set_irq_enable_def)
  have "data_ok (opened_cfg Can1cfg cfg0)"
    by (simp add: data_ok_def opened_cfg_def reset_rings_def cfg0_def msg0_def)
  then have "fine_reachable opened_free"
    unfolding opened_free_def by (intro fine_reachable.start) simp_all
  moreover have "fine_step opened_free (call_write (\<lambda>_. msg0) 1 opened_free)"
    using s(1) by (intro fine_step.fine_write) (simp_all add: msg0_def)
  ultimately show "fine_reachable racing" unfolding racing_def by (intro run_reachable) (rule fine_reachable.step)
  note l = write_reaches_load [of opened_free "\<lambda>_. msg0"]
  show "f_pc racing = T_dlc" "\<not> g_race racing" "sr_TBS1 (cansr (f_regs racing)) \<noteq> 0"
    "ier_TIE1 (canier (f_regs racing)) \<noteq> 0" "g_acc racing = [frame_of msg0]"
    unfolding racing_def using l s by simp_all
  show "length (tx_pend racing) = 1"
    unfolding racing_def tx_pend_def using l s by (simp add: wrapped_def ring_used_def)
qed

theorem can_interleaved_no_loss_witness:
  "\<exists>s. fine_reachable s \<and> f_pc s = T_dlc \<and>
     g_sub s @ in_flight s @ map frame_of (tx_pend s) = [frame_of msg0]"
  using can_interleaved_no_loss [OF racing_simps(1)] racing_simps by auto

end
