(* ===== verification/Can_Hw.thy ===== *)
theory Can_Hw
  imports Can_Race
begin

text \<open>
  The interleavings of \<open>Can_Race\<close> on the controller as its manual and the comments of
  \<^verbatim>\<open>drivers/can.c\<close> describe it: reading the capture register clears the transmit event, a new event
  means that transmit buffer 1 has become free, and a request makes the buffer busy at once.

  The handler reads the register twice, so it acts on a transmit event only if that comes between the
  two reads. It follows that only one place of \<open>can_write\<close> is open to a race: between the test that the
  ring is not empty and the test that the buffer is free. The first theorem says that no frame is lost,
  doubled or reordered as long as no frame is requested and sent completely between these two tests, the
  second what happens if one is.
\<close>

section \<open>The controller\<close>

text \<open>
  A read of the capture register, with what the controller does until the next access: the bit shown is
  the bit latched; it is cleared, and latched again only when a buffer that was busy becomes free; a free
  buffer stays free, since the program requests nothing meanwhile.
\<close>

definition icr_clears :: "icr_read \<Rightarrow> bool" where
  "icr_clears rd_icr \<longleftrightarrow> icr_gated rd_icr \<and> (\<forall>r.
     cancmr (snd (rd_icr r)) = cancmr r \<and>
     (icr_TI1 (fst (rd_icr r)) \<noteq> 0 \<longrightarrow> icr_TI1 (canicr r) \<noteq> 0) \<and>
     (sr_TBS1 (cansr r) \<noteq> 0 \<longrightarrow>
        sr_TBS1 (cansr (snd (rd_icr r))) \<noteq> 0 \<and> icr_TI1 (canicr (snd (rd_icr r))) = 0))"

text \<open>A transmission request is taken: the buffer is busy.\<close>

definition took :: "CAN_REGS_T \<Rightarrow> CAN_REGS_T" where
  "took r = (if cmr_TR (cancmr r) \<noteq> 0
     then r\<lparr>cansr := (cansr r)\<lparr>sr_TBS1 := 0\<rparr>, cancmr := (cancmr r)\<lparr>cmr_TR := 0\<rparr>\<rparr> else r)"

text \<open>
  The steps of \<open>fine_step\<close> on this controller. The flag of the state is set while the program stands
  between its two tests and the handler has requested a frame there; \<open>timely\<close> says that such a frame is
  not sent before the program goes on.
\<close>

inductive ctl_step :: "bool \<Rightarrow> fine \<times> bool \<Rightarrow> fine \<times> bool \<Rightarrow> bool" for timely where
  ctl_read: "ctl_step timely (s, b) (call_read n s, False)" if "f_pc s = Idle"
| ctl_write: "ctl_step timely (s, b) (call_write buf n s, False)"
    if "f_pc s = Idle" "\<forall>i. length (Data (buf i)) = 8"
| ctl_stmt: "ctl_step timely (s, b) (on_regs took (stmt s), False)" if "f_pc s \<noteq> Idle"
| ctl_irq: "ctl_step timely (s, b) (t, b')"
    if "icr_clears rd_icr" "t = on_regs took (interrupt rd_icr s)"
      "b' = (f_pc s = T_tbs \<and> (b \<or> g_sub t \<noteq> g_sub s))"
      "timely \<and> b \<longrightarrow> sr_TBS1 (cansr (f_regs t)) = 0"
| ctl_bus: "ctl_step timely (s, b) (s\<lparr>f_regs := r\<rparr>, b)"
    if "bus_frame (f_regs s) r" "cancmr r = cancmr (f_regs s)"
      "sr_TBS1 (cansr (f_regs s)) \<noteq> 0 \<longrightarrow> sr_TBS1 (cansr r) \<noteq> 0"
      "timely \<and> b \<longrightarrow> sr_TBS1 (cansr r) = 0"

inductive ctl_reachable :: "bool \<Rightarrow> fine \<times> bool \<Rightarrow> bool" for timely where
  start: "ctl_reachable timely (fine_start c r, False)"
    if "cfg_ok c" "data_ok c" "txq c = []" "rxq c = []" "cmr_TR (cancmr r) = 0"
| step: "ctl_reachable timely y" if "ctl_reachable timely x" "ctl_step timely x y"

subsection \<open>Executions of the general controller\<close>

lemma took_frame [simp]: "bus_frame r (took r)" "cmr_TR (cancmr (took r)) = 0"
  by (simp_all add: bus_frame_def took_def)

lemma took_id: "cmr_TR (cancmr r) = 0 \<Longrightarrow> took r = r"
  by (simp add: took_def)

lemma took_busy: "cmr_TR (cancmr r) \<noteq> 0 \<Longrightarrow> sr_TBS1 (cansr (took r)) = 0"
  by (simp add: took_def)

lemma on_regs_simps [simp]:
  "f_cfg (on_regs f s) = f_cfg s" "f_regs (on_regs f s) = f (f_regs s)" "f_pc (on_regs f s) = f_pc s"
  "g_acc (on_regs f s) = g_acc s" "g_sub (on_regs f s) = g_sub s" "g_race (on_regs f s) = g_race s"
  "f_in (on_regs f s) = f_in s"
  by (simp_all add: on_regs_def)

lemma on_regs_id: "f (f_regs s) = f_regs s \<Longrightarrow> on_regs f s = s"
  by (simp add: on_regs_def)

lemma fine_took: "fine_step s (on_regs took s)"
  unfolding on_regs_def by (rule fine_step.fine_bus) simp

lemma ctl_fine: "ctl_step timely x y \<Longrightarrow> fine_step\<^sup>*\<^sup>* (fst x) (fst y)"
proof (induction rule: ctl_step.induct)
  case (ctl_stmt s b)
  then show ?case using fine_step.fine_stmt [of s] fine_took [of "stmt s"] by (simp add: rtranclp.rtrancl_into_rtrancl)
next
  case (ctl_irq rd_icr t s b' b)
  then show ?case using fine_step.fine_irq [of rd_icr s] fine_took [of "interrupt rd_icr s"]
    by (simp add: icr_clears_def rtranclp.rtrancl_into_rtrancl)
qed (auto intro: fine_step.intros)

lemma fine_reachable_star: "fine_step\<^sup>*\<^sup>* s t \<Longrightarrow> fine_reachable s \<Longrightarrow> fine_reachable t"
  by (induction rule: rtranclp_induct) (auto intro: fine_reachable.step)

lemma ctl_fine_reachable: "ctl_reachable timely x \<Longrightarrow> fine_reachable (fst x)"
  by (induction rule: ctl_reachable.induct)
    (auto intro: fine_reachable.start fine_reachable_star dest: ctl_fine)

section \<open>No loss\<close>

text \<open>The positions after the two tests of \<open>can_standard_transmit\<close>.\<close>

definition past_test :: "can_pc \<Rightarrow> bool" where
  "past_test p \<longleftrightarrow> in_transmit p \<and> p \<notin> {T_empty, T_off, T_tbs}"

text \<open>The flag set, the ring may be empty although the first test has seen a frame in it.\<close>

definition ctl_inv :: "fine \<times> bool \<Rightarrow> bool" where
  "ctl_inv = (\<lambda>(s, b). cmr_TR (cancmr (f_regs s)) = 0 \<and>
     (past_test (f_pc s) \<longrightarrow> sr_TBS1 (cansr (f_regs s)) \<noteq> 0) \<and>
     (b \<longrightarrow> f_pc s = T_tbs \<and> sr_TBS1 (cansr (f_regs s)) = 0) \<and>
     tx_inv (if b then at_pc Idle s else s))"

lemma tx_inv_race [simp]: "tx_inv (s\<lparr>g_race := x\<rparr>) = tx_inv s"
  by (simp add: tx_inv_def in_flight_def tx_pend_def cur_msg_def)

lemma tx_inv_idle:
  assumes "f_pc s \<in> {T_empty, T_off, T_tbs}"
  shows "tx_inv s \<longleftrightarrow> tx_inv (at_pc Idle s) \<and> (f_pc s = T_tbs \<longrightarrow> tx_tail (f_rb s) \<noteq> tx_head (f_rb s))"
proof -
  have i: "f_cfg (at_pc Idle s) = f_cfg s" "f_regs (at_pc Idle s) = f_regs s" "f_in (at_pc Idle s) = f_in s"
    "g_acc (at_pc Idle s) = g_acc s" "g_sub (at_pc Idle s) = g_sub s" "tx_pend (at_pc Idle s) = tx_pend s"
    "in_flight (at_pc Idle s) = []" "f_pc (at_pc Idle s) = Idle"
    by (simp_all add: at_pc_def tx_pend_def in_flight_def)
  have "in_flight s = []" "f_pc s \<notin> {T_wrap, W_wrap, W_put, W_inc}" "\<not> tx_masked (f_pc s)"
    "loading (f_pc s) = (f_pc s = T_tbs)" "loaded (f_pc s) f m" for f m
    using assms by (auto simp: in_flight_def)
  then show ?thesis unfolding tx_inv_def i by (simp, blast)
qed

lemma at_pc_regs: "(at_pc p s)\<lparr>f_regs := r\<rparr> = at_pc p (s\<lparr>f_regs := r\<rparr>)"
  by (simp add: at_pc_def)

lemma took_tx_inv: "tx_inv s \<Longrightarrow> tx_inv (on_regs took s)"
  unfolding on_regs_def by (rule bus_tx_inv) simp_all

lemma tx_byte_regs [simp]: "cansr (tx_byte k v r) = cansr r" "cancmr (tx_byte k v r) = cancmr r"
  by (simp_all add: tx_byte_def)

lemma stmt_cansr [simp]: "cansr (f_regs (stmt s)) = cansr (f_regs s)"
  by (cases "f_pc s"; cases "f_ld s")
    (simp_all add: stmt_def read_stmt_def write_stmt_def transmit_stmt_def ier_stmt_def upd_defs Let_def)

lemma stmt_TR: "f_pc s \<noteq> T_tr \<Longrightarrow> cmr_TR (cancmr (f_regs (stmt s))) = cmr_TR (cancmr (f_regs s))"
  by (cases "f_pc s"; cases "f_ld s")
    (simp_all add: stmt_def read_stmt_def write_stmt_def transmit_stmt_def ier_stmt_def upd_defs Let_def)

lemma stmt_past:
  "past_test (f_pc (stmt s)) \<Longrightarrow> f_pc s \<noteq> T_tr \<and> (past_test (f_pc s) \<or> f_pc s = T_tbs \<and> sr_TBS1 (cansr (f_regs s)) \<noteq> 0)"
  by (cases "f_pc s")
    (simp_all add: past_test_def stmt_def read_stmt_def write_stmt_def transmit_stmt_def ier_stmt_def upd_defs Let_def
      split: option.splits if_splits)

lemma ctl_stmt_inv:
  assumes "ctl_inv (s, b)"
  shows "ctl_inv (on_regs took (stmt s), False)"
proof -
  have inv: "cmr_TR (cancmr (f_regs s)) = 0" "past_test (f_pc s) \<longrightarrow> sr_TBS1 (cansr (f_regs s)) \<noteq> 0"
    "b \<longrightarrow> f_pc s = T_tbs \<and> sr_TBS1 (cansr (f_regs s)) = 0" "tx_inv (if b then at_pc Idle s else s)"
    using assms by (simp_all add: ctl_inv_def)
  have "tx_inv (stmt s)"
  proof (cases b)
    case True
    then have "stmt s = at_pc Idle s" using inv(3) by (simp add: stmt_def transmit_stmt_def)
    then show ?thesis using inv(4) True by simp
  next
    case False
    then show ?thesis using inv(4) stmt_tx_inv by simp
  qed
  moreover have "sr_TBS1 (cansr (took (f_regs (stmt s)))) \<noteq> 0" if "past_test (f_pc (stmt s))"
    using stmt_past [OF that] inv(1,2) stmt_TR [of s] by (auto simp: took_id)
  ultimately show ?thesis using took_tx_inv by (simp add: ctl_inv_def)
qed

subsection \<open>The handler\<close>

lemma receive_regs:
  "canicr (snd (snd (can_standard_receive c r))) = canicr r" "cansr (snd (snd (can_standard_receive c r))) = cansr r"
  "cmr_TR (cancmr (snd (snd (can_standard_receive c r)))) = cmr_TR (cancmr r)"
  by (simp_all add: can_standard_receive_def Let_def)

lemma rx_part_regs:
  "canicr (snd (rx_part rd_icr c r)) = canicr (snd (rd_icr r))" "cansr (snd (rx_part rd_icr c r)) = cansr (snd (rd_icr r))"
  "cmr_TR (cancmr (snd (rx_part rd_icr c r))) = cmr_TR (cancmr (snd (rd_icr r)))"
  by (simp_all add: rx_part_def case_prod_beta receive_regs)

text \<open>The buffer free when the handler starts: it acts on no transmit event, and the buffer stays free.\<close>

lemma free_no_ti:
  assumes "icr_clears rd_icr" "sr_TBS1 (cansr r) \<noteq> 0"
  shows "\<not> irq_ti rd_icr c r \<and> sr_TBS1 (cansr (snd (serve rd_icr c r))) \<noteq> 0"
proof -
  let ?r2 = "snd (rx_part rd_icr c r)"
  have "sr_TBS1 (cansr ?r2) \<noteq> 0" "icr_TI1 (canicr ?r2) = 0"
    using assms by (simp_all add: icr_clears_def rx_part_regs)
  then have "icr_TI1 (fst (rd_icr ?r2)) = 0" "sr_TBS1 (cansr (snd (rd_icr ?r2))) \<noteq> 0"
    using assms(1) unfolding icr_clears_def by metis+
  then show ?thesis by (simp add: irq_ti_def serve_parts case_prod_beta Let_def)
qed

lemma no_ti_TR:
  assumes "icr_clears rd_icr" "\<not> irq_ti rd_icr c r"
  shows "cmr_TR (cancmr (snd (serve rd_icr c r))) = cmr_TR (cancmr r)"
  using assms by (simp add: serve_parts case_prod_beta Let_def icr_clears_def rx_part_regs)

text \<open>Whether the handler has requested a frame shows in the log, in the ring and in the command register.\<close>

lemma interrupt_submits:
  assumes "icr_gated rd_icr"
  shows "if g_sub (interrupt rd_icr s) = g_sub s
    then tx_tail (f_rb (interrupt rd_icr s)) = tx_tail (f_rb s) \<and> tx_head (f_rb (interrupt rd_icr s)) = tx_head (f_rb s)
    else cmr_TR (cancmr (f_regs (interrupt rd_icr s))) \<noteq> 0"
proof -
  obtain c2 r2 where p: "rx_part rd_icr (f_cfg s) (f_regs s) = (c2, r2)" by fastforce
  have tx: "tx_tail (rb c2) = tx_tail (f_rb s)" "tx_head (rb c2) = tx_head (f_rb s)"
    using rx_part_tx [OF assms p] by simp_all
  show ?thesis
    using tx p
    by (auto simp: interrupt_def serve_parts irq_tx_parts Let_def case_prod_beta tx_log_def submits_def
        can_standard_transmit_def tx_load_def)
qed

lemma interrupt_at_pc:
  "\<exists>x. interrupt rd_icr (at_pc p s) = (at_pc p (interrupt rd_icr s))\<lparr>g_race := x\<rparr>"
  by (intro exI [of _ "g_race s \<or> irq_ti rd_icr (f_cfg s) (f_regs s) \<and> in_transmit p"])
    (simp add: interrupt_def at_pc_def Let_def case_prod_beta)

lemma interrupt_pc [simp]: "f_pc (interrupt rd_icr s) = f_pc s"
  by (simp add: interrupt_def Let_def case_prod_beta)

lemma interrupt_idle_inv:
  assumes "icr_gated rd_icr" "tx_inv (at_pc Idle s)"
  shows "tx_inv (at_pc Idle (interrupt rd_icr s))"
proof -
  obtain x where x: "interrupt rd_icr (at_pc Idle s) = (at_pc Idle (interrupt rd_icr s))\<lparr>g_race := x\<rparr>"
    using interrupt_at_pc by blast
  have "tx_inv (interrupt rd_icr (at_pc Idle s))"
    using interrupt_no_ti_tx_inv [OF assms(2,1)] interrupt_ti_tx_inv [OF assms(2,1)] by (auto simp: at_pc_def)
  then show ?thesis by (simp add: x)
qed

lemma ctl_irq_inv:
  assumes "ctl_inv (s, b)" "icr_clears rd_icr" "t = on_regs took (interrupt rd_icr s)"
    and "b' = (f_pc s = T_tbs \<and> (b \<or> g_sub t \<noteq> g_sub s))" "b \<longrightarrow> sr_TBS1 (cansr (f_regs t)) = 0"
  shows "ctl_inv (t, b')"
proof -
  let ?u = "interrupt rd_icr s"
  have gated: "icr_gated rd_icr" using assms(2) by (simp add: icr_clears_def)
  have inv: "cmr_TR (cancmr (f_regs s)) = 0" "past_test (f_pc s) \<longrightarrow> sr_TBS1 (cansr (f_regs s)) \<noteq> 0"
    "b \<longrightarrow> f_pc s = T_tbs \<and> sr_TBS1 (cansr (f_regs s)) = 0" "tx_inv (if b then at_pc Idle s else s)"
    using assms(1) by (simp_all add: ctl_inv_def)
  have regs: "f_regs ?u = snd (serve rd_icr (f_cfg s) (f_regs s))"
    by (simp add: interrupt_def Let_def case_prod_beta)
  have t: "f_pc t = f_pc s" "g_sub t = g_sub ?u" "f_cfg t = f_cfg ?u" by (simp_all add: assms(3))
  have free: "\<not> irq_ti rd_icr (f_cfg s) (f_regs s) \<and> sr_TBS1 (cansr (f_regs t)) \<noteq> 0" if "past_test (f_pc s)"
  proof -
    have "sr_TBS1 (cansr (f_regs s)) \<noteq> 0" using inv(2) that by simp
    note n = free_no_ti [OF assms(2) this, of "f_cfg s"]
    have "cmr_TR (cancmr (f_regs ?u)) = 0" unfolding regs using n inv(1) no_ti_TR [OF assms(2)] by simp
    then show ?thesis using n by (simp add: assms(3) took_id regs)
  qed
  have busy: "sr_TBS1 (cansr (f_regs t)) = 0" if b'
    using that assms(4,5) interrupt_submits [OF gated, of s] by (auto simp: t(2) assms(3) took_busy split: if_splits)
  have "tx_inv (if b' then at_pc Idle t else t)"
  proof (cases "f_pc s \<in> {T_empty, T_off, T_tbs}")
    case True
    have "tx_inv (at_pc Idle s)" using inv(4) tx_inv_idle [OF True] by (cases b) simp_all
    from took_tx_inv [OF interrupt_idle_inv [OF gated this]]
    have i: "tx_inv (at_pc Idle t)" by (simp add: assms(3) on_regs_def at_pc_regs) (simp add: at_pc_def)
    have "tx_inv t" if "\<not> b'"
    proof -
      have "tx_tail (f_rb t) \<noteq> tx_head (f_rb t)" if p: "f_pc s = T_tbs"
      proof -
        have "g_sub ?u = g_sub s" "\<not> b" using \<open>\<not> b'\<close> assms(4) p by (simp_all add: t(2))
        then show ?thesis
          using interrupt_submits [OF gated, of s] inv(4) tx_inv_idle [OF True] p by (simp add: t(3))
      qed
      then show ?thesis using i tx_inv_idle [of t] True by (simp add: t(1))
    qed
    with i show ?thesis by simp
  next
    case False
    then have n: "\<not> b" "\<not> b'" using inv(3) assms(4) by auto
    then have "tx_inv s" using inv(4) by simp
    moreover have "\<not> irq_ti rd_icr (f_cfg s) (f_regs s) \<or> \<not> in_transmit (f_pc s)"
      using free False by (auto simp: past_test_def)
    ultimately have "tx_inv ?u" using interrupt_no_ti_tx_inv interrupt_ti_tx_inv gated by blast
    then show ?thesis using n took_tx_inv by (simp add: assms(3))
  qed
  then show ?thesis using free busy assms(4) by (simp add: ctl_inv_def t(1)) (simp add: assms(3))
qed

lemma ctl_step_inv: "ctl_step True x y \<Longrightarrow> ctl_inv x \<Longrightarrow> ctl_inv y"
proof (induction rule: ctl_step.induct)
  case (ctl_read s b n)
  then have "\<not> b" "tx_inv s" by (auto simp: ctl_inv_def split: if_splits)
  then show ?case using ctl_read call_tx_inv(1) [of s n] by (simp add: ctl_inv_def past_test_def) (simp add: call_read_def)
next
  case (ctl_write s buf b n)
  then have "\<not> b" "tx_inv s" by (auto simp: ctl_inv_def split: if_splits)
  then show ?case using ctl_write call_tx_inv(2) [of s buf n] by (simp add: ctl_inv_def past_test_def) (simp add: call_write_def)
next
  case (ctl_stmt s b)
  then show ?case using ctl_stmt_inv by blast
next
  case (ctl_irq rd_icr t s b' b)
  then show ?case using ctl_irq_inv [of s b rd_icr t b'] by simp
next
  case (ctl_bus s r b)
  have "tx_inv (if b then at_pc Idle s else s)" using ctl_bus.prems by (simp add: ctl_inv_def)
  from bus_tx_inv [OF this, of r] ctl_bus.hyps(1) have "tx_inv (if b then at_pc Idle (s\<lparr>f_regs := r\<rparr>) else s\<lparr>f_regs := r\<rparr>)"
    by (cases b) (simp_all add: at_pc_regs, simp add: at_pc_def)
  with ctl_bus show ?case by (auto simp: ctl_inv_def)
qed

lemma ctl_reachable_inv: "ctl_reachable True x \<Longrightarrow> ctl_inv x"
proof (induction rule: ctl_reachable.induct)
  case (start c r)
  then have "fine_reachable (fine_start c r)" by (intro fine_reachable.start) simp_all
  from fine_reachable_inv [OF this] start(5) show ?case by (simp add: ctl_inv_def fine_start_def past_test_def)
qed (rule ctl_step_inv)

section \<open>Properties\<close>

text \<open>
  C16 On the controller as documented (a read of the capture register clears the transmit event, an
  event means that the transmit buffer has become free, a request makes it busy at once) no accepted
  frame is lost, doubled or reordered, in any interleaving of the statements of can_read and can_write
  with the interrupt handler, with calls and with bus activity in which no frame that the handler
  requests between can_standard_transmit's test of the ring and its test of the buffer has left the
  buffer before the second test: the frames accepted are those requested for transmission, the one just
  being loaded, and those still in the ring, in order. Between calls the ring is the queue of the device
  structure.
\<close>
theorem can_write_no_loss:
  assumes "ctl_reachable True (s, b)"
  shows "g_acc s = g_sub s @ in_flight s @ map frame_of (tx_pend s) \<and>
    (f_pc s = Idle \<longrightarrow> g_acc s = g_sub s @ map frame_of (txq (f_cfg s)))"
proof -
  note inv = ctl_reachable_inv [OF assms, unfolded ctl_inv_def prod.case]
  have a: "g_acc s = g_sub s @ in_flight s @ map frame_of (tx_pend s)"
  proof (cases b)
    case True
    then show ?thesis using inv by (simp add: tx_inv_def in_flight_def tx_pend_def at_pc_def)
  next
    case False
    then show ?thesis using inv unfolding tx_inv_def by auto
  qed
  moreover have "in_flight s = [] \<and> tx_pend s = txq (f_cfg s)" if "f_pc s = Idle"
  proof -
    have "tx_inv s" using inv that by (cases b) simp_all
    from tx_inv_ring [OF this] that show ?thesis by (simp add: in_flight_def tx_pend_def txq_def)
  qed
  ultimately show ?thesis by simp
qed

subsection \<open>The race\<close>

text \<open>
  The previous frame leaves transmit buffer 1 while the handler stands between its two reads: the first
  read clears what was latched, then the buffer becomes free and the event is latched.
\<close>

definition frees :: icr_read where
  "frees r = ((canicr r)\<lparr>icr_RI := 0, icr_TI1 := if ier_TIE1 (canier r) \<noteq> 0 then icr_TI1 (canicr r) else 0\<rparr>,
     r\<lparr>canicr := (canicr r)\<lparr>icr_TI1 := if sr_TBS1 (cansr r) = 0 then ier_TIE1 (canier r) else 0\<rparr>,
       cansr := (cansr r)\<lparr>sr_TBS1 := 1\<rparr>\<rparr>)"

lemma frees_clears: "icr_clears frees"
  by (simp add: icr_clears_def icr_gated_def bus_frame_def frees_def)

text \<open>The rest of the routine from its second test, with the buffer free.\<close>

lemma load_alone:
  assumes "f_pc s = T_tbs" "sr_TBS1 (cansr (f_regs s)) \<noteq> 0"
  shows "\<exists>t. alone s t \<and> f_cfg t = (f_cfg s)\<lparr>rb := tx_pop (f_rb s)\<rparr> \<and> g_acc t = g_acc s \<and>
    length (g_sub t) = Suc (length (g_sub s))"
proof -
  let ?r = "tx_load (cur_msg s) (f_regs s)"
  have "alone s t = alone (s\<lparr>f_regs := ?r, f_pc := T_stb\<rparr>) t" for t
    using assms
    by (simp add: alone_run(1) [of s] stmt_T transmit_stmt_def upd_defs head_alone data_alone cur_msg_def tx_load_def)
  then show ?thesis using request_alone [of "s\<lparr>f_regs := ?r, f_pc := T_stb\<rparr>"] by auto
qed

lemma transmit_next: "in_transmit (f_pc s) \<Longrightarrow> in_transmit (f_pc (stmt s)) \<or> f_pc (stmt s) = Idle"
  by (cases "f_pc s"; cases "f_ld s") (simp_all add: stmt_def transmit_stmt_def ier_stmt_def upd_defs)

lemma alone_ctl:
  assumes "alone s t" "in_transmit (f_pc s)" "cmr_TR (cancmr (f_regs s)) = 0"
  shows "(ctl_step timely)\<^sup>*\<^sup>* (s, b) (on_regs took t, False)"
  using assms
proof (induction arbitrary: b rule: alone.induct)
  case (returned s)
  then show ?case by simp
next
  case (stmt s t)
  have st: "ctl_step timely (s, b) (on_regs took (Can_Stmt.stmt s), False)"
    using stmt.hyps(1) by (rule ctl_step.ctl_stmt)
  show ?case
  proof (cases "f_pc (Can_Stmt.stmt s) = Idle")
    case True
    then have "t = Can_Stmt.stmt s" using stmt.hyps(2) by (simp add: alone_run(2))
    then show ?thesis using st by simp
  next
    case False
    then have p: "in_transmit (f_pc (Can_Stmt.stmt s))" using transmit_next [OF stmt.prems(1)] by simp
    have "f_pc s \<noteq> T_tr" using False by (auto simp: stmt_T transmit_stmt_def upd_defs)
    then have r: "cmr_TR (cancmr (f_regs (Can_Stmt.stmt s))) = 0" using stmt.prems(2) stmt_TR by simp
    then have "on_regs took (Can_Stmt.stmt s) = Can_Stmt.stmt s" by (simp add: on_regs_id took_id)
    with stmt.IH [OF p r, of False] st show ?thesis by (simp add: converse_rtranclp_into_rtranclp)
  qed
qed

text \<open>
  C17 The exception is real. can_write switches the transmit enables on again before it calls
  can_standard_transmit, and that routine tests the ring and then the buffer. Let one frame be in the
  ring and the buffer still busy with the one before. If the handler (which serves both devices on any
  interrupt) runs between the two tests and the buffer becomes free between its two reads of the capture
  register, it sends the frame; if that frame too has left the buffer before the interrupted routine
  goes on, the routine finds the buffer free, requests a frame that no call of can_write handed over and
  moves the tail past the head, so that the empty ring counts as full and the next can_write accepts
  nothing. All of this with a capture register that is cleared on read.
\<close>
theorem can_write_race:
  assumes "ctl_reachable True (s, False)" "f_pc s = T_tbs" "length (tx_pend s) = 1"
    "sr_TBS1 (cansr (f_regs s)) = 0" "ier_TIE1 (canier (f_regs s)) \<noteq> 0"
  shows "\<exists>t. (ctl_step False)\<^sup>*\<^sup>* (s, False) (t, False) \<and> f_pc t = Idle \<and> g_acc t = g_acc s \<and>
    length (g_sub t) = Suc (length (g_acc t)) \<and> can_get_free_tx_count (f_cfg t) = 0"
proof -
  let ?b = "f_rb s" and ?u = "interrupt frees s"
  let ?s1 = "on_regs took ?u"
  let ?s2 = "?s1\<lparr>f_regs := (f_regs ?s1)\<lparr>cansr := (cansr (f_regs ?s1))\<lparr>sr_TBS1 := 1\<rparr>\<rparr>\<rparr>"
  have inv: "tx_inv s" "cmr_TR (cancmr (f_regs s)) = 0" using ctl_reachable_inv [OF assms(1)] by (simp_all add: ctl_inv_def)
  have ring: "ring_ok (tx ?b) (tx_tail ?b) (tx_head ?b)" "length (tx ?b) = 256"
    "wrapped (tx_tail ?b) = tx_tail ?b" "wrapped (tx_head ?b) = tx_head ?b"
    using tx_inv_ring [OF inv(1)] assms(2) by simp_all
  have ne: "tx_tail ?b \<noteq> tx_head ?b" and log: "g_acc s = g_sub s @ map frame_of (tx_pend s)"
    using inv(1) assms(2) by (simp_all add: tx_inv_def in_flight_def)
  have "tx_head ?b = ring_next 256 (tx_tail ?b)"
    using assms(3) ring by (auto simp: tx_pend_def ring_ok_def ring_used_def ring_next_def split: if_splits)
  then have u: "g_acc ?u = g_acc s" "length (g_sub ?u) = Suc (length (g_sub s))" "f_rb ?u = ?b\<lparr>tx_tail := tx_head ?b\<rparr>"
    using assms(4,5) ne
    by (simp_all add: interrupt_def serve_parts rx_part_def irq_ti_def irq_tx_parts frees_def Let_def
        tx_log_def submits_def can_standard_transmit_def tx_pop_eq)
  have "ctl_step False (s, False) (?s1, True)"
    by (rule ctl_step.ctl_irq [OF frees_clears refl]) (use assms(2) u(2) in auto)
  moreover have "ctl_step False (?s1, True) (?s2, True)"
    by (rule ctl_step.ctl_bus) (simp_all add: bus_frame_def)
  moreover have s2: "f_pc ?s2 = T_tbs" "sr_TBS1 (cansr (f_regs ?s2)) \<noteq> 0" "cmr_TR (cancmr (f_regs ?s2)) = 0"
    "f_rb ?s2 = ?b\<lparr>tx_tail := tx_head ?b\<rparr>" "g_acc ?s2 = g_acc s" "length (g_sub ?s2) = Suc (length (g_sub s))"
    using assms(2) u by simp_all
  obtain t where t: "alone ?s2 t" "f_cfg t = (f_cfg ?s2)\<lparr>rb := tx_pop (f_rb ?s2)\<rparr>" "g_acc t = g_acc ?s2"
      "length (g_sub t) = Suc (length (g_sub ?s2))"
    using load_alone [OF s2(1,2)] by blast
  have "(ctl_step False)\<^sup>*\<^sup>* (?s2, True) (on_regs took t, False)"
    using alone_ctl [OF t(1)] s2(1,3) by simp
  ultimately have "(ctl_step False)\<^sup>*\<^sup>* (s, False) (on_regs took t, False)"
    by (meson converse_rtranclp_into_rtranclp)
  moreover have "can_get_free_tx_count (f_cfg t) = 0"
    unfolding t(2) s2(4) using ring by (simp add: can_get_free_tx_count_def tx_pop_eq ring_next_def ring_ok_def Let_def)
  moreover have "length (g_acc s) = Suc (length (g_sub s))" using log assms(3) by simp
  ultimately show ?thesis
    using t(3,4) s2(5,6) alone_idle [OF t(1)] by (intro exI [of _ "on_regs took t"]) simp
qed

subsection \<open>Concrete executions\<close>

primrec ctl_run :: "nat \<Rightarrow> fine \<Rightarrow> fine" where
  "ctl_run 0 s = s"
| "ctl_run (Suc k) s = (if f_pc s = Idle then s else ctl_run k (on_regs took (stmt s)))"

lemma ctl_run_reachable: "ctl_reachable timely (s, False) \<Longrightarrow> ctl_reachable timely (ctl_run k s, False)"
  by (induction k arbitrary: s) (auto intro: ctl_reachable.step ctl_step.ctl_stmt)

text \<open>The first \<open>can_write\<close> of one message after opening, between the two tests, the buffer busy.\<close>

lemma write_reaches_test:
  assumes "f_pc s = Idle" "init (f_cfg s)" "tx_tail (f_rb s) = 0" "tx_head (f_rb s) = 0"
    "cmr_TR (cancmr (f_regs s)) = 0" "length (tx (f_rb s)) = 256"
  shows "f_pc (ctl_run 21 (call_write buf 1 s)) = T_tbs \<and>
    f_rb (ctl_run 21 (call_write buf 1 s)) = (f_rb s)\<lparr>tx := (tx (f_rb s))[0 := buf 0], tx_head := 1\<rparr> \<and>
    cansr (f_regs (ctl_run 21 (call_write buf 1 s))) = cansr (f_regs s) \<and>
    ier_TIE1 (canier (f_regs (ctl_run 21 (call_write buf 1 s)))) = ier_TIE1 (canier (f_regs s)) \<and>
    g_acc (ctl_run 21 (call_write buf 1 s)) = g_acc s @ [frame_of (buf 0)] \<and>
    g_sub (ctl_run 21 (call_write buf 1 s)) = g_sub s"
  using assms
  by (simp add: call_write_def eval_nat_numeral stmt_def write_stmt_def transmit_stmt_def ier_stmt_def at_pc_def on_rb_def
      can_get_free_tx_count_def Let_def took_def on_regs_def)

definition opened_busy :: fine where
  "opened_busy = fine_start (opened_cfg Can1cfg cfg0) (opened_regs regs0)"

definition between_tests :: fine where
  "between_tests = ctl_run 21 (call_write (\<lambda>_. msg0) 1 opened_busy)"

lemma between_simps:
  "ctl_reachable True (between_tests, False)" "f_pc between_tests = T_tbs" "length (tx_pend between_tests) = 1"
  "sr_TBS1 (cansr (f_regs between_tests)) = 0" "ier_TIE1 (canier (f_regs between_tests)) \<noteq> 0"
  "g_acc between_tests = [frame_of msg0]" "g_sub between_tests = []"
proof -
  have s: "f_pc opened_busy = Idle" "init (f_cfg opened_busy)" "tx_tail (f_rb opened_busy) = 0"
    "tx_head (f_rb opened_busy) = 0" "sr_TBS1 (cansr (f_regs opened_busy)) = 0" "length (tx (f_rb opened_busy)) = 256"
    "ier_TIE1 (canier (f_regs opened_busy)) = 1" "g_acc opened_busy = []" "g_sub opened_busy = []"
    "cmr_TR (cancmr (f_regs opened_busy)) = 0"
    by (simp_all add: opened_busy_def fine_start_def opened_cfg_def reset_rings_def cfg0_def opened_regs_def
        set_RM_def set_irq_enable_def regs0_def clear_gsr_def set_timing_def)
  have "data_ok (opened_cfg Can1cfg cfg0)"
    by (simp add: data_ok_def opened_cfg_def reset_rings_def cfg0_def msg0_def)
  then have "ctl_reachable True (opened_busy, False)"
    using s(10) unfolding opened_busy_def by (intro ctl_reachable.start) (simp_all add: fine_start_def)
  moreover have "ctl_step True (opened_busy, False) (call_write (\<lambda>_. msg0) 1 opened_busy, False)"
    using s(1) by (intro ctl_step.ctl_write) (simp_all add: msg0_def)
  ultimately show "ctl_reachable True (between_tests, False)"
    unfolding between_tests_def by (intro ctl_run_reachable) (rule ctl_reachable.step)
  note l = write_reaches_test [of opened_busy "\<lambda>_. msg0"]
  show "f_pc between_tests = T_tbs" "sr_TBS1 (cansr (f_regs between_tests)) = 0"
    "ier_TIE1 (canier (f_regs between_tests)) \<noteq> 0" "g_acc between_tests = [frame_of msg0]" "g_sub between_tests = []"
    unfolding between_tests_def using l s by simp_all
  show "length (tx_pend between_tests) = 1"
    unfolding between_tests_def tx_pend_def using l s by (simp add: wrapped_def ring_used_def)
qed

text \<open>The handler sends the frame between the two tests, and the routine finds the buffer busy.\<close>

lemma handler_sends:
  "\<exists>s. ctl_reachable True (s, False) \<and> f_pc s = Idle \<and> g_acc s = [frame_of msg0] \<and> length (g_sub s) = 1"
proof -
  let ?s = between_tests and ?u = "interrupt frees between_tests"
  let ?t = "on_regs took ?u"
  have "tx_inv ?s" using ctl_reachable_inv [OF between_simps(1)] by (simp add: ctl_inv_def)
  then have ne: "tx_tail (f_rb ?s) \<noteq> tx_head (f_rb ?s)" using between_simps(2) by (simp add: tx_inv_def)
  have u: "length (g_sub ?u) = 1" "g_acc ?u = [frame_of msg0]" "cmr_TR (cancmr (f_regs ?u)) \<noteq> 0"
    using ne between_simps(4-7)
    by (simp_all add: interrupt_def serve_parts rx_part_def irq_ti_def irq_tx_parts frees_def Let_def
        tx_log_def submits_def can_standard_transmit_def tx_pop_eq tx_load_def)
  have "ctl_step True (?s, False) (?t, True)"
    by (rule ctl_step.ctl_irq [OF frees_clears refl]) (use between_simps(2,7) u(1) in auto)
  moreover have "ctl_step True (?t, True) (on_regs took (stmt ?t), False)"
    by (rule ctl_step.ctl_stmt) (simp add: between_simps(2))
  ultimately have r: "ctl_reachable True (on_regs took (stmt ?t), False)"
    using between_simps(1) by (blast intro: ctl_reachable.step)
  have "stmt ?t = at_pc Idle ?t"
    using took_busy [OF u(3)] between_simps(2) by (simp add: stmt_def transmit_stmt_def)
  then have "f_pc (stmt ?t) = Idle" "g_acc (stmt ?t) = [frame_of msg0]" "length (g_sub (stmt ?t)) = 1"
    using u(1,2) by (simp_all add: at_pc_def)
  then show ?thesis using r by (intro exI [of _ "on_regs took (stmt ?t)"]) simp
qed

theorem can_write_no_loss_witness:
  "\<exists>s. ctl_reachable True (s, False) \<and> f_pc s = Idle \<and> g_sub s = [frame_of msg0] \<and> txq (f_cfg s) = []"
proof -
  obtain s where s: "ctl_reachable True (s, False)" "f_pc s = Idle" "g_acc s = [frame_of msg0]" "length (g_sub s) = 1"
    using handler_sends by blast
  have "[frame_of msg0] = g_sub s @ map frame_of (txq (f_cfg s))"
    using can_write_no_loss [OF s(1)] s(2) unfolding s(3) by blast
  then have "g_sub s = [frame_of msg0] \<and> txq (f_cfg s) = []" using s(4) by (cases "g_sub s") auto
  with s show ?thesis by blast
qed

theorem can_write_race_witness:
  "\<exists>t. (ctl_step False)\<^sup>*\<^sup>* (between_tests, False) (t, False) \<and> g_acc t = [frame_of msg0] \<and>
     length (g_sub t) = 2 \<and> can_get_free_tx_count (f_cfg t) = 0"
  using can_write_race [OF between_simps(1-5)] between_simps(6) by auto

end
