(* ===== verification/Platform.thy ===== *)
theory Platform
  imports Prelude "HOL-Library.Monad_Syntax"
begin

text \<open>
  Start-up code and small peripherals: the clock set-up of \<^verbatim>\<open>platform/framework.c\<close>, the heap of
  \<^verbatim>\<open>platform/syscalls.c\<close>, the timer delays and the memory controller of
  \<^verbatim>\<open>drivers/timer_delay.c\<close> and \<^verbatim>\<open>drivers/lcd/ex_sdram.c\<close>, the serial port of
  \<^verbatim>\<open>drivers/uart.c\<close> and the clock of \<^verbatim>\<open>drivers/rtc.c\<close>.

  A status register that is polled is a parameter: the sequence of values its reads return.
\<close>

section \<open>Clock set-up\<close>

abbreviation (input) "FIO2DIR \<equiv> (0x3FFFC040 :: u32)"
abbreviation (input) "FIO2SET \<equiv> (0x3FFFC058 :: u32)"
abbreviation (input) "FIO2CLR \<equiv> (0x3FFFC05C :: u32)"
abbreviation (input) "MAMCR \<equiv> (0xE01FC000 :: u32)"
abbreviation (input) "MAMTIM \<equiv> (0xE01FC004 :: u32)"
abbreviation (input) "MEMMAP \<equiv> (0xE01FC040 :: u32)"
abbreviation (input) "PLLCON \<equiv> (0xE01FC080 :: u32)"
abbreviation (input) "PLLCFG \<equiv> (0xE01FC084 :: u32)"
abbreviation (input) "PLLFEED \<equiv> (0xE01FC08C :: u32)"
abbreviation (input) "SYS_PCONP \<equiv> (0xE01FC0C4 :: u32)"
abbreviation (input) "CCLKCFG \<equiv> (0xE01FC104 :: u32)"
abbreviation (input) "USBCLKCFG \<equiv> (0xE01FC108 :: u32)"
abbreviation (input) "CLKSRCSEL \<equiv> (0xE01FC10C :: u32)"
abbreviation (input) "SCS \<equiv> (0xE01FC1A0 :: u32)"
abbreviation (input) "PCLKSEL0 \<equiv> (0xE01FC1A8 :: u32)"
abbreviation (input) "PCLKSEL1 \<equiv> (0xE01FC1AC :: u32)"
abbreviation (input) "PLL_MValue \<equiv> (11 :: u32)"
abbreviation (input) "PLL_NValue \<equiv> (0 :: u32)"
abbreviation (input) "CCLKDivValue \<equiv> (4 :: u32)"
abbreviation (input) "USBCLKDivValue \<equiv> (5 :: u32)"

text \<open>The two writes that make the PLL take over a new setting.\<close>

definition pll_feed :: "mmio \<Rightarrow> mmio" where
  "pll_feed m = wr PLLFEED 0x55 (wr PLLFEED 0xaa m)"

text \<open>
  \<open>scs\<close> and \<open>pllstat\<close> are the successive reads of those registers. The last comparison loop has
  no effect of its own: it ends at once or never.
\<close>

definition ConfigurePLL :: "(nat \<Rightarrow> u32) \<Rightarrow> (nat \<Rightarrow> u32) \<Rightarrow> mmio \<Rightarrow> mmio option" where
  "ConfigurePLL scs pllstat m = do {
     let m = (if pllstat 0 AND push_bit 25 1 \<noteq> 0 then pll_feed (wr PLLCON 1 m) else m);
     let m = pll_feed (wr PLLCON 0 m);
     let m = wr_or SCS 0x20 m;
     _ \<leftarrow> poll (\<lambda>v. v AND 0x40 \<noteq> 0) scs 0;
     let m = wr CLKSRCSEL 0x1 m;
     let m = pll_feed (wr PLLCFG (PLL_MValue OR push_bit 16 PLL_NValue) m);
     let m = pll_feed (wr PLLCON 1 m);
     let m = wr CCLKCFG CCLKDivValue m;
     let m = wr USBCLKCFG USBCLKDivValue m;
     k \<leftarrow> poll (\<lambda>v. v AND push_bit 26 1 \<noteq> 0) pllstat 1;
     let MValue = pllstat (k + 1) AND 0x00007FFF;
     let NValue = drop_bit 16 (pllstat (k + 2) AND 0x00FF0000);
     _ \<leftarrow> (if MValue \<noteq> PLL_MValue \<and> NValue \<noteq> PLL_NValue then None else Some ());
     let m = pll_feed (wr PLLCON 3 m);
     _ \<leftarrow> poll (\<lambda>v. v AND push_bit 25 1 \<noteq> 0) pllstat (k + 3);
     Some m
   }"

definition lowLevelInit :: "(nat \<Rightarrow> u32) \<Rightarrow> (nat \<Rightarrow> u32) \<Rightarrow> mmio \<Rightarrow> mmio option" where
  "lowLevelInit scs pllstat m = do {
     let m = wr 0xE002C000 0x00000000 m;
     let m = wr 0xE002C004 0x00000000 m;
     let m = wr MEMMAP 1 m;
     let m = wr_or SYS_PCONP 0x80000000 m;
     m \<leftarrow> ConfigurePLL scs pllstat m;
     let m = wr PCLKSEL0 0xAAAAAAAA m;
     let m = wr PCLKSEL1 0xAAAAAAAA m;
     let m = wr MAMCR 0 m;
     let m = wr MAMTIM 3 m;
     Some (wr MAMCR 2 m)
   }"

section \<open>The heap\<close>

text \<open>\<open>heap\<close> is the static pointer, 0 before the first call; no bound is checked.\<close>

definition sbrk :: "u32 \<Rightarrow> int \<Rightarrow> u32 \<Rightarrow> u32 \<times> u32" where
  "sbrk HEAP_START incr heap =
     (let heap = (if heap = 0 then HEAP_START else heap);
          prev_heap = heap
      in (prev_heap, heap + word_of_int incr))"

section \<open>Delays\<close>

text \<open>\<open>tcr\<close> are the reads of the timer's control register from read \<open>n\<close> on; the result has the next index.\<close>

definition delayMs :: "(nat \<Rightarrow> u32) \<Rightarrow> nat \<Rightarrow> int \<Rightarrow> mmio \<Rightarrow> (nat \<times> mmio) option" where
  "delayMs tcr n delayInMs m = do {
     let m = wrs [(0xE0004004, 0x02), (0xE000400C, 0x00),
       (0xE0004018, word_of_int (delayInMs * (28800000 div 1000 - 1))),
       (0xE0004000, 0xff), (0xE0004014, 0x04), (0xE0004004, 0x01)] m;
     k \<leftarrow> poll (\<lambda>v. v AND 0x01 = 0) tcr n;
     Some (Suc k, m)
   }"

definition delay :: "(nat \<Rightarrow> u32) \<Rightarrow> nat \<Rightarrow> int \<Rightarrow> mmio \<Rightarrow> (nat \<times> mmio) option" where
  "delay tcr n delayInMs m = do {
     let m = wrs [(0xE0008004, 0x02), (0xE000800C, 0x00),
       (0xE0008018, word_of_int (delayInMs * (28800000 div 1000))),
       (0xE0008000, 0xff), (0xE0008014, 0x04), (0xE0008004, 0x01)] m;
     k \<leftarrow> poll (\<lambda>v. v AND 0x01 = 0) tcr n;
     Some (Suc k, m)
   }"

section \<open>SDRAM\<close>

abbreviation (input) "EMC_DYN_CTRL \<equiv> (0xFFE08020 :: u32)"
abbreviation (input) "EMC_DYN_RFSH \<equiv> (0xFFE08024 :: u32)"
abbreviation (input) "EMC_DYN_CFG0 \<equiv> (0xFFE08100 :: u32)"

text \<open>
  The 16-bit bus variant the build selects. The read of the SDRAM that sets its mode register is
  not a store; it leaves the registers as they are.
\<close>

definition sdram_pins :: "(u32 \<times> u32) list" where
  "sdram_pins = [(0xE002C014, 0x05050555), (0xE002C018, 0x55555555), (0xE002C020, 0x55555555),
     (0xE002C024, 0x50555555)]"

definition sdram_timing :: "(u32 \<times> u32) list" where
  "sdram_timing = [(0xFFE08030, 2), (0xFFE08034, 3), (0xFFE08038, 7), (0xFFE0803C, 2), (0xFFE08040, 5),
     (0xFFE08044, 1), (0xFFE08048, 5), (0xFFE0804C, 5), (0xFFE08050, 7), (0xFFE08054, 1),
     (0xFFE08058, 2), (0xFFE08028, 1), (0xFFE08104, 0x00000303), (EMC_DYN_CFG0, 0x00000680)]"

definition SDRAMInit :: "(nat \<Rightarrow> u32) \<Rightarrow> mmio \<Rightarrow> mmio option" where
  "SDRAMInit tcr m = do {
     let m = wr 0xFFE08000 0x00000001 m;
     let m = wr_or SYS_PCONP 0x00000800 m;
     let m = wrs sdram_pins m;
     let m = wrs sdram_timing m;
     (n, m) \<leftarrow> delay tcr 0 100 m;
     let m = wr EMC_DYN_CTRL 0x00000183 m;
     (n, m) \<leftarrow> delay tcr n 200 m;
     let m = wr EMC_DYN_CTRL 0x00000103 m;
     let m = wr EMC_DYN_RFSH 0x00000002 m;
     let m = wr EMC_DYN_RFSH (word_of_int (57600000 div 250 div 8192) + 1) m;
     let m = wr EMC_DYN_CTRL 0x00000083 m;
     let m = wr EMC_DYN_CTRL 0x00000000 m;
     let m = wr_or EMC_DYN_CFG0 0x00080000 m;
     (n, m) \<leftarrow> delay tcr n 1 m;
     Some m
   }"

section \<open>Serial port\<close>

abbreviation (input) "U0THR \<equiv> (0xE000C000 :: u32)"
abbreviation (input) "U0DLM \<equiv> (0xE000C004 :: u32)"
abbreviation (input) "U0LCR \<equiv> (0xE000C00C :: u32)"

text \<open>The divisor of a bit rate: \<open>pclk / (bps * 16.0) + 0.5\<close>, cut to an unsigned short.\<close>

definition UART_BPS :: "int \<Rightarrow> int \<Rightarrow> u16" where
  "UART_BPS pclk bps = word_of_int ((2 * pclk + 16 * bps) div (32 * bps))"

abbreviation (input) "UART_8N1 \<equiv> (0x03 + 0x00 + 0x00 :: u8)"

definition initUart0 :: "u16 \<Rightarrow> u8 \<Rightarrow> mmio \<Rightarrow> mmio" where
  "initUart0 div_factor mode m =
     (let m = wr 0xE002C000 (rd 0xE002C000 m OR (push_bit 4 1 OR push_bit 6 1)) m;
          m = wr U0LCR 0x80 m;
          m = wr U0THR (ucast (ucast div_factor :: u8)) m;
          m = wr U0DLM (ucast (ucast (drop_bit 8 div_factor) :: u8)) m
      in wr U0LCR (ucast mode AND NOT 0x80) m)"

text \<open>\<open>lsr\<close> are the reads of the line status register from read \<open>n\<close> on.\<close>

definition putchar :: "(nat \<Rightarrow> u32) \<Rightarrow> nat \<Rightarrow> u8 \<Rightarrow> mmio \<Rightarrow> (nat \<times> mmio) option" where
  "putchar lsr n character m = do {
     (n, m) \<leftarrow> (if character = 10
       then do { k \<leftarrow> poll (\<lambda>v. v AND 0x20 \<noteq> 0) lsr n; Some (Suc k, wr U0THR 13 m) }
       else Some (n, m));
     k \<leftarrow> poll (\<lambda>v. v AND 0x20 \<noteq> 0) lsr n;
     Some (Suc k, wr U0THR (ucast character) m)
   }"

definition getchar :: "(nat \<Rightarrow> u32) \<Rightarrow> nat \<Rightarrow> u32 \<Rightarrow> (u32 \<times> nat) option" where
  "getchar lsr n rbr = do {
     k \<leftarrow> poll (\<lambda>v. v AND 0x01 \<noteq> 0) lsr n;
     Some (rbr, Suc k)
   }"

section \<open>Real-time clock\<close>

record RTCTime =
  RTC_Sec :: int
  RTC_Min :: int
  RTC_Hour :: int
  RTC_Mday :: int
  RTC_Mon :: int
  RTC_Year :: int
  RTC_Wday :: int
  RTC_Yday :: int

record rtc_state =
  rbus :: mmio
  alarm_on :: int

definition RTCHandler :: "rtc_state \<Rightarrow> rtc_state" where
  "RTCHandler s = s\<lparr>alarm_on := 1, rbus := wr 0xFFFFFF00 0 (wr_or 0xE0024000 0x01 (rbus s))\<rparr>"

definition RTCInit :: "rtc_state \<Rightarrow> rtc_state" where
  "RTCInit s = s\<lparr>alarm_on := 0, rbus := wrs [(0xE0024010, 0), (0xE002400C, 0), (0xE0024008, 0x10)] (rbus s)\<rparr>"

definition RTCStart :: "mmio \<Rightarrow> mmio" where
  "RTCStart m = wr 0xE0024000 0x01 (wr_or 0xE0024008 0x01 m)"

definition RTCStop :: "mmio \<Rightarrow> mmio" where
  "RTCStop m = wr_and 0xE0024008 (NOT 0x01) m"

definition RTC_CTCReset :: "mmio \<Rightarrow> mmio" where
  "RTC_CTCReset m = wr_or 0xE0024008 0x02 m"

definition RTCSetTime :: "RTCTime \<Rightarrow> mmio \<Rightarrow> mmio" where
  "RTCSetTime Time m = wrs
     [(0xE0024020, word_of_int (RTC_Sec Time)), (0xE0024024, word_of_int (RTC_Min Time)),
      (0xE0024028, word_of_int (RTC_Hour Time)), (0xE002402C, word_of_int (RTC_Mday Time)),
      (0xE0024030, word_of_int (RTC_Wday Time)), (0xE0024034, word_of_int (RTC_Yday Time)),
      (0xE0024038, word_of_int (RTC_Mon Time)), (0xE002403C, word_of_int (RTC_Year Time))] m"

definition RTCSetAlarm :: "RTCTime \<Rightarrow> mmio \<Rightarrow> mmio" where
  "RTCSetAlarm Alarm m = wrs
     [(0xE0024060, word_of_int (RTC_Sec Alarm)), (0xE0024064, word_of_int (RTC_Min Alarm)),
      (0xE0024068, word_of_int (RTC_Hour Alarm)), (0xE002406C, word_of_int (RTC_Mday Alarm)),
      (0xE0024070, word_of_int (RTC_Wday Alarm)), (0xE0024074, word_of_int (RTC_Yday Alarm)),
      (0xE0024078, word_of_int (RTC_Mon Alarm)), (0xE002407C, word_of_int (RTC_Year Alarm))] m"

definition RTCGetTime :: "mmio \<Rightarrow> RTCTime" where
  "RTCGetTime m = \<lparr>RTC_Sec = sint (rd 0xE0024020 m), RTC_Min = sint (rd 0xE0024024 m),
     RTC_Hour = sint (rd 0xE0024028 m), RTC_Mday = sint (rd 0xE002402C m),
     RTC_Mon = sint (rd 0xE0024038 m), RTC_Year = sint (rd 0xE002403C m),
     RTC_Wday = sint (rd 0xE0024030 m), RTC_Yday = sint (rd 0xE0024034 m)\<rparr>"

definition RTCSetAlarmMask :: "int \<Rightarrow> mmio \<Rightarrow> mmio" where
  "RTCSetAlarmMask AlarmMask m = wr 0xE0024010 (word_of_int AlarmMask) m"

section \<open>Properties\<close>

text \<open>A status register that satisfies \<open>P\<close> again and again ends every polling loop for it.\<close>

definition ready :: "(u32 \<Rightarrow> bool) \<Rightarrow> (nat \<Rightarrow> u32) \<Rightarrow> bool" where
  "ready P f \<longleftrightarrow> (\<forall>n. \<exists>k \<ge> n. P (f k))"

lemma ready_poll: "ready P f \<Longrightarrow> \<exists>k. poll P f n = Some k"
  using poll_returns [of P f n] by (simp add: ready_def)

lemma ready_const: "P v \<Longrightarrow> ready P (\<lambda>_. v)"
  by (auto simp: ready_def)

text \<open>Every store of a PLL setting is followed at once by the two feed writes.\<close>

fun feeds_ok :: "(u32 \<times> u32) list \<Rightarrow> bool" where
  "feeds_ok [] = True"
| "feeds_ok ((a, v) # l) \<longleftrightarrow>
     ((a = PLLCON \<or> a = PLLCFG) \<longrightarrow> take 2 l = [(PLLFEED, 0xaa), (PLLFEED, 0x55)]) \<and> feeds_ok l"

text \<open>What \<open>ConfigurePLL\<close> leaves in the registers, when the PLL was connected before or not.\<close>

definition pll_regs :: "bool \<Rightarrow> mmio \<Rightarrow> mmio" where
  "pll_regs connected m =
     (let m = (if connected then pll_feed (wr PLLCON 1 m) else m);
          m = wr CLKSRCSEL 0x1 (wr_or SCS 0x20 (pll_feed (wr PLLCON 0 m)));
          m = pll_feed (wr PLLCON 1 (pll_feed (wr PLLCFG PLL_MValue m)))
      in pll_feed (wr PLLCON 3 (wr USBCLKCFG USBCLKDivValue (wr CCLKCFG CCLKDivValue m))))"

lemma ConfigurePLL_returns:
  assumes "ready (\<lambda>v. v AND 0x40 \<noteq> 0) scs" "ready (\<lambda>v. v AND push_bit 26 1 \<noteq> 0) pllstat"
    and "ready (\<lambda>v. v AND push_bit 25 1 \<noteq> 0) pllstat" "\<And>k. pllstat k AND 0x7FFF = PLL_MValue"
  shows "ConfigurePLL scs pllstat m = Some (pll_regs (pllstat 0 AND push_bit 25 1 \<noteq> 0) m)"
proof -
  obtain a where a: "poll (\<lambda>v. v AND 0x40 \<noteq> 0) scs 0 = Some a" using ready_poll [OF assms(1)] by blast
  obtain k where k: "poll (\<lambda>v. v AND push_bit 26 1 \<noteq> 0) pllstat 1 = Some k" using ready_poll [OF assms(2)] by blast
  obtain c where c: "poll (\<lambda>v. v AND push_bit 25 1 \<noteq> 0) pllstat (k + 3) = Some c"
    using ready_poll [OF assms(3)] by blast
  show ?thesis
    unfolding ConfigurePLL_def pll_regs_def Let_def a k bind.bind_lunit c assms(4)
    by (simp add: c [simplified])
qed

text \<open>
  With a crystal that starts and a PLL that locks at the requested factors and connects,
  ConfigurePLL returns; every change of a PLL register is followed at once by its feed sequence, and
  the PLL is switched off, configured, switched on and connected in this order.
\<close>
theorem ConfigurePLL_sequence:
  assumes "ready (\<lambda>v. v AND 0x40 \<noteq> 0) scs" "ready (\<lambda>v. v AND push_bit 26 1 \<noteq> 0) pllstat"
    and "ready (\<lambda>v. v AND push_bit 25 1 \<noteq> 0) pllstat" "\<And>k. pllstat k AND 0x7FFF = PLL_MValue"
  shows "\<exists>m' l. ConfigurePLL scs pllstat m = Some m' \<and> wlog m' = wlog m @ l \<and> feeds_ok l \<and>
    filter (\<lambda>(a, _). a \<in> {PLLCON, PLLCFG}) l =
      (if pllstat 0 AND push_bit 25 1 \<noteq> 0 then [(PLLCON, 1)] else []) @
      [(PLLCON, 0), (PLLCFG, PLL_MValue), (PLLCON, 1), (PLLCON, 3)]"
  using ConfigurePLL_returns [OF assms, of m]
  by (cases "pllstat 0 AND push_bit 25 1 = 0") (simp_all add: pll_regs_def pll_feed_def mmio_simps)

theorem ConfigurePLL_sequence_witness: "ConfigurePLL (\<lambda>_. 0x40) (\<lambda>_. 0x0600000B) mmio0 \<noteq> None"
proof -
  have "\<exists>m' l. ConfigurePLL (\<lambda>_. 0x40) (\<lambda>_. 0x0600000B) mmio0 = Some m' \<and> wlog m' = wlog mmio0 @ l \<and> feeds_ok l \<and>
    filter (\<lambda>(a, _). a \<in> {PLLCON, PLLCFG}) l =
      (if (0x0600000B :: u32) AND push_bit 25 1 \<noteq> 0 then [(PLLCON, 1)] else []) @
      [(PLLCON, 0), (PLLCFG, PLL_MValue), (PLLCON, 1), (PLLCON, 3)]"
    by (rule ConfigurePLL_sequence; (rule ready_const)?; simp)
  then show ?thesis by auto
qed

text \<open>The timer settings of one \<open>delay\<close>, and what \<open>SDRAMInit\<close> leaves in the registers.\<close>

definition delay_regs :: "int \<Rightarrow> mmio \<Rightarrow> mmio" where
  "delay_regs d = wrs [(0xE0008004, 0x02), (0xE000800C, 0x00),
     (0xE0008018, word_of_int (d * (28800000 div 1000))),
     (0xE0008000, 0xff), (0xE0008014, 0x04), (0xE0008004, 0x01)]"

definition sdram_regs :: "mmio \<Rightarrow> mmio" where
  "sdram_regs m =
     (let m = wrs sdram_timing (wrs sdram_pins (wr_or SYS_PCONP 0x800 (wr 0xFFE08000 1 m)));
          m = wr EMC_DYN_CTRL 0x183 (delay_regs 100 m);
          m = wr EMC_DYN_RFSH 2 (wr EMC_DYN_CTRL 0x103 (delay_regs 200 m));
          m = wr EMC_DYN_RFSH (word_of_int (57600000 div 250 div 8192) + 1) m;
          m = wr_or EMC_DYN_CFG0 0x80000 (wr EMC_DYN_CTRL 0 (wr EMC_DYN_CTRL 0x83 m))
      in delay_regs 1 m)"

lemma delay_returns:
  assumes "ready (\<lambda>v. v AND 0x01 = 0) tcr"
  shows "\<exists>n'. delay tcr n d m = Some (n', delay_regs d m)"
  using ready_poll [OF assms, of n] by (auto simp: delay_def delay_regs_def Let_def)

lemma SDRAMInit_returns:
  assumes "ready (\<lambda>v. v AND 0x01 = 0) tcr"
  shows "SDRAMInit tcr m = Some (sdram_regs m)"
proof -
  let ?m1 = "wrs sdram_timing (wrs sdram_pins (wr_or SYS_PCONP 0x800 (wr 0xFFE08000 1 m)))"
  let ?m2 = "wr EMC_DYN_CTRL 0x183 (delay_regs 100 ?m1)"
  let ?m3 = "wr_or EMC_DYN_CFG0 0x80000 (wr EMC_DYN_CTRL 0 (wr EMC_DYN_CTRL 0x83
     (wr EMC_DYN_RFSH (word_of_int (57600000 div 250 div 8192) + 1) (wr EMC_DYN_RFSH 2
       (wr EMC_DYN_CTRL 0x103 (delay_regs 200 ?m2))))))"
  obtain n1 where 1: "delay tcr 0 100 ?m1 = Some (n1, delay_regs 100 ?m1)" using delay_returns [OF assms] by blast
  obtain n2 where 2: "delay tcr n1 200 ?m2 = Some (n2, delay_regs 200 ?m2)" using delay_returns [OF assms] by blast
  obtain n3 where 3: "delay tcr n2 1 ?m3 = Some (n3, delay_regs 1 ?m3)" using delay_returns [OF assms] by blast
  show ?thesis
    unfolding SDRAMInit_def sdram_regs_def Let_def 1 bind.bind_lunit prod.case 2 3 by simp
qed

lemmas sdram_defs = sdram_regs_def delay_regs_def sdram_pins_def sdram_timing_def

text \<open>
  With a timer that stops on its match, SDRAMInit returns; the commands reach the memory controller
  in the order the device requires (NOP, precharge all, mode, normal), the final refresh period is 29
  and the buffers are enabled on top of the chip configuration.
\<close>
theorem SDRAMInit_sequence:
  assumes "ready (\<lambda>v. v AND 0x01 = 0) tcr"
  shows "\<exists>m' l. SDRAMInit tcr m = Some m' \<and> wlog m' = wlog m @ l \<and>
    map snd (filter (\<lambda>(a, _). a = EMC_DYN_CTRL) l) = [0x183, 0x103, 0x83, 0x0] \<and>
    rd EMC_DYN_RFSH m' = 29 \<and> rd EMC_DYN_CFG0 m' = 0x00080680"
  by (simp add: SDRAMInit_returns [OF assms] sdram_defs mmio_simps)

theorem SDRAMInit_sequence_witness:
  "\<exists>m'. SDRAMInit (\<lambda>_. 0) mmio0 = Some m' \<and> rd EMC_DYN_CFG0 m' = 0x00080680"
  using SDRAMInit_sequence [OF ready_const [of "\<lambda>v. v AND 0x01 = 0" 0], of mmio0] by auto

text \<open>
  With a serial port that becomes ready again and again, putchar returns and transmits its
  character, a line feed preceded by a carriage return.
\<close>
theorem putchar_sends:
  assumes "ready (\<lambda>v. v AND 0x20 \<noteq> 0) lsr"
  shows "\<exists>n' m'. putchar lsr n c m = Some (n', m') \<and>
    wlog m' = wlog m @ (if c = 10 then [(U0THR, 13), (U0THR, 10)] else [(U0THR, ucast c)])"
proof -
  obtain k where k: "poll (\<lambda>v. v AND 0x20 \<noteq> 0) lsr n = Some k" using ready_poll [OF assms] by blast
  obtain j where j: "poll (\<lambda>v. v AND 0x20 \<noteq> 0) lsr (Suc k) = Some j" using ready_poll [OF assms] by blast
  show ?thesis by (simp add: putchar_def k j mmio_simps)
qed

theorem putchar_sends_witness:
  "\<exists>n' m'. putchar (\<lambda>_. 0x20) 0 10 mmio0 = Some (n', m') \<and> wlog m' = [(U0THR, 13), (U0THR, 10)]"
proof -
  have "ready (\<lambda>v. v AND 0x20 \<noteq> 0) (\<lambda>_. 0x20)" by (rule ready_const) simp
  from putchar_sends [OF this, where n = 0 and c = 10 and m = mmio0] show ?thesis by (auto simp: mmio_simps)
qed

lemma sint_word_of_int_32: "- 2147483648 \<le> x \<Longrightarrow> x \<le> 2147483647 \<Longrightarrow> sint (word_of_int x :: u32) = x"
  by (simp add: sint_sbintrunc' signed_take_bit_int_eq_self)

text \<open>
  The clock returns the time it was set to: for fields in the range of int, RTCGetTime after
  RTCSetTime gives the same record, and setting an alarm or its mask in between does not disturb it.
\<close>
theorem rtc_roundtrip:
  assumes "\<forall>x \<in> {RTC_Sec t, RTC_Min t, RTC_Hour t, RTC_Mday t, RTC_Mon t, RTC_Year t, RTC_Wday t, RTC_Yday t}.
    - 2147483648 \<le> x \<and> x \<le> 2147483647"
  shows "RTCGetTime (RTCSetAlarmMask k (RTCSetAlarm a (RTCSetTime t m))) = t"
  using assms
  by (simp add: RTCGetTime_def RTCSetAlarmMask_def RTCSetAlarm_def RTCSetTime_def mmio_simps
      sint_word_of_int_32)

theorem rtc_roundtrip_witness:
  "let t = \<lparr>RTC_Sec = 1, RTC_Min = 2, RTC_Hour = 3, RTC_Mday = 4, RTC_Mon = 5, RTC_Year = 2010,
     RTC_Wday = 6, RTC_Yday = 7\<rparr> in RTCGetTime (RTCSetAlarmMask 0 (RTCSetAlarm t (RTCSetTime t mmio0))) = t"
  unfolding Let_def by (rule rtc_roundtrip) simp

end
