(* ===== verification/Rprintf.thy ===== *)
theory Rprintf
  imports Platform
begin

text \<open>
  The print routines of \<^verbatim>\<open>platform/rprintf.c\<close> as they are compiled here (\<^verbatim>\<open>RPRINTF_SIMPLE\<close>, without
  floating point). Characters leave through the function pointer \<open>rputchar\<close>, which is a parameter:
  \<open>char_sink\<close> states what the routines need of it, and the serial port's \<open>putchar\<close> provides it.

  A C string is the list of its characters before the terminator; reading beyond the terminator,
  an argument that was not passed, a division by zero and a store outside a buffer are \<open>None\<close>, as is
  a character output that does not return.
\<close>

section \<open>Definitions\<close>

type_synonym 's sink = "u8 \<Rightarrow> 's \<Rightarrow> 's option"

text \<open>The bytes of a string literal.\<close>

definition text_of :: "string \<Rightarrow> u8 list" where
  "text_of = map of_char"

definition HexChars :: "u8 list" where
  "HexChars = [0x30, 0x31, 0x32, 0x33, 0x34, 0x35, 0x36, 0x37, 0x38, 0x39,
               0x41, 0x42, 0x43, 0x44, 0x45, 0x46]"

definition hexchar :: "u8 \<Rightarrow> u8" where
  "hexchar x = HexChars ! unat (x AND 0x0F)"

definition rprintfChar :: "'s sink \<Rightarrow> u8 \<Rightarrow> 's \<Rightarrow> 's option" where
  "rprintfChar rputchar c s = do {
     s \<leftarrow> (if c = 10 then rputchar 13 s else Some s);
     rputchar c s
   }"

fun print_chars :: "'s sink \<Rightarrow> u8 list \<Rightarrow> 's \<Rightarrow> 's option" where
  "print_chars rputchar [] s = Some s"
| "print_chars rputchar (c # str) s = do {
     s \<leftarrow> rprintfChar rputchar c s;
     print_chars rputchar str s
   }"

text \<open>The argument \<open>None\<close> is the null pointer.\<close>

definition rprintfStr :: "'s sink \<Rightarrow> u8 list option \<Rightarrow> 's \<Rightarrow> 's option" where
  "rprintfStr rputchar str s = (case str of None \<Rightarrow> Some s | Some cs \<Rightarrow> print_chars rputchar cs s)"

text \<open>
  \<open>rprintfStrLen\<close> moves its pointer past the terminator when the string is shorter than \<open>start\<close>, so
  its string is the memory from the pointer on. \<open>k\<close> counts the iterations left.
\<close>

fun skip_chars :: "(nat \<Rightarrow> u8) \<Rightarrow> nat \<Rightarrow> nat \<Rightarrow> nat" where
  "skip_chars str 0 p = p"
| "skip_chars str (Suc k) p = (if str p = 0 then Suc p else skip_chars str k (Suc p))"

fun print_len :: "'s sink \<Rightarrow> (nat \<Rightarrow> u8) \<Rightarrow> nat \<Rightarrow> nat \<Rightarrow> 's \<Rightarrow> 's option" where
  "print_len rputchar str 0 p s = Some s"
| "print_len rputchar str (Suc k) p s =
     (if str p \<noteq> 0
      then do { s \<leftarrow> rprintfChar rputchar (str p) s; print_len rputchar str k (Suc p) s }
      else do { s \<leftarrow> rprintfChar rputchar 32 s; print_len rputchar str k p s })"

definition rprintfStrLen :: "'s sink \<Rightarrow> (nat \<Rightarrow> u8) option \<Rightarrow> u8 \<Rightarrow> u8 \<Rightarrow> 's \<Rightarrow> 's option" where
  "rprintfStrLen rputchar str start len s =
     (case str of None \<Rightarrow> Some s
      | Some str \<Rightarrow> print_len rputchar str (unat len) (skip_chars str (unat start) 0) s)"

definition rprintfCRLF :: "'s sink \<Rightarrow> 's \<Rightarrow> 's option" where
  "rprintfCRLF rputchar s = do {
     s \<leftarrow> rprintfChar rputchar 13 s;
     rprintfChar rputchar 10 s
   }"

definition rprintfu04 :: "'s sink \<Rightarrow> u8 \<Rightarrow> 's \<Rightarrow> 's option" where
  "rprintfu04 rputchar data s = rprintfChar rputchar (hexchar data) s"

definition rprintfu08 :: "'s sink \<Rightarrow> u8 \<Rightarrow> 's \<Rightarrow> 's option" where
  "rprintfu08 rputchar data s = do {
     s \<leftarrow> rprintfu04 rputchar (drop_bit 4 data) s;
     rprintfu04 rputchar data s
   }"

definition rprintfu16 :: "'s sink \<Rightarrow> u16 \<Rightarrow> 's \<Rightarrow> 's option" where
  "rprintfu16 rputchar data s = do {
     s \<leftarrow> rprintfu08 rputchar (ucast (drop_bit 8 data)) s;
     rprintfu08 rputchar (ucast data) s
   }"

definition rprintfu32 :: "'s sink \<Rightarrow> u32 \<Rightarrow> 's \<Rightarrow> 's option" where
  "rprintfu32 rputchar data s = do {
     s \<leftarrow> rprintfu16 rputchar (ucast (drop_bit 16 data)) s;
     rprintfu16 rputchar (ucast data) s
   }"

text \<open>
  The digits of \<open>rprintfNum\<close>, built from the end of the buffer: \<open>p\<close> is the string at the pointer,
  whose terminator and characters have to fit into the 32 bytes of \<open>buf\<close>. The values are unsigned,
  so division and remainder are those of natural numbers.
\<close>

definition push_char :: "u8 \<Rightarrow> u8 list \<Rightarrow> u8 list option" where
  "push_char c p = (if length p < 31 then Some (c # p) else None)"

fun num_loop :: "nat \<Rightarrow> u8 \<Rightarrow> nat \<Rightarrow> nat \<Rightarrow> u8 list \<Rightarrow> u8 list option" where
  "num_loop base padchar 0 x p = Some p"
| "num_loop base padchar (Suc count) x p =
     (if x \<noteq> 0
      then do { p \<leftarrow> push_char (hexchar (of_nat (x mod base))) p;
                num_loop base padchar count (x div base) p }
      else do { p \<leftarrow> push_char padchar p; num_loop base padchar count x p })"

definition num_str :: "u8 \<Rightarrow> u8 \<Rightarrow> bool \<Rightarrow> u8 \<Rightarrow> int \<Rightarrow> u8 list option" where
  "num_str base numDigits isSigned padchar n = do {
     let x = unat (word_of_int (if isSigned \<and> n < 0 then - n else n) :: u32);
     let count = numDigits - 1 - (if isSigned then 1 else 0);
     p \<leftarrow> (if base = 0 then None else push_char (hexchar (of_nat (x mod unat base))) []);
     p \<leftarrow> num_loop (unat base) padchar (unat count) (x div unat base) p;
     if isSigned then push_char (if n < 0 then 0x2D else if n > 0 then 0x2B else 0x20) p else Some p
   }"

text \<open>It then prints \<open>numDigits\<close> characters from the pointer on; there have to be that many.\<close>

definition rprintfNum :: "'s sink \<Rightarrow> u8 \<Rightarrow> u8 \<Rightarrow> bool \<Rightarrow> u8 \<Rightarrow> int \<Rightarrow> 's \<Rightarrow> 's option" where
  "rprintfNum rputchar base numDigits isSigned padchar n s = do {
     p \<leftarrow> num_str base numDigits isSigned padchar n;
     if unat numDigits \<le> length p then print_chars rputchar (take (unat numDigits) p) s else None
   }"

text \<open>
  The conversions of \<open>rprintf1RamRom\<close>: the loop that drops leading zeros and the one that prints
  the digits. \<open>hex\<close> tells base 16 from base 10.
\<close>

function first_div :: "nat \<Rightarrow> nat \<Rightarrow> nat" where
  "first_div u_val div_val =
     (if div_val > 1 \<and> div_val > u_val then first_div u_val (div_val div 10) else div_val)"
  by pat_completeness auto
termination by (relation "measure snd") auto

declare first_div.simps [simp del]

function conv_loop :: "'s sink \<Rightarrow> bool \<Rightarrow> nat \<Rightarrow> nat \<Rightarrow> 's \<Rightarrow> 's option" where
  "conv_loop rputchar hex u_val div_val s = do {
     s \<leftarrow> rprintfu04 rputchar (of_nat (u_val div div_val)) s;
     let next = div_val div (if hex then 16 else 10);
     if next = 0 then Some s else conv_loop rputchar hex (u_val mod div_val) next s
   }"
  by pat_completeness auto
termination
  by (relation "measure (\<lambda>(_, _, _, div_val, _). div_val)") (auto simp: div_eq_0_iff split: if_splits)

declare conv_loop.simps [simp del]

definition conv_dec :: "'s sink \<Rightarrow> int \<Rightarrow> 's \<Rightarrow> 's option" where
  "conv_dec rputchar a s = do {
     let u_val = (word_of_int a :: u32);
     s \<leftarrow> (if sint u_val < 0 then rprintfChar rputchar 0x2D s else Some s);
     let u_val = (if sint u_val < 0 then - u_val else u_val);
     conv_loop rputchar False (unat u_val) (first_div (unat u_val) 10000) s
   }"

definition conv_hex :: "'s sink \<Rightarrow> int \<Rightarrow> 's \<Rightarrow> 's option" where
  "conv_hex rputchar a s = conv_loop rputchar True (unat (word_of_int a :: u32)) 0x1000 s"

fun rprintf1RamRom :: "'s sink \<Rightarrow> u8 list \<Rightarrow> int list \<Rightarrow> 's \<Rightarrow> 's option" where
  "rprintf1RamRom rputchar [] ap s = Some s"
| "rprintf1RamRom rputchar (c # format) ap s =
     (if c \<noteq> 0x25 then do { s \<leftarrow> rprintfChar rputchar c s; rprintf1RamRom rputchar format ap s }
      else case format of [] \<Rightarrow> None
      | d # format \<Rightarrow>
          if d = 0x63 \<or> d = 0x64 \<or> d = 0x78 then
            (case ap of [] \<Rightarrow> None
             | a # ap \<Rightarrow> do {
                 s \<leftarrow> (if d = 0x63 then rprintfChar rputchar (word_of_int a) s
                      else if d = 0x64 then conv_dec rputchar a s
                      else conv_hex rputchar a s);
                 rprintf1RamRom rputchar format ap s })
          else do { s \<leftarrow> rprintfChar rputchar d s; rprintf1RamRom rputchar format ap s })"

section \<open>Numerals\<close>

text \<open>The positional digits of a number, most significant first: the reference the loops are compared with.\<close>

fun digits_of :: "nat \<Rightarrow> nat \<Rightarrow> nat list" where
  "digits_of b n = (if b < 2 \<or> n < b then [n] else digits_of b (n div b) @ [n mod b])"

declare digits_of.simps [simp del]

fun fixed_digits :: "nat \<Rightarrow> nat \<Rightarrow> nat \<Rightarrow> nat list" where
  "fixed_digits b 0 n = []"
| "fixed_digits b (Suc k) n = (n div b ^ k) # fixed_digits b k (n mod b ^ k)"

text \<open>Reading digits back.\<close>

definition value_of :: "nat \<Rightarrow> nat list \<Rightarrow> nat" where
  "value_of b ds = foldl (\<lambda>v d. v * b + d) 0 ds"

definition digit_char :: "nat \<Rightarrow> u8" where
  "digit_char d = hexchar (of_nat d)"

lemma value_of_digits: "2 \<le> b \<Longrightarrow> value_of b (digits_of b n) = n"
proof (induction b n rule: digits_of.induct)
  case (1 b n)
  then show ?case
    by (cases "n < b") (simp_all add: digits_of.simps [of b n] value_of_def)
qed

lemma digits_of_bound: "2 \<le> b \<Longrightarrow> d \<in> set (digits_of b n) \<Longrightarrow> d < b"
proof (induction b n rule: digits_of.induct)
  case (1 b n)
  then show ?case
    by (cases "n < b") (auto simp: digits_of.simps [of b n])
qed

lemma fixed_digits_snoc:
  "0 < b \<Longrightarrow> fixed_digits b (Suc (Suc k)) n = fixed_digits b (Suc k) (n div b) @ [n mod b]"
proof (induction k arbitrary: n)
  case (Suc k)
  have "n mod b ^ Suc (Suc k) div b = n div b mod b ^ Suc k"
    using Suc.prems by (simp add: mod_mult2_eq)
  moreover have "n mod b ^ Suc (Suc k) mod b = n mod b"
    by (simp add: mod_mod_cancel)
  moreover have "n div b ^ Suc (Suc k) = n div b div b ^ Suc k"
    by (simp add: div_mult2_eq)
  ultimately show ?case
    using Suc.IH [of "n mod b ^ Suc (Suc k)"] Suc.prems
    by (simp only: fixed_digits.simps(2) [of b "Suc (Suc k)"] fixed_digits.simps(2) [of b "Suc k" "n div b"]) simp
qed simp

lemma fixed_digits_eq:
  assumes "2 \<le> b" "n < b ^ Suc k" "k = 0 \<or> b ^ k \<le> n"
  shows "fixed_digits b (Suc k) n = digits_of b n"
  using assms
proof (induction k arbitrary: n)
  case 0
  then show ?case by (simp add: digits_of.simps)
next
  case (Suc k)
  have lo: "b ^ Suc k \<le> n" using Suc.prems by simp
  have "b \<le> b ^ Suc k" using Suc.prems(1) by (simp add: self_le_power)
  then have nb: "\<not> n < b" using lo by linarith
  have "n div b < b ^ Suc k" using Suc.prems(1,2) by (simp add: less_mult_imp_div_less mult.commute)
  moreover have "b ^ k \<le> n div b"
    using lo Suc.prems(1) by (metis div_le_mono nonzero_mult_div_cancel_left not_numeral_le_zero power_Suc)
  ultimately have "fixed_digits b (Suc k) (n div b) = digits_of b (n div b)"
    using Suc.IH Suc.prems(1) by simp
  then show ?case
    using fixed_digits_snoc [of b k n] Suc.prems(1) nb digits_of.simps [of b n]
    by (simp del: fixed_digits.simps)
qed

lemma fixed_digits_bound: "n < b ^ k \<Longrightarrow> d \<in> set (fixed_digits b k n) \<Longrightarrow> d < b"
proof (induction k arbitrary: n)
  case (Suc k)
  then have "0 < b" by (cases b) auto
  then have "n div b ^ k < b" "n mod b ^ k < b ^ k"
    using Suc.prems(1) by (simp_all add: less_mult_imp_div_less)
  then show ?case using Suc.IH [of "n mod b ^ k"] Suc.prems(2) by auto
qed simp

section \<open>The character output\<close>

text \<open>
  \<open>emits good out f bs\<close>: from every good state the operation returns in a good state, with exactly
  the bytes \<open>bs\<close> added to the output.
\<close>

definition emits :: "('s \<Rightarrow> bool) \<Rightarrow> ('s \<Rightarrow> u8 list) \<Rightarrow> ('s \<Rightarrow> 's option) \<Rightarrow> u8 list \<Rightarrow> bool" where
  "emits good out f bs \<longleftrightarrow> (\<forall>s. good s \<longrightarrow> (\<exists>s'. f s = Some s' \<and> good s' \<and> out s' = out s @ bs))"

lemma emits_Some: "emits good out Some []"
  by (simp add: emits_def)

lemma emits_bind:
  assumes "emits good out f xs" "emits good out g ys"
  shows "emits good out (\<lambda>s. f s \<bind> g) (xs @ ys)"
  unfolding emits_def
proof (intro allI impI)
  fix s assume "good s"
  then obtain s1 where 1: "f s = Some s1" "good s1" "out s1 = out s @ xs"
    using assms(1) unfolding emits_def by blast
  then obtain s2 where "g s1 = Some s2" "good s2" "out s2 = out s1 @ ys"
    using assms(2) unfolding emits_def by blast
  with 1 show "\<exists>s'. (f s \<bind> g) = Some s' \<and> good s' \<and> out s' = out s @ xs @ ys" by simp
qed

text \<open>\<open>rprintfChar\<close> turns a line feed into carriage return and line feed; \<open>enc\<close> is what the device makes of a byte.\<close>

definition crlf :: "u8 \<Rightarrow> u8 list" where
  "crlf c = (if c = 10 then [13, 10] else [c])"

definition sent :: "(u8 \<Rightarrow> u8 list) \<Rightarrow> u8 list \<Rightarrow> u8 list" where
  "sent enc bs = concat (map enc (concat (map crlf bs)))"

lemma sent_simps [simp]:
  "sent enc [] = []" "sent enc (c # bs) = concat (map enc (crlf c)) @ sent enc bs"
  "sent enc (xs @ ys) = sent enc xs @ sent enc ys"
  by (simp_all add: sent_def)

text \<open>The decimal numeral of a signed number and the last four hexadecimal digits of a word.\<close>

definition dec_str :: "int \<Rightarrow> u8 list" where
  "dec_str v = (if v < 0 then [0x2D] else []) @ map digit_char (digits_of 10 (nat \<bar>v\<bar>))"

definition hex4_str :: "int \<Rightarrow> u8 list" where
  "hex4_str v = map digit_char (fixed_digits 16 4 (nat (v mod 65536)))"

text \<open>
  What a format string means: the specification of \<open>rprintf1RamRom\<close>. A lone percent sign at the
  end, a missing argument and a decimal of more than five digits have no meaning.
\<close>

fun format_spec :: "u8 list \<Rightarrow> int list \<Rightarrow> u8 list option" where
  "format_spec [] ap = Some []"
| "format_spec (c # format) ap =
     (if c \<noteq> 0x25 then map_option ((#) c) (format_spec format ap)
      else case format of [] \<Rightarrow> None
      | d # format \<Rightarrow>
          if d = 0x63 \<or> d = 0x64 \<or> d = 0x78 then
            (case ap of [] \<Rightarrow> None
             | a # ap \<Rightarrow>
                 if d = 0x63 then map_option ((#) (word_of_int a)) (format_spec format ap)
                 else if d = 0x64 then
                   (if \<bar>a\<bar> < 100000 then map_option ((@) (dec_str a)) (format_spec format ap) else None)
                 else map_option ((@) (hex4_str a)) (format_spec format ap))
          else map_option ((#) d) (format_spec format ap))"

lemma hexchar_range: "hexchar x \<noteq> 10"
proof -
  have "unat (x AND 0x0F) \<le> 15"
    using word_and_le1 [of x "0x0F"] by (simp add: word_le_nat_alt)
  then have "unat (x AND 0x0F) < length HexChars" by (simp add: HexChars_def)
  then have "HexChars ! unat (x AND 0x0F) \<in> set HexChars" by (rule nth_mem)
  then show ?thesis by (auto simp: hexchar_def HexChars_def)
qed

lemma first_div_spec:
  "\<exists>j \<le> k. first_div u (10 ^ k) = 10 ^ j \<and> (j = 0 \<or> 10 ^ j \<le> u) \<and> (j < k \<longrightarrow> u < 10 ^ Suc j)"
proof (induction k)
  case 0
  show ?case by (simp add: first_div.simps)
next
  case (Suc k)
  show ?case
  proof (cases "10 ^ Suc k > u")
    case True
    have "first_div u (10 ^ Suc k) = first_div u (10 ^ k)"
      using True one_less_power [of "10 :: nat" "Suc k"] by (subst first_div.simps) simp
    then show ?thesis using Suc.IH True by (metis le_Suc_eq le_neq_implies_less)
  next
    case False
    then have "first_div u (10 ^ Suc k) = 10 ^ Suc k" by (subst first_div.simps) simp
    then show ?thesis using False by (intro exI [of _ "Suc k"]) simp
  qed
qed

lemma low_nibble: "x AND 0x0F = take_bit 4 x" for x :: u8
  using take_bit_eq_mask [of 4 x] by (simp add: mask_eq_exp_minus_1)

lemma digit_char_mod: "digit_char (d mod 16) = digit_char d"
proof -
  have "(of_nat (d mod 16) :: u8) AND 0x0F = of_nat d AND 0x0F"
  proof -
    have t: "take_bit 4 (of_nat n :: u8) = of_nat (n mod 16)" for n
      by (simp only: take_bit_of_nat take_bit_eq_mod [where 'a = nat]) simp
    show ?thesis by (simp add: low_nibble t)
  qed
  then show ?thesis by (simp only: digit_char_def hexchar_def)
qed

lemma hex4_digits:
  "map digit_char (fixed_digits 16 4 (unat (word_of_int a :: u32))) = hex4_str a"
proof -
  let ?u = "unat (word_of_int a :: u32)"
  have "int (?u mod 65536) = a mod 65536"
    by (simp add: zmod_int uint_word_of_int mod_mod_cancel)
  then have u: "nat (a mod 65536) = ?u mod 65536" by linarith
  have d: "?u mod 65536 div 4096 = ?u div 4096 mod 16"
    using mod_mult2_eq [of ?u 4096 16] by simp
  have r: "?u mod 65536 mod 4096 = ?u mod 4096" by (simp add: mod_mod_cancel)
  have f: "fixed_digits 16 4 n = (n div 4096) # fixed_digits 16 3 (n mod 4096)" for n
    using fixed_digits.simps(2) [of 16 3 n] by simp
  show ?thesis by (simp only: hex4_str_def u f d r list.map digit_char_mod)
qed

text \<open>The digits of \<open>rprintfNum\<close>, least significant first from the end of the buffer.\<close>

definition sig_digits :: "nat \<Rightarrow> nat \<Rightarrow> nat list" where
  "sig_digits b x = (if x = 0 then [] else digits_of b x)"

lemma sig_digits_snoc: "2 \<le> b \<Longrightarrow> x \<noteq> 0 \<Longrightarrow> sig_digits b x = sig_digits b (x div b) @ [x mod b]"
  using digits_of.simps [of b x] by (cases "x < b") (simp_all add: sig_digits_def div_eq_0_iff)

lemma digits_of_sig: "2 \<le> b \<Longrightarrow> digits_of b x = sig_digits b (x div b) @ [x mod b]"
  using sig_digits_snoc [of b x]
  by (cases "x = 0") (simp_all add: digits_of.simps [of b 0] sig_digits_def)

lemma sig_digits_length: "2 \<le> b \<Longrightarrow> x < b ^ k \<Longrightarrow> length (sig_digits b x) \<le> k"
proof (induction k arbitrary: x)
  case 0
  then show ?case by (simp add: sig_digits_def)
next
  case (Suc k)
  then have "x div b < b ^ k" by (simp add: less_mult_imp_div_less mult.commute)
  then show ?case
    using Suc sig_digits_snoc [of b x] by (cases "x = 0") (simp_all add: sig_digits_def [of b 0])
qed

lemma num_loop_spec:
  assumes "2 \<le> b" "x < b ^ count" "length p + count \<le> 31"
  shows "num_loop b pad count x p =
    Some (replicate (count - length (sig_digits b x)) pad @ map digit_char (sig_digits b x) @ p)"
  using assms(2,3)
proof (induction count arbitrary: x p)
  case 0
  then show ?case by (simp add: sig_digits_def)
next
  case (Suc count)
  have q: "x div b < b ^ count" using Suc.prems assms(1) by (simp add: less_mult_imp_div_less mult.commute)
  show ?case
  proof (cases "x = 0")
    case True
    then show ?thesis
      using Suc.IH [of 0 "pad # p"] Suc.prems assms(1)
      by (simp add: push_char_def sig_digits_def replicate_append_same)
  next
    case False
    then show ?thesis
      using Suc.IH [OF q, of "digit_char (x mod b) # p"] Suc.prems sig_digits_snoc [OF assms(1) False]
      by (simp add: push_char_def digit_char_def)
  qed
qed

lemma num_str_spec:
  fixes base numDigits :: u8 and n :: int and isSigned :: bool
  defines "sg \<equiv> if isSigned then 1 else (0 :: nat)"
  defines "x \<equiv> unat (word_of_int (if isSigned \<and> n < 0 then - n else n) :: u32)"
  assumes "2 \<le> unat base" "sg < unat numDigits" "unat numDigits \<le> 31" "x < unat base ^ (unat numDigits - sg)"
  shows "num_str base numDigits isSigned pad n = Some (
    (if isSigned then [if n < 0 then 0x2D else if n > 0 then 0x2B else 0x20] else []) @
    replicate (unat numDigits - sg - length (digits_of (unat base) x)) pad @
    map digit_char (digits_of (unat base) x))"
proof -
  define w where "w = unat numDigits - sg - 1"
  have w: "unat numDigits = Suc (w + sg)" using assms(4) by (simp add: w_def)
  have nz: "base \<noteq> 0" using assms(3) by auto
  have sg1: "unat (if isSigned then 1 else 0 :: u8) = sg" by (simp add: sg_def)
  have c: "unat (numDigits - 1 - (if isSigned then 1 else 0)) = w"
  proof -
    have 1: "unat (numDigits - 1) = w + sg"
      using w unat_sub [of 1 numDigits] by (simp add: word_le_nat_alt)
    then show ?thesis
      using unat_sub [of "if isSigned then 1 else 0" "numDigits - 1"] sg1
      by (simp add: word_le_nat_alt)
  qed
  have q: "x div unat base < unat base ^ w"
    using assms(3,6) w by (simp add: less_mult_imp_div_less mult.commute)
  note l = num_loop_spec [OF assms(3) q, of "[digit_char (x mod unat base)]" pad]
  have len: "length (sig_digits (unat base) (x div unat base)) \<le> w"
    by (rule sig_digits_length [OF assms(3) q])
  show ?thesis
    unfolding num_str_def x_def [symmetric] Let_def c
    using l w nz assms(5) len digits_of_sig [OF assms(3), of x]
    by (auto simp: push_char_def digit_char_def sg_def split: if_splits)
qed

lemma fixed_digits_length: "length (fixed_digits b k n) = k"
  by (induction k arbitrary: n) simp_all

lemma fixed_digits_value: "n < b ^ k \<Longrightarrow> value_of b (fixed_digits b k n) = n"
proof -
  have f: "foldl (\<lambda>v d. v * b + d) a (fixed_digits b k n) = a * b ^ k + n" if "n < b ^ k" for a
    using that
  proof (induction k arbitrary: n a)
    case (Suc k)
    then have "0 < b" by (cases b) auto
    then have "n mod b ^ k < b ^ k" by simp
    from Suc.IH [OF this, of "a * b + n div b ^ k"] show ?case by (simp add: algebra_simps)
  qed simp
  show "n < b ^ k \<Longrightarrow> value_of b (fixed_digits b k n) = n" using f [of 0] by (simp add: value_of_def)
qed

lemma digits_of_length: "2 \<le> b \<Longrightarrow> b ^ k \<le> n \<Longrightarrow> k < length (digits_of b n)"
proof (induction k arbitrary: n)
  case 0
  then show ?case by (simp add: digits_of.simps [of b n])
next
  case (Suc k)
  have "b \<le> b ^ Suc k" using Suc.prems(1) by (simp add: self_le_power)
  then have "\<not> n < b" using Suc.prems(2) by linarith
  moreover have "b ^ k \<le> n div b"
    using Suc.prems by (metis div_le_mono nonzero_mult_div_cancel_left not_numeral_le_zero power_Suc)
  ultimately show ?case using Suc.IH [of "n div b"] Suc.prems(1) digits_of.simps [of b n] by simp
qed

text \<open>The nibbles of a word are its hexadecimal digits.\<close>

lemma nibble: "hexchar (ucast (w :: 'a :: len word)) = digit_char (unat w)"
  by (simp add: digit_char_def)

lemma digit_char_part:
  assumes "i < j"
  shows "digit_char (n mod 16 ^ j div 16 ^ i) = digit_char (n div 16 ^ i)"
proof -
  obtain k where j: "j = i + Suc k" using assms less_imp_Suc_add by auto
  have "n mod 16 ^ j div 16 ^ i = n div 16 ^ i mod 16 ^ Suc k"
    unfolding j power_add by (simp add: mod_mult2_eq)
  then have "n mod 16 ^ j div 16 ^ i mod 16 = n div 16 ^ i mod 16" by (simp add: mod_mod_cancel)
  then show ?thesis by (metis digit_char_mod)
qed

lemma fixed_digits_chars:
  "map digit_char (fixed_digits 16 (Suc k) n) = map (\<lambda>i. digit_char (n div 16 ^ i)) (rev [0 ..< Suc k])"
proof (induction k arbitrary: n)
  case (Suc k)
  show ?case
    using Suc.IH [of "n mod 16 ^ Suc k"]
    by (subst fixed_digits.simps(2)) (simp add: digit_char_part del: fixed_digits.simps power_Suc)
qed simp

lemma nibbles:
  "map (\<lambda>k. hexchar (ucast (drop_bit k (ucast (drop_bit 16 d) :: u16)))) [12, 8, 4, 0] @
   map (\<lambda>k. hexchar (ucast (drop_bit k (ucast d :: u16)))) [12, 8, 4, 0] =
   map digit_char (fixed_digits 16 8 (unat (d :: u32)))"
proof -
  let ?n = "unat d"
  have b: "?n < 4294967296" using unsigned_less [of d, where 'a = nat] by simp
  have h: "unat (ucast (d div 65536) :: u16) = ?n div 65536"
    using b by (simp add: unsigned_ucast_eq take_bit_eq_mod drop_bit_eq_div unat_div less_mult_imp_div_less)
  have l: "unat (ucast d :: u16) = ?n mod 65536" by (simp add: unsigned_ucast_eq take_bit_eq_mod)
  have p: "digit_char (?n mod 65536 div 4096) = digit_char (?n div 4096)"
    "digit_char (?n mod 65536 div 256) = digit_char (?n div 256)"
    "digit_char (?n mod 65536 div 16) = digit_char (?n div 16)"
    "digit_char (?n mod 65536) = digit_char ?n"
    using digit_char_part [of 3 4 ?n] digit_char_part [of 2 4 ?n] digit_char_part [of 1 4 ?n]
      digit_char_part [of 0 4 ?n] by simp_all
  have r: "rev [0 ..< Suc 7] = [7, 6, 5, 4, 3, 2, 1, 0 :: nat]" by (simp add: upt_rec)
  have "map digit_char (fixed_digits 16 (Suc 7) ?n) = map (\<lambda>i. digit_char (?n div 16 ^ i)) [7, 6, 5, 4, 3, 2, 1, 0]"
    unfolding fixed_digits_chars r ..
  then show ?thesis
    by (simp add: nibble unat_div drop_bit_eq_div h l p div_mult2_eq [symmetric] del: fixed_digits.simps)
qed

locale char_sink =
  fixes put :: "'s sink"
    and good :: "'s \<Rightarrow> bool"
    and out :: "'s \<Rightarrow> u8 list"
    and enc :: "u8 \<Rightarrow> u8 list"
  assumes put_emits: "emits good out (put c) (enc c)"
begin

lemma char_emits: "emits good out (rprintfChar put c) (sent enc [c])"
proof (cases "c = 10")
  case True
  have "emits good out (\<lambda>s. put 13 s \<bind> put c) (enc 13 @ enc c)"
    by (intro emits_bind put_emits)
  then show ?thesis using True by (simp add: rprintfChar_def [abs_def] crlf_def)
next
  case False
  then show ?thesis using put_emits by (simp add: rprintfChar_def [abs_def] crlf_def)
qed

lemma chars_emits: "emits good out (print_chars put bs) (sent enc bs)"
proof (induction bs)
  case Nil
  then show ?case using emits_Some by (simp add: print_chars.simps(1) [abs_def])
next
  case (Cons c bs)
  have "print_chars put (c # bs) = (\<lambda>s. rprintfChar put c s \<bind> print_chars put bs)" by auto
  then show ?case using emits_bind [OF char_emits [of c] Cons.IH] by simp
qed

lemma u04_emits: "emits good out (rprintfu04 put d) (sent enc [hexchar d])"
  unfolding rprintfu04_def [abs_def] by (rule char_emits)

lemma u08_emits:
  "emits good out (rprintfu08 put d) (sent enc [hexchar (drop_bit 4 d), hexchar d])"
  using emits_bind [OF u04_emits [of "drop_bit 4 d"] u04_emits [of d]] unfolding rprintfu08_def [abs_def] by simp

lemma conv_emits:
  assumes "d = b ^ k" "b = (if hex then 16 else 10)"
  shows "emits good out (conv_loop put hex u d) (sent enc (map digit_char (fixed_digits b (Suc k) u)))"
  using assms(1)
proof (induction k arbitrary: u d)
  case 0
  have "conv_loop put hex u d = rprintfu04 put (of_nat u)"
    using 0 by (intro ext) (simp add: conv_loop.simps)
  then show ?case using u04_emits [of "of_nat u"] by (simp add: digit_char_def)
next
  case (Suc k)
  have n: "d div b = b ^ k" and p: "b ^ k \<noteq> 0" using Suc.prems assms(2) by auto
  have "conv_loop put hex u d = (\<lambda>s. rprintfu04 put (of_nat (u div d)) s \<bind> conv_loop put hex (u mod d) (b ^ k))"
    using n p assms(2) by (intro ext) (subst conv_loop.simps, simp add: Let_def)
  then show ?case
    using emits_bind [OF u04_emits [of "of_nat (u div d)"] Suc.IH [OF refl, of "u mod d"]] Suc.prems
    by (simp add: digit_char_def)
qed

lemma dec_emits:
  assumes "\<bar>a\<bar> < 100000"
  shows "emits good out (conv_dec put a) (sent enc (dec_str a))"
proof -
  let ?w = "word_of_int a :: u32"
  let ?u = "unat (if sint ?w < 0 then - ?w else ?w)"
  have si: "sint ?w = a" using assms by (intro sint_word_of_int_32) linarith+
  have u: "?u = nat \<bar>a\<bar>"
  proof -
    have e: "(if sint ?w < 0 then - ?w else ?w) = word_of_int \<bar>a\<bar>" by (simp add: si)
    have "int (unat (word_of_int \<bar>a\<bar> :: u32)) = \<bar>a\<bar>" using assms by (simp add: uint_word_of_int)
    then have "unat (word_of_int \<bar>a\<bar> :: u32) = nat \<bar>a\<bar>" by linarith
    then show ?thesis unfolding e .
  qed
  define n where "n = nat \<bar>a\<bar>"
  from first_div_spec [of 4 n] obtain j where
    "j \<le> 4 \<and> first_div n (10 ^ 4) = 10 ^ j \<and> (j = 0 \<or> 10 ^ j \<le> n) \<and> (j < 4 \<longrightarrow> n < 10 ^ Suc j)" by (rule exE)
  note j = this [THEN conjunct1] this [THEN conjunct2, THEN conjunct1]
    this [THEN conjunct2, THEN conjunct2, THEN conjunct1] this [THEN conjunct2, THEN conjunct2, THEN conjunct2]
  have "n < 10 ^ Suc j"
  proof (cases "j < 4")
    case False
    then have "j = 4" using j(1) by linarith
    then show ?thesis using assms by (simp add: n_def)
  qed (use j(4) in simp)
  then have f: "fixed_digits 10 (Suc j) n = digits_of 10 n"
    using fixed_digits_eq [of 10 n j] j(3) by simp
  have c: "emits good out (conv_loop put False n (first_div n 10000)) (sent enc (map digit_char (digits_of 10 n)))"
    using conv_emits [of "10 ^ j" 10 j False n] j(2) f by (simp del: fixed_digits.simps)
  have e: "conv_dec put a = (\<lambda>s. (if a < 0 then rprintfChar put 0x2D s else Some s) \<bind>
      conv_loop put False n (first_div n 10000))"
    unfolding conv_dec_def [abs_def] Let_def u unfolding si n_def ..
  show ?thesis
  proof (cases "a < 0")
    case True
    then show ?thesis using emits_bind [OF char_emits [of "0x2D"] c] by (simp add: e dec_str_def n_def)
  next
    case False
    then show ?thesis using c by (simp add: e dec_str_def n_def)
  qed
qed

lemma hex_emits: "emits good out (conv_hex put a) (sent enc (hex4_str a))"
proof -
  have "Suc 3 = (4 :: nat)" "(0x1000 :: nat) = 16 ^ 3" by simp_all
  then show ?thesis
    using conv_emits [of "0x1000" 16 3 True "unat (word_of_int a :: u32)"]
    by (simp only: hex4_digits if_True conv_hex_def [abs_def])
qed

lemma format_emits:
  "format_spec format ap = Some bs \<Longrightarrow> emits good out (rprintf1RamRom put format ap) (sent enc bs)"
proof (induction "length format" arbitrary: format ap bs rule: less_induct)
  case less
  have piece: ?case
    if "emits good out g (sent enc xs)" "length f < length format" "format_spec f ap' = Some bs'"
      "bs = xs @ bs'" "rprintf1RamRom put format ap = (\<lambda>s. g s \<bind> rprintf1RamRom put f ap')" for g xs f ap' bs'
    using emits_bind [OF that(1) less.hyps [OF that(2,3)]] that(4,5) by simp
  show ?case
  proof (cases format)
    case Nil
    then show ?thesis using emits_Some less.prems by (simp add: rprintf1RamRom.simps(1) [abs_def])
  next
    case fmt: (Cons c f)
    show ?thesis
    proof (cases "c = 0x25")
      case False
      then obtain bs' where b: "format_spec f ap = Some bs'" "bs = c # bs'" using less.prems fmt by auto
      show ?thesis
        by (rule piece [OF char_emits, of f ap bs' c]) (use b fmt False in auto)
    next
      case c: True
      then obtain d g where f: "f = d # g" using less.prems fmt by (cases f) auto
      show ?thesis
      proof (cases "d = 0x63 \<or> d = 0x64 \<or> d = 0x78")
        case False
        then obtain bs' where b: "format_spec g ap = Some bs'" "bs = d # bs'" using less.prems fmt c f by auto
        show ?thesis
          by (rule piece [OF char_emits, of g ap bs' d]) (use b fmt c f False in auto)
      next
        case d: True
        then obtain a ap' where a: "ap = a # ap'" using less.prems fmt c f by (cases ap) auto
        consider "d = 0x63" | "d = 0x64" | "d = 0x78" using d by blast
        then show ?thesis
        proof cases
          case 1
          then obtain bs' where b: "format_spec g ap' = Some bs'" "bs = word_of_int a # bs'"
            using less.prems fmt c f a by auto
          show ?thesis
            by (rule piece [OF char_emits, of g ap' bs' "word_of_int a"]) (use b fmt c f a 1 in auto)
        next
          case 2
          then obtain bs' where b: "format_spec g ap' = Some bs'" "bs = dec_str a @ bs'" "\<bar>a\<bar> < 100000"
            using less.prems fmt c f a by (auto split: if_splits)
          show ?thesis
            by (rule piece [OF dec_emits, of a g ap' bs']) (use b fmt c f a 2 in auto)
        next
          case 3
          then obtain bs' where b: "format_spec g ap' = Some bs'" "bs = hex4_str a @ bs'"
            using less.prems fmt c f a by auto
          show ?thesis
            by (rule piece [OF hex_emits, of g ap' bs' a]) (use b fmt c f a 3 in auto)
        qed
      qed
    qed
  qed
qed

lemma num_emits:
  assumes "num_str base numDigits isSigned pad n = Some p" "unat numDigits = length p"
  shows "emits good out (rprintfNum put base numDigits isSigned pad n) (sent enc p)"
  using chars_emits [of p] assms by (simp add: rprintfNum_def [abs_def])

lemma u16_emits:
  "emits good out (rprintfu16 put d) (sent enc (map (\<lambda>k. hexchar (ucast (drop_bit k d))) [12, 8, 4, 0]))"
proof -
  have e: "hexchar (drop_bit 4 (ucast x)) = hexchar (ucast (drop_bit 4 x) :: u8)" for x :: u16
  proof -
    have "drop_bit 4 (ucast x) AND 0x0F = (ucast (drop_bit 4 x) :: u8) AND 0x0F"
      unfolding low_nibble by (rule bit_eqI) (auto simp: bit_simps)
    then show ?thesis by (simp only: hexchar_def)
  qed
  show ?thesis
    using emits_bind [OF u08_emits [of "ucast (drop_bit 8 d)"] u08_emits [of "ucast d"]]
    by (simp add: rprintfu16_def [abs_def] e)
qed

lemma u32_emits:
  "emits good out (rprintfu32 put d) (sent enc (map digit_char (fixed_digits 16 8 (unat d))))"
proof -
  have "emits good out (rprintfu32 put d) (sent enc (
      map (\<lambda>k. hexchar (ucast (drop_bit k (ucast (drop_bit 16 d) :: u16)))) [12, 8, 4, 0] @
      map (\<lambda>k. hexchar (ucast (drop_bit k (ucast d :: u16)))) [12, 8, 4, 0]))"
    using emits_bind [OF u16_emits [of "ucast (drop_bit 16 d)"] u16_emits [of "ucast d"]]
    unfolding rprintfu32_def [abs_def] sent_simps(3) .
  then show ?thesis by (simp only: nibbles)
qed

lemma wide_dec_emits:
  assumes "100000 \<le> a" "a < 2147483648"
  shows "emits good out (conv_dec put a) (sent enc (map digit_char (fixed_digits 10 5 (nat a))))"
proof -
  let ?w = "word_of_int a :: u32"
  have si: "sint ?w = a" using assms by (intro sint_word_of_int_32) linarith+
  have "int (unat ?w) = a" using assms by (simp add: uint_word_of_int)
  then have u: "unat ?w = nat a" by linarith
  have nn: "\<not> a < 0" and nd: "\<not> 10000 > nat a" using assms by linarith+
  have e: "conv_dec put a = conv_loop put False (nat a) 10000"
    unfolding conv_dec_def [abs_def] Let_def si using nn nd u by (simp add: first_div.simps)
  have "(10000 :: nat) = 10 ^ 4" "Suc 4 = (5 :: nat)" by simp_all
  then show ?thesis
    using conv_emits [of 10000 10 4 False "nat a"] unfolding e by (simp only: if_False)
qed

end

section \<open>Printing on the serial port\<close>

definition uart_put :: "(nat \<Rightarrow> u32) \<Rightarrow> (nat \<times> mmio) sink" where
  "uart_put lsr c = (\<lambda>(n, m). putchar lsr n c m)"

text \<open>The bytes stored into the transmit register, in order.\<close>

definition uart_out :: "mmio \<Rightarrow> u8 list" where
  "uart_out m = map (\<lambda>(a, v). ucast v) (filter (\<lambda>(a, v). a = U0THR) (wlog m))"

lemma uart_out_wr: "uart_out (wr a v m) = uart_out m @ (if a = U0THR then [ucast v] else [])"
  by (simp add: uart_out_def mmio_simps)

lemma ucast_u8_u32: "ucast (ucast c :: u32) = (c :: u8)"
  by (rule bit_eqI) (auto simp: bit_simps)

abbreviation "uart_ready lsr \<equiv> ready (\<lambda>v. v AND 0x20 \<noteq> 0) lsr"

interpretation us: char_sink "uart_put lsr" "\<lambda>_. uart_ready lsr" "\<lambda>(n, m). uart_out m" crlf for lsr
proof unfold_locales
  fix c
  show "emits (\<lambda>_. uart_ready lsr) (\<lambda>(n, m). uart_out m) (uart_put lsr c) (crlf c)"
    unfolding emits_def
  proof (intro allI impI)
    fix s :: "nat \<times> mmio" assume r: "uart_ready lsr"
    obtain n m where s: "s = (n, m)" by (cases s)
    obtain k where k: "poll (\<lambda>v. v AND 0x20 \<noteq> 0) lsr n = Some k" using ready_poll [OF r] by blast
    obtain j where j: "poll (\<lambda>v. v AND 0x20 \<noteq> 0) lsr (Suc k) = Some j" using ready_poll [OF r] by blast
    show "\<exists>s'. uart_put lsr c s = Some s' \<and> uart_ready lsr \<and>
        (case s' of (n, m) \<Rightarrow> uart_out m) = (case s of (n, m) \<Rightarrow> uart_out m) @ crlf c"
      by (simp add: s uart_put_def putchar_def k j r uart_out_def mmio_simps crlf_def ucast_u8_u32)
  qed
qed

lemma uart_emits:
  assumes "emits (\<lambda>_. uart_ready lsr) (\<lambda>(n, m). uart_out m) f (sent crlf bs)" "uart_ready lsr"
  shows "\<exists>n' m'. f (n, m) = Some (n', m') \<and> uart_out m' = uart_out m @ sent crlf bs"
  using assms unfolding emits_def by fastforce

text \<open>On the serial port both \<open>rprintfChar\<close> and \<open>putchar\<close> put a carriage return before a line feed.\<close>

lemma sent_crlf: "sent crlf bs = concat (map (\<lambda>c. if c = 10 then [13, 13, 10] else [c]) bs)"
  by (induction bs) (simp_all add: crlf_def)

lemma sent_plain: "10 \<notin> set bs \<Longrightarrow> sent crlf bs = bs"
  by (induction bs) (simp_all add: crlf_def)

lemma digit_char_plain: "digit_char d \<noteq> 10"
  by (simp add: digit_char_def hexchar_range)

text \<open>
  C11 rprintf implements its format language: on a serial port that becomes ready again and again,
  printing a format with its arguments returns and transmits exactly the text the specification
  gives, with characters and decimals of up to five digits as such and hexadecimals as their last
  four digits; every line feed goes out as two carriage returns and a line feed.
\<close>
theorem rprintf_format:
  assumes "uart_ready lsr" "format_spec format ap = Some bs"
  shows "\<exists>n' m'. rprintf1RamRom (uart_put lsr) format ap (n, m) = Some (n', m') \<and>
    uart_out m' = uart_out m @ concat (map (\<lambda>c. if c = 10 then [13, 13, 10] else [c]) bs)"
  using uart_emits [OF us.format_emits [OF assms(2)] assms(1), of n m] by (simp only: sent_crlf)

theorem rprintf_format_witness:
  "\<exists>n' m'. rprintf1RamRom (uart_put (\<lambda>_. 0x20)) [0x52, 0x3A, 0x25, 0x64, 0x25, 0x78, 10] [-17, 255] (0, mmio0) = Some (n', m') \<and>
    uart_out m' = [0x52, 0x3A, 0x2D, 0x31, 0x37, 0x30, 0x30, 0x46, 0x46, 13, 13, 10]"
proof -
  have r: "uart_ready (\<lambda>_. 0x20)" by (rule ready_const) simp
  have f: "format_spec [0x52, 0x3A, 0x25, 0x64, 0x25, 0x78, 10] [-17, 255] =
    Some [0x52, 0x3A, 0x2D, 0x31, 0x37, 0x30, 0x30, 0x46, 0x46, 10]"
    by code_simp
  from rprintf_format [OF r f, of 0 mmio0] show ?thesis by (simp add: uart_out_def mmio_simps)
qed

text \<open>
  rprintfNum prints a number right-justified in a field of at most 31 characters whose digits fit:
  the sign (a blank for zero) when asked for, then the padding, then exactly the digits of the
  number in the base. Reading the digits back gives the number.
\<close>
theorem rprintfNum_prints:
  fixes base numDigits :: u8 and n :: int and isSigned :: bool
  defines "sg \<equiv> if isSigned then 1 else (0 :: nat)"
  defines "x \<equiv> unat (word_of_int (if isSigned \<and> n < 0 then - n else n) :: u32)"
  assumes "uart_ready lsr" "2 \<le> unat base" "sg < unat numDigits" "unat numDigits \<le> 31"
    "x < unat base ^ (unat numDigits - sg)" "padchar \<noteq> 10"
  shows "\<exists>k' m' ds. rprintfNum (uart_put lsr) base numDigits isSigned padchar n (k, m) = Some (k', m') \<and>
    uart_out m' = uart_out m @ (if isSigned then [if n < 0 then 0x2D else if n > 0 then 0x2B else 0x20] else []) @
      replicate (unat numDigits - sg - length ds) padchar @ map digit_char ds \<and>
    ds = digits_of (unat base) x \<and> value_of (unat base) ds = x \<and> sg + length ds \<le> unat numDigits"
proof -
  let ?ds = "digits_of (unat base) x"
  let ?p = "(if isSigned then [if n < 0 then 0x2D else if n > 0 then 0x2B else 0x20] else []) @
    replicate (unat numDigits - sg - length ?ds) padchar @ map digit_char ?ds"
  have s: "num_str base numDigits isSigned padchar n = Some ?p"
    using num_str_spec [of base isSigned numDigits n padchar] assms(3-7) unfolding sg_def x_def by simp
  have "x div unat base < unat base ^ (unat numDigits - sg - 1)"
    using assms(4,5,7) by (cases "unat numDigits - sg") (simp_all add: less_mult_imp_div_less mult.commute)
  from sig_digits_length [OF assms(4) this] digits_of_sig [OF assms(4), of x] assms(5)
  have l: "sg + length ?ds \<le> unat numDigits" by simp
  then have "unat numDigits = length ?p" by (simp add: sg_def)
  from uart_emits [OF us.num_emits [OF s this] assms(3), of k m]
  obtain k' m' where "rprintfNum (uart_put lsr) base numDigits isSigned padchar n (k, m) = Some (k', m')"
    "uart_out m' = uart_out m @ sent crlf ?p" by blast
  moreover have "sent crlf ?p = ?p"
    by (rule sent_plain) (use assms(8) digit_char_plain in \<open>auto split: if_splits\<close>)
  ultimately show ?thesis
    using l value_of_digits [OF assms(4), of x] by (intro exI [of _ k'] exI [of _ m'] exI [of _ ?ds]) simp
qed

theorem rprintfNum_prints_witness:
  "\<exists>k' m'. rprintfNum (uart_put (\<lambda>_. 0x20)) 10 6 True 0x20 1234 (0, mmio0) = Some (k', m') \<and>
    uart_out m' = [0x2B, 0x20, 0x31, 0x32, 0x33, 0x34]"
proof -
  have r: "uart_ready (\<lambda>_. 0x20)" by (rule ready_const) simp
  have d: "map digit_char (digits_of 10 1234) = [0x31, 0x32, 0x33, 0x34]" by code_simp
  then have l: "length (digits_of 10 1234) = 4" using length_map [of digit_char "digits_of 10 1234"] by simp
  from rprintfNum_prints [OF r, of 10 True 6 1234 "0x20" 0 mmio0] d l
  show ?thesis by (auto simp: uart_out_def mmio_simps)
qed

text \<open>
  The decimal conversion of rprintf handles five digits: a larger positive number is printed as
  exactly five characters, so never as its decimal numeral.
\<close>
theorem rprintf_dec_truncates:
  assumes "uart_ready lsr" "100000 \<le> a" "a < 2147483648"
  shows "\<exists>n' m' bs. rprintf1RamRom (uart_put lsr) [0x25, 0x64] [a] (n, m) = Some (n', m') \<and>
    uart_out m' = uart_out m @ bs \<and> length bs = 5 \<and> bs \<noteq> dec_str a"
proof -
  let ?bs = "map digit_char (fixed_digits 10 5 (nat a))"
  have "sent crlf ?bs = ?bs" by (rule sent_plain) (auto simp: digit_char_plain)
  moreover have "10 ^ 5 \<le> nat a" using assms(2) by simp
  then have "5 < length (dec_str a)" using digits_of_length [of 10 5 "nat a"] assms(2) by (simp add: dec_str_def)
  moreover have "rprintf1RamRom (uart_put lsr) [0x25, 0x64] [a] (n, m) = conv_dec (uart_put lsr) a (n, m)"
    by (cases "conv_dec (uart_put lsr) a (n, m)") simp_all
  ultimately show ?thesis
    using uart_emits [OF us.wide_dec_emits [OF assms(2,3)] assms(1), of n m]
    by (metis fixed_digits_length length_map less_irrefl)
qed

theorem rprintf_dec_truncates_witness:
  "\<exists>n' m' bs. rprintf1RamRom (uart_put (\<lambda>_. 0x20)) [0x25, 0x64] [123456] (0, mmio0) = Some (n', m') \<and>
    uart_out m' = uart_out mmio0 @ bs \<and> length bs = 5 \<and> bs \<noteq> dec_str 123456"
  by (rule rprintf_dec_truncates [OF ready_const]) simp_all

text \<open>
  rprintfu32 prints a word as eight hexadecimal digits that read back as the word.
\<close>
theorem rprintfu32_prints:
  assumes "uart_ready lsr"
  shows "\<exists>n' m' ds. rprintfu32 (uart_put lsr) d (n, m) = Some (n', m') \<and>
    uart_out m' = uart_out m @ map digit_char ds \<and> length ds = 8 \<and> value_of 16 ds = unat d \<and> (\<forall>x \<in> set ds. x < 16)"
proof -
  let ?ds = "fixed_digits 16 8 (unat d)"
  have b: "unat d < 16 ^ 8" using unsigned_less [of d, where 'a = nat] by simp
  have "sent crlf (map digit_char ?ds) = map digit_char ?ds" by (rule sent_plain) (auto simp: digit_char_plain)
  then show ?thesis
    using uart_emits [OF us.u32_emits assms, of d n m] fixed_digits_value [OF b] fixed_digits_length
      fixed_digits_bound [OF b] by metis
qed

theorem rprintfu32_prints_witness:
  "\<exists>n' m' ds. rprintfu32 (uart_put (\<lambda>_. 0x20)) 0xCAFE (0, mmio0) = Some (n', m') \<and>
    uart_out m' = uart_out mmio0 @ map digit_char ds \<and> length ds = 8 \<and> value_of 16 ds = unat (0xCAFE :: u32)"
  using rprintfu32_prints [OF ready_const [of "\<lambda>v. v AND 0x20 \<noteq> 0" "0x20"], of "0xCAFE" 0 mmio0] by auto

end
