(* ===== verification/Startup.thy ===== *)
theory Startup
  imports Irq Rprintf
begin

text \<open>
  What the main programs share when they start: hardware that answers the polling loops of the clock,
  the timer and the serial port, what the first calls leave on the bus, and the message that the CAN
  program and the cursor program print.
\<close>

definition main_banner :: "u8 list" where
  "main_banner = text_of ''LCD calibrate test program '' @ [10]"

text \<open>Printing changes the data register of the serial port only.\<close>

definition same_but_tx :: "mmio \<Rightarrow> mmio \<Rightarrow> bool" where
  "same_but_tx m m' \<longleftrightarrow> (\<forall>a. a \<noteq> U0THR \<longrightarrow> rd a m' = rd a m \<and> stores_at a m' = stores_at a m)"

lemma same_but_tx_wr [simp]: "same_but_tx m (wr U0THR v m') = same_but_tx m m'"
  by (simp add: same_but_tx_def rd_wr stores_at_wr)

interpretation ub: char_sink "uart_put lsr" "\<lambda>(n, m'). uart_ready lsr \<and> same_but_tx m0 m'"
  "\<lambda>(n, m). uart_out m" crlf for lsr m0
proof unfold_locales
  fix c
  let ?good = "\<lambda>(n, m'). uart_ready lsr \<and> same_but_tx m0 m'"
  show "emits ?good (\<lambda>(n, m). uart_out m) (uart_put lsr c) (crlf c)"
    unfolding emits_def
  proof (intro allI impI)
    fix s :: "nat \<times> mmio" assume g: "?good s"
    obtain n m where s: "s = (n, m)" by (cases s)
    have r: "uart_ready lsr" using g s by simp
    obtain k where k: "poll (\<lambda>v. v AND 0x20 \<noteq> 0) lsr n = Some k" using ready_poll [OF r] by blast
    obtain j where j: "poll (\<lambda>v. v AND 0x20 \<noteq> 0) lsr (Suc k) = Some j" using ready_poll [OF r] by blast
    show "\<exists>s'. uart_put lsr c s = Some s' \<and> ?good s' \<and>
        (case s' of (n, m) \<Rightarrow> uart_out m) = (case s of (n, m) \<Rightarrow> uart_out m) @ crlf c"
      using g by (simp add: s uart_put_def putchar_def k j uart_out_def mmio_simps crlf_def ucast_u8_u32)
  qed
qed

lemma rprintf_keeps:
  assumes "uart_ready lsr" "format_spec format ap = Some bs"
  shows "\<exists>n' m'. rprintf1RamRom (uart_put lsr) format ap (n, m) = Some (n', m') \<and>
    uart_out m' = uart_out m @ sent crlf bs \<and> (\<forall>a. a \<noteq> U0THR \<longrightarrow> rd a m' = rd a m) \<and>
    (\<forall>a. a \<noteq> U0THR \<longrightarrow> stores_at a m' = stores_at a m)"
  using ub.format_emits [OF assms(2), of lsr m] assms(1) unfolding emits_def same_but_tx_def by fastforce

text \<open>Hardware that answers every polling loop of the start-up: crystal and PLL, timer, serial port.\<close>

definition hw_ready :: "(nat \<Rightarrow> u32) \<Rightarrow> (nat \<Rightarrow> u32) \<Rightarrow> (nat \<Rightarrow> u32) \<Rightarrow> (nat \<Rightarrow> u32) \<Rightarrow> bool" where
  "hw_ready scs pllstat tcr lsr \<longleftrightarrow>
     ready (\<lambda>v. v AND 0x40 \<noteq> 0) scs \<and> ready (\<lambda>v. v AND push_bit 26 1 \<noteq> 0) pllstat \<and>
     ready (\<lambda>v. v AND push_bit 25 1 \<noteq> 0) pllstat \<and> (\<forall>k. pllstat k AND 0x7FFF = PLL_MValue) \<and>
     ready (\<lambda>v. v AND 0x01 = 0) tcr \<and> uart_ready lsr"

lemma lowLevelInit_pins:
  assumes "hw_ready scs pllstat tcr lsr"
  shows "\<exists>m'. lowLevelInit scs pllstat m = Some m' \<and> rd PINSEL0 m' = 0 \<and> rd PCLKSEL0 m' = 0xAAAAAAAA"
  using assms
  by (simp add: hw_ready_def lowLevelInit_def ConfigurePLL_returns Let_def pll_regs_def pll_feed_def mmio_simps)

lemma init_VIC_other:
  assumes "uint a < 0xFFFFF000"
  shows "rd a (init_VIC m) = rd a m"
proof -
  have "vect_addr (int i) \<noteq> a \<and> vect_cntl (int i) \<noteq> a" if "i \<in> set [0..<32]" for i
  proof -
    have i: "0 \<le> int i" "int i < 32" using that by simp_all
    show ?thesis using vect_addr_eq [OF i] vect_cntl_eq [OF i] i assms by force
  qed
  moreover have "a \<noteq> VICIntEnClr" "a \<noteq> VICVectAddr" "a \<noteq> VICIntSelect" using assms by auto
  ultimately show ?thesis
    using rd_fold_wr_pairs [of "[0..<32]" "\<lambda>i. vect_addr (int i)" a "\<lambda>i. vect_cntl (int i)"]
    by (simp add: init_VIC_def Let_def rd_wr)
qed

lemma init_VIC_pinsel: "rd PINSEL0 (init_VIC m) = rd PINSEL0 m"
  by (rule init_VIC_other) simp

lemma uart_out_other [simp]: "a \<noteq> U0THR \<Longrightarrow> uart_out (wr a v m) = uart_out m"
  by (simp add: uart_out_wr)

lemma uart_out_stores: "uart_out m = map ucast (stores_at U0THR m)"
proof -
  have "map (\<lambda>(a, v). ucast v) (filter (\<lambda>(a, v). a = U0THR) l) = map ucast (map snd (filter (\<lambda>p. fst p = U0THR) l))" for l
    by (induction l) auto
  then show ?thesis by (simp add: uart_out_def stores_at_def)
qed

lemma banner_format: "format_spec main_banner [] = Some main_banner"
  by code_simp

lemma hw_ready_const: "hw_ready (\<lambda>_. 0x40) (\<lambda>_. 0x0600000B) (\<lambda>_. 0) (\<lambda>_. 0x20)"
  by (simp add: hw_ready_def ready_const)

end
