(* ===== verification/Can_Main.thy ===== *)
theory Can_Main
  imports Can_System Startup
begin

text \<open>
  The whole program \<^verbatim>\<open>main.c\<close>: the start-up of clock, interrupt controller, serial port and SDRAM,
  the message it prints, opening both CAN controllers, enabling interrupts, and the endless loop, in
  which the interrupt handler may run any number of times between two rounds. The build has
  \<open>USE_PRINTF\<close> undefined, so the loop prints nothing; its counting delay has no effect on the state.
  The status reads of the polled hardware are parameters: \<open>scs\<close> and \<open>pllstat\<close> of the clock, \<open>tcr\<close> of
  the timer, \<open>lsr\<close> of the serial port.
\<close>

section \<open>The program\<close>

definition main_init :: "(nat \<Rightarrow> u32) \<Rightarrow> (nat \<Rightarrow> u32) \<Rightarrow> (nat \<Rightarrow> u32) \<Rightarrow> (nat \<Rightarrow> u32) \<Rightarrow> (nat \<Rightarrow> 1 word) \<Rightarrow> u32 \<Rightarrow>
    u32 \<Rightarrow> can_state \<Rightarrow> (can_dev option \<times> can_dev option \<times> u32 \<times> can_state) option" where
  "main_init scs pllstat tcr lsr bs hnd cpsr s = do {
     m \<leftarrow> lowLevelInit scs pllstat (bus s);
     let m = init_VIC m;
     let m = initUart0 (UART_BPS 28800000 115200) UART_8N1 m;
     m \<leftarrow> SDRAMInit tcr m;
     (_, m) \<leftarrow> rprintf1RamRom (uart_put lsr) main_banner [] (0, m);
     (candev1, candev2, s) \<leftarrow> main_open bs hnd (s\<lparr>bus := m\<rparr>);
     let (_, cpsr) = enableIRQ cpsr;
     Some (candev1, candev2, cpsr, prof PROF_DIR PROF_PIN_MASK s)
   }"

text \<open>The handler runs once for every element of a list, with what each capture register read returns.\<close>

fun irqs :: "icr_read list \<Rightarrow> can_state \<Rightarrow> can_state option" where
  "irqs [] s = Some s"
| "irqs (rd_icr # l) s = do { s \<leftarrow> CAN_Handler rd_icr s; irqs l s }"

text \<open>Rounds of the loop, each after the interrupts listed for it.\<close>

fun main_rounds :: "icr_read list list \<Rightarrow> can_dev \<Rightarrow> can_dev \<Rightarrow> CANMSG_T \<Rightarrow> CANMSG_T \<Rightarrow> can_state \<Rightarrow>
    (CANMSG_T \<times> CANMSG_T \<times> can_state) option" where
  "main_rounds [] candev1 candev2 TxMsg RxMsg s = Some (TxMsg, RxMsg, s)"
| "main_rounds (l # ls) candev1 candev2 TxMsg RxMsg s = do {
     s \<leftarrow> irqs l s;
     (TxMsg, RxMsg, s) \<leftarrow> main_iter candev1 candev2 TxMsg RxMsg s;
     main_rounds ls candev1 candev2 TxMsg RxMsg s
   }"

definition main :: "icr_read list list \<Rightarrow> (nat \<Rightarrow> u32) \<Rightarrow> (nat \<Rightarrow> u32) \<Rightarrow> (nat \<Rightarrow> u32) \<Rightarrow> (nat \<Rightarrow> u32) \<Rightarrow>
    (nat \<Rightarrow> 1 word) \<Rightarrow> u32 \<Rightarrow> u32 \<Rightarrow> can_state \<Rightarrow> (CANMSG_T \<times> CANMSG_T \<times> can_state) option" where
  "main ls scs pllstat tcr lsr bs hnd cpsr s = do {
     (candev1, candev2, _, s) \<leftarrow> main_init scs pllstat tcr lsr bs hnd cpsr s;
     (case (candev1, candev2) of
        (Some d1, Some d2) \<Rightarrow> main_rounds ls d1 d2 msg0 msg0 s
      | _ \<Rightarrow> None)
   }"

section \<open>The start-up\<close>

text \<open>What opening one controller leaves on the bus.\<close>

definition open_bus :: "can_dev \<Rightarrow> u32 \<Rightarrow> mmio \<Rightarrow> mmio" where
  "open_bus d hnd m = snd (install_irq CAN_INT hnd HIGHEST_PRIORITY (wr CAN_AFMR 2 (can_pins d m)))"

lemma main_open_bus:
  assumes "\<not> init (cfg Can1cfg s)" "\<not> init (cfg Can2cfg s)" "main_open bs hnd s = Some (h1, h2, s')"
  shows "bus s' = open_bus Can2cfg hnd (open_bus Can1cfg hnd (bus s))"
proof -
  obtain s1 where 1: "can_open hnd (base Can1cfg) s = (Some Can1cfg, s1)"
    "can_ioctl bs Can1cfg 0 2 s1 = Some (NO_ERROR, upd_dev Can1cfg (opened_cfg Can1cfg (cfg Can1cfg s))
       (baud_regs (opened_regs (dregs Can1cfg s))) s1)"
    "\<forall>e. e \<noteq> Can1cfg \<longrightarrow> cfg e s1 = cfg e s \<and> dregs e s1 = dregs e s"
    using assms(1) by (rule open_and_set)
  let ?s1 = "upd_dev Can1cfg (opened_cfg Can1cfg (cfg Can1cfg s)) (baud_regs (opened_regs (dregs Can1cfg s))) s1"
  have n: "\<not> init (cfg Can2cfg ?s1)" using 1(3) assms(2) by (simp del: cfg.simps)
  obtain s2 where 2: "can_open hnd (base Can2cfg) ?s1 = (Some Can2cfg, s2)"
    "can_ioctl bs Can2cfg 0 2 s2 = Some (NO_ERROR, upd_dev Can2cfg (opened_cfg Can2cfg (cfg Can2cfg ?s1))
       (baud_regs (opened_regs (dregs Can2cfg ?s1))) s2)"
    "\<forall>e. e \<noteq> Can2cfg \<longrightarrow> cfg e s2 = cfg e ?s1 \<and> dregs e s2 = dregs e ?s1"
    using n by (rule open_and_set)
  have "bus s1 = open_bus Can1cfg hnd (bus s)"
    using 1(1) by (auto simp: can_open_fresh [OF assms(1)] open_bus_def simp del: base.simps cfg.simps dregs.simps can_pins.simps)
  moreover have "bus s2 = open_bus Can2cfg hnd (bus ?s1)"
    using 2(1) by (auto simp: can_open_fresh [OF n] open_bus_def simp del: base.simps cfg.simps dregs.simps can_pins.simps)
  moreover have "bus s' = bus s2"
    using assms(3) 1(1,2) 2(1,2) unfolding base.simps by (auto simp: main_open_def simp del: cfg.simps dregs.simps)
  ultimately show ?thesis by simp
qed

lemma open_bus_simps:
  "uart_out (open_bus d hnd m) = uart_out m"
  "rd PINSEL0 (open_bus Can1cfg hnd m) = (rd PINSEL0 m AND NOT 0xF) OR 5"
  "rd PINSEL0 (open_bus Can2cfg hnd m) = (rd PINSEL0 m AND NOT 0xF00) OR 0xA05"
  "rd (vect_addr 23) (open_bus d hnd m) = hnd" "rd (vect_cntl 23) (open_bus d hnd m) = 1"
  by (cases d; simp add: open_bus_def install_irq_def Let_def vect_addr_def vect_cntl_def wr_or_def wr_and_def rd_wr)+

lemma main_init_ex:
  assumes "hw_ready scs pllstat tcr lsr"
  obtains s' pre where
    "main_init scs pllstat tcr lsr bs hnd cpsr can0 = Some (Some Can1cfg, Some Can2cfg, cpsr AND NOT IRQ_MASK, s')"
    "\<forall>d. cfg d s' = opened_cfg d cfg0 \<and> dregs d s' = baud_regs (opened_regs regs0)"
    "rd PINSEL0 (bus s') = 0xA55" "rd (vect_addr 23) (bus s') = hnd" "rd (vect_cntl 23) (bus s') = 1"
    "uart_out (bus s') = pre @ sent crlf main_banner"
proof -
  have hw: "ready (\<lambda>v. v AND 0x01 = 0) tcr" "uart_ready lsr" using assms by (simp_all add: hw_ready_def)
  obtain m1 where 1: "lowLevelInit scs pllstat mmio0 = Some m1" "rd PINSEL0 m1 = 0"
    using lowLevelInit_pins [OF assms] by blast
  let ?m2 = "sdram_regs (initUart0 (UART_BPS 28800000 115200) UART_8N1 (init_VIC m1))"
  have 2: "rd PINSEL0 ?m2 = 0x50"
    using init_VIC_pinsel [of m1] 1(2) by (simp add: sdram_defs initUart0_def mmio_simps Let_def)
  obtain n m where 3: "rprintf1RamRom (uart_put lsr) main_banner [] (0, ?m2) = Some (n, m)"
    "uart_out m = uart_out ?m2 @ sent crlf main_banner" "rd PINSEL0 m = 0x50"
    using rprintf_keeps [OF hw(2) banner_format, of 0 ?m2] 2 by auto
  have i: "\<not> init (cfg Can1cfg (can0\<lparr>bus := m\<rparr>))" "\<not> init (cfg Can2cfg (can0\<lparr>bus := m\<rparr>))"
    by (simp_all del: cfg.simps)
  obtain s where 4: "main_open bs hnd (can0\<lparr>bus := m\<rparr>) = Some (Some Can1cfg, Some Can2cfg, s)"
    "\<forall>d. cfg d s = opened_cfg d (cfg d (can0\<lparr>bus := m\<rparr>)) \<and>
       dregs d s = baud_regs (opened_regs (dregs d (can0\<lparr>bus := m\<rparr>)))"
    using i by (rule main_open_ex)
  have b: "bus s = open_bus Can2cfg hnd (open_bus Can1cfg hnd m)" using main_open_bus [OF i 4(1)] by simp
  have "main_init scs pllstat tcr lsr bs hnd cpsr can0 =
      Some (Some Can1cfg, Some Can2cfg, cpsr AND NOT IRQ_MASK, prof PROF_DIR PROF_PIN_MASK s)"
    unfolding main_init_def can0_simps 1(1) Let_def bind.bind_lunit SDRAMInit_returns [OF hw(1)] 3(1) prod.case 4(1)
    by (simp add: enableIRQ_def)
  then show ?thesis
    by (rule that [of _ "uart_out ?m2"])
      (use 4(2) in \<open>simp_all add: b prof_def open_bus_simps 3(2,3) rd_wr vect_addr_def vect_cntl_def
         del: cfg.simps dregs.simps\<close>, simp_all add: open_bus_simps [unfolded vect_addr_def vect_cntl_def, simplified])
qed

section \<open>The loop\<close>

abbreviation both_ready :: "can_state \<Rightarrow> bool" where
  "both_ready s \<equiv> can_inv s \<and> (\<forall>d. init (cfg d s))"

lemma irqs_return:
  assumes "both_ready s"
  shows "\<exists>s'. irqs l s = Some s' \<and> both_ready s'"
  using assms
proof (induction l arbitrary: s)
  case (Cons rd_icr l)
  then have "regptr (cfg d s) = base d" for d using can_invD(2) [of s d] by blast
  then obtain s1 where 1: "CAN_Handler rd_icr s = Some s1"
      "\<forall>d. (cfg d s1, dregs d s1) = serve rd_icr (cfg d s) (dregs d s)"
    using CAN_Handler_runs [of s rd_icr] Cons.prems by (auto simp del: cfg.simps dregs.simps)
  have "init (cfg d s1)" for d
    using serve_keeps [OF can_invD(1) [of s d], of rd_icr "dregs d s"] Cons.prems 1(2) by (metis fst_conv)
  then have "both_ready s1" using CAN_Handler_inv [OF _ 1(1)] Cons.prems by blast
  then show ?case using Cons.IH [of s1] 1(1) by simp
qed simp

lemma main_rounds_return:
  assumes "both_ready s"
  shows "\<exists>RxMsg' s'. main_rounds ls Can1cfg Can2cfg TxMsg RxMsg s =
      Some (if ls = [] then TxMsg else TxMsg\<lparr>MsgID := MsgID TxMsg + of_nat (length ls), DLC := 7\<rparr>, RxMsg', s') \<and>
    both_ready s'"
  using assms
proof (induction ls arbitrary: TxMsg RxMsg s)
  case (Cons l ls)
  obtain s1 where 1: "irqs l s = Some s1" "both_ready s1" using irqs_return [OF Cons.prems] by blast
  let ?m = "TxMsg\<lparr>MsgID := MsgID TxMsg + 1, DLC := 7\<rparr>"
  obtain s2 where 2: "main_iter Can1cfg Can2cfg TxMsg RxMsg s1 = Some (?m, last (RxMsg # rxq (cfg Can2cfg s1)), s2)"
      "can_inv s2" "init (cfg Can1cfg s2)" "init (cfg Can2cfg s2)"
    using main_iter_ex [of s1 TxMsg RxMsg] 1(2) unfolding Let_def by blast
  have "both_ready s2" using 2(2-4) by (metis can_dev.exhaust)
  from Cons.IH [OF this, of ?m "last (RxMsg # rxq (cfg Can2cfg s1))"] show ?case
    by (cases "ls = []") (auto simp: 1(1) 2(1) add.assoc simp del: cfg.simps)
qed simp

section \<open>Properties\<close>

text \<open>
  C18 On hardware that answers its polling loops, the start-up of main returns with both CAN
  controllers open, in the driver invariant and with empty queues, interrupts enabled in the
  processor, the CAN vector pointing to the handler at the highest priority, the pins of serial port
  and both controllers selected (none of the three undoes another's), and the message printed.
\<close>
theorem main_init_ready:
  assumes "hw_ready scs pllstat tcr lsr"
  shows "\<exists>s' pre. main_init scs pllstat tcr lsr bs hnd cpsr can0 =
      Some (Some Can1cfg, Some Can2cfg, cpsr AND NOT IRQ_MASK, s') \<and> can_inv s' \<and>
    (\<forall>d. init (cfg d s') \<and> txq (cfg d s') = [] \<and> rxq (cfg d s') = []) \<and>
    rd (vect_addr 23) (bus s') = hnd \<and> rd (vect_cntl 23) (bus s') = HIGHEST_PRIORITY \<and>
    rd PINSEL0 (bus s') = 0xA55 \<and>
    uart_out (bus s') = pre @ concat (map (\<lambda>c. if c = 10 then [13, 13, 10] else [c]) main_banner)"
proof -
  obtain s' pre where s':
    "main_init scs pllstat tcr lsr bs hnd cpsr can0 = Some (Some Can1cfg, Some Can2cfg, cpsr AND NOT IRQ_MASK, s')"
    "\<forall>d. cfg d s' = opened_cfg d cfg0 \<and> dregs d s' = baud_regs (opened_regs regs0)"
    "rd PINSEL0 (bus s') = 0xA55" "rd (vect_addr 23) (bus s') = hnd" "rd (vect_cntl 23) (bus s') = 1"
    "uart_out (bus s') = pre @ sent crlf main_banner"
    using assms by (rule main_init_ex)
  have "can_inv s'" unfolding can_inv_def s'(2) [rule_format, THEN conjunct1] by simp
  with s' show ?thesis by (auto simp: sent_crlf simp del: cfg.simps)
qed

text \<open>
  C15 main never gets stuck: on hardware that answers the start-up, for every number of rounds of the
  loop and every sequence of interrupts before each of them, no pointer is null and every round
  returns; after n rounds the identifier of the message sent is n, modulo 2^32, and both devices are
  still open in the driver invariant.
\<close>
theorem main_runs:
  assumes "hw_ready scs pllstat tcr lsr"
  shows "\<exists>TxMsg RxMsg s'. main ls scs pllstat tcr lsr bs hnd cpsr can0 = Some (TxMsg, RxMsg, s') \<and>
    MsgID TxMsg = of_nat (length ls) \<and> can_inv s' \<and> (\<forall>d. init (cfg d s'))"
proof -
  obtain s pre where s:
    "main_init scs pllstat tcr lsr bs hnd cpsr can0 = Some (Some Can1cfg, Some Can2cfg, cpsr AND NOT IRQ_MASK, s)"
    "\<forall>d. cfg d s = opened_cfg d cfg0 \<and> dregs d s = baud_regs (opened_regs regs0)"
    "rd PINSEL0 (bus s) = 0xA55" "rd (vect_addr 23) (bus s) = hnd" "rd (vect_cntl 23) (bus s) = 1"
    "uart_out (bus s) = pre @ sent crlf main_banner"
    using assms by (rule main_init_ex)
  have "can_inv s" unfolding can_inv_def s(2) [rule_format, THEN conjunct1] by simp
  then have "both_ready s" using s(2) by (simp del: cfg.simps)
  from main_rounds_return [OF this, of ls msg0 msg0] show ?thesis
    by (cases "ls = []") (auto simp: main_def s(1) msg0_def)
qed

theorem main_init_ready_witness:
  "\<exists>s'. main_init (\<lambda>_. 0x40) (\<lambda>_. 0x0600000B) (\<lambda>_. 0) (\<lambda>_. 0x20) (\<lambda>_. 0) 0x4000 0xD3 can0 =
      Some (Some Can1cfg, Some Can2cfg, 0x53, s') \<and> rd PINSEL0 (bus s') = 0xA55"
  using main_init_ready [OF hw_ready_const, of "\<lambda>_. 0" "0x4000" "0xD3"] by auto

theorem main_runs_witness:
  "\<exists>TxMsg RxMsg s'. main [[], [\<lambda>r. (canicr r, r)], []] (\<lambda>_. 0x40) (\<lambda>_. 0x0600000B) (\<lambda>_. 0) (\<lambda>_. 0x20)
     (\<lambda>_. 0) 0x4000 0xD3 can0 = Some (TxMsg, RxMsg, s') \<and> MsgID TxMsg = 3"
  using main_runs [OF hw_ready_const, of "[[], [\<lambda>r. (canicr r, r)], []]" "\<lambda>_. 0" "0x4000" "0xD3"] by auto

end
