(* ===== verification/Can_Type.thy ===== *)
theory Can_Type
  imports Can_System
begin

text \<open>
  The CAN driver as a typed interface: every sequence of calls of \<^verbatim>\<open>drivers/can.c\<close>, with any arguments, in
  any order and with the interrupt handler anywhere between them, keeps the two device structures
  well formed, so that no ring is ever indexed outside its 256 slots; and a call fails only where
  the code follows a null register pointer or waits for a bus that never answers.
\<close>

datatype can_call =
    Open u32
  | Close can_dev
  | Ioctl can_dev int int
  | Read can_dev int
  | Write can_dev "nat \<Rightarrow> CANMSG_T" int
  | Irq icr_read

text \<open>\<open>bs\<close> is the bus status an ioctl polls, \<open>hnd\<close> the address of the handler.\<close>

fun do_call :: "(nat \<Rightarrow> 1 word) \<Rightarrow> u32 \<Rightarrow> can_call \<Rightarrow> can_state \<Rightarrow> can_state option" where
  "do_call bs hnd (Open ipbase) s = Some (snd (can_open hnd ipbase s))"
| "do_call bs hnd (Close d) s = Some (snd (can_close d s))"
| "do_call bs hnd (Ioctl d cmd arg) s = map_option snd (can_ioctl bs d cmd arg s)"
| "do_call bs hnd (Read d n) s = map_option snd (can_read d n s)"
| "do_call bs hnd (Write d buf n) s = map_option snd (can_write d buf n s)"
| "do_call bs hnd (Irq rd_icr) s = CAN_Handler rd_icr s"

fun do_calls :: "(nat \<Rightarrow> 1 word) \<Rightarrow> u32 \<Rightarrow> can_call list \<Rightarrow> can_state \<Rightarrow> can_state option" where
  "do_calls bs hnd [] s = Some s"
| "do_calls bs hnd (c # cs) s = do { s \<leftarrow> do_call bs hnd c s; do_calls bs hnd cs s }"

section \<open>Preservation and progress\<close>

lemma can_read_inv: "can_inv s \<Longrightarrow> can_read d n s = Some (v, s') \<Longrightarrow> can_inv s'"
  using with_regs_inv [OF _ read_keeps, of s d n v s'] by (auto simp: can_read_def split: if_splits)

lemma can_write_inv: "can_inv s \<Longrightarrow> can_write d buf n s = Some (v, s') \<Longrightarrow> can_inv s'"
  using with_regs_inv [OF _ write_keeps, of s d buf n v s'] by (auto simp: can_write_def split: if_splits)

lemma do_call_inv:
  assumes "can_inv s" "do_call bs hnd c s = Some s'"
  shows "can_inv s'"
  using assms
  by (cases c) (auto simp: can_open_inv can_close_inv
      intro: can_ioctl_inv can_read_inv can_write_inv CAN_Handler_inv)

lemma do_calls_inv: "can_inv s \<Longrightarrow> do_calls bs hnd cs s = Some s' \<Longrightarrow> can_inv s'"
  by (induction cs arbitrary: s) (auto simp: bind_eq_Some_conv dest: do_call_inv)

lemma with_regs_open: "can_inv s \<Longrightarrow> init (cfg d s) \<Longrightarrow> with_regs d f s \<noteq> None"
  by (simp add: with_regs_base can_invD(2) case_prod_beta)

lemma CAN_Handler_faults:
  assumes "can_inv s"
  shows "(CAN_Handler rd_icr s = None) = (\<exists>d. regptr (cfg d s) = 0)"
proof (cases "\<exists>d. regptr (cfg d s) = 0")
  case True
  let ?s = "s\<lparr>bus := wr PROF_SET PROF_PIN_4 (bus s)\<rparr>"
  show ?thesis
  proof (cases "regptr (cfg Can1cfg s) = 0")
    case True
    then have "handle_dev rd_icr Can1cfg ?s = None" by (intro handle_dev_null) (simp del: cfg.simps)
    with True show ?thesis by (auto simp: CAN_Handler_def Let_def simp del: cfg.simps)
  next
    case False
    then have 2: "regptr (cfg Can2cfg s) = 0" and 1: "regptr (cfg Can1cfg s) = base Can1cfg"
      using True can_invD(3) [OF assms, of Can1cfg] by (metis can_dev.exhaust)+
    have "\<exists>s1. handle_dev rd_icr Can1cfg ?s = Some s1 \<and> regptr (cfg Can2cfg s1) = 0"
      using 1 2 can_invD(1) [OF assms, of Can1cfg]
      by (subst handle_dev_serve) (simp_all add: case_prod_beta del: cfg.simps dregs.simps base.simps)
    then show ?thesis using True by (auto simp: CAN_Handler_def Let_def handle_dev_null simp del: cfg.simps)
  qed
next
  case False
  then have "regptr (cfg d s) = base d" for d using can_invD(3) [OF assms, of d] by auto
  then show ?thesis using False CAN_Handler_runs [OF assms, of rd_icr] by (auto simp del: cfg.simps dregs.simps)
qed

text \<open>
  C3 The device structures are well typed after any sequence of driver calls, with any arguments, and
  interrupts: both rings of both devices have 256 slots, all four indices lie between 0 and 255, a
  device that is open has the register block of its own controller, and no register pointer is
  anything but null or that block. From there every call is well defined: reading and writing
  return on every device, open or not, a command that does not wait for the bus returns, and the
  handler fails exactly if a device was never opened.
\<close>
theorem can_driver_typed:
  assumes "do_calls bs hnd cs can0 = Some s"
  shows "(\<forall>d. let b = rb (cfg d s) in length (tx b) = 256 \<and> length (rx b) = 256 \<and>
      {tx_head b, tx_tail b, rx_head b, rx_tail b} \<subseteq> {0..255} \<and> regptr (cfg d s) \<in> {0, base d} \<and>
      (init (cfg d s) \<longrightarrow> regptr (cfg d s) = base d)) \<and>
    do_call bs hnd (Read d n) s \<noteq> None \<and> do_call bs hnd (Write d buf n) s \<noteq> None \<and>
    (enum_decode ioctl_cmd_enum cmd \<noteq> Some CAN_FORCE_BUS_OFF \<longrightarrow> do_call bs hnd (Ioctl d cmd arg) s \<noteq> None) \<and>
    (do_call bs hnd (Irq rd_icr) s = None) = (\<exists>d. regptr (cfg d s) = 0)"
proof -
  have inv: "can_inv s" using do_calls_inv [OF can0_inv assms] .
  have ty: "let b = rb (cfg e s) in length (tx b) = 256 \<and> length (rx b) = 256 \<and>
      {tx_head b, tx_tail b, rx_head b, rx_tail b} \<subseteq> {0..255} \<and> regptr (cfg e s) \<in> {0, base e} \<and>
      (init (cfg e s) \<longrightarrow> regptr (cfg e s) = base e)" for e
    using can_invD [OF inv, of e] by (auto simp: cfg_ok_def ring_ok_def Let_def simp del: cfg.simps base.simps)
  have "do_call bs hnd (Read d n) s \<noteq> None" "do_call bs hnd (Write d buf n) s \<noteq> None"
    by (simp_all add: can_read_def can_write_def with_regs_open [OF inv] del: not_None_eq)
  moreover have "do_call bs hnd (Ioctl d cmd arg) s \<noteq> None" if "enum_decode ioctl_cmd_enum cmd \<noteq> Some CAN_FORCE_BUS_OFF"
    using that by (auto simp: can_ioctl_def with_regs_open [OF inv] split: option.splits CAN_IOCTL_CMD_T.splits simp del: not_None_eq)
  ultimately show ?thesis using ty CAN_Handler_faults [OF inv] by simp
qed

theorem can_driver_typed_witness:
  "\<exists>s. do_calls (\<lambda>_. 0) 0x4000 [Write Can1cfg (\<lambda>_. msg0) 3, Close Can2cfg, Open 5] can0 = Some s \<and>
     length (tx (rb (cfg Can1cfg s))) = 256 \<and> do_call (\<lambda>_. 0) 0x4000 (Read Can2cfg 1) s \<noteq> None"
proof -
  let ?cs = "[Write Can1cfg (\<lambda>_. msg0) 3, Close Can2cfg, Open 5]"
  have "can_write Can1cfg (\<lambda>_. msg0) 3 can0 = Some (0, can0)" by (simp add: can_write_def del: cfg.simps)
  then obtain s where "do_calls (\<lambda>_. 0) 0x4000 ?cs can0 = Some s" by simp
  with can_driver_typed [OF this, of Can2cfg 1] show ?thesis
    by (intro exI [of _ s]) (simp add: Let_def del: cfg.simps do_calls.simps do_call.simps)
qed

end
