(* ===== verification/Swim.thy ===== *)
theory Swim
  imports Prelude
begin

text \<open>
  The SWIM window library \<^verbatim>\<open>drivers/swim/lpc_swim.c\<close>: windows on a frame buffer and the drawing
  primitives.

  The frame buffer is a memory of 16-bit pixels indexed by the offset from the window's \<open>fb\<close>
  pointer; beside the pixels it keeps the log of all stores, so that a theorem can say where a
  routine writes. Coordinates are 32-bit signed integers: wherever a caller's argument enters, and
  at every product, the wrap-around is written out. A division by zero is the result \<open>None\<close>.
\<close>

section \<open>Frame buffer\<close>

record fbuf =
  pix :: "int \<Rightarrow> u16"
  plog :: "(int \<times> u16) list"

definition pset :: "int \<Rightarrow> u16 \<Rightarrow> fbuf \<Rightarrow> fbuf" where
  "pset a c f = f\<lparr>pix := (pix f)(a := c), plog := plog f @ [(a, c)]\<rparr>"

section \<open>Windows\<close>

record FONT_T =
  font_height :: int
  first_char :: u8
  last_char :: u8
  font_table :: "int \<Rightarrow> u16"
  font_width_table :: "int \<Rightarrow> u8"

record SWIM_WINDOW_T =
  xpsize :: int
  ypsize :: int
  xpmin :: int
  ypmin :: int
  xpmax :: int
  ypmax :: int
  bdsize :: int
  xvsize :: int
  yvsize :: int
  xpvmin :: int
  ypvmin :: int
  xpvmax :: int
  ypvmax :: int
  xvpos :: int
  yvpos :: int
  pen :: u16
  bkg :: u16
  fill :: u16
  font :: FONT_T
  tfont :: int
  fb :: u32
  winused :: int
  tfonts :: int

definition offs :: "SWIM_WINDOW_T \<Rightarrow> int \<Rightarrow> int \<Rightarrow> int" where
  "offs win x y = x + s32 (y * xpsize win)"

section \<open>Lines\<close>

definition swap_le :: "int \<Rightarrow> int \<Rightarrow> int \<times> int" where
  "swap_le a b = (if a > b then (b, a) else (a, b))"

text \<open>
  The drawing loop of both line routines, for the clipping test \<open>inb\<close> of the routine: a point that
  fails the test sets the loop counter past the end.
\<close>

function line_loop :: "SWIM_WINDOW_T \<Rightarrow> (int \<Rightarrow> int \<Rightarrow> bool) \<Rightarrow> int \<Rightarrow> int \<Rightarrow>
    int \<Rightarrow> int \<Rightarrow> int \<Rightarrow> int \<Rightarrow> fbuf \<Rightarrow> fbuf" where
  "line_loop win inb line pixel_end x1 y1 xinc yinc f =
     (if line \<le> pixel_end then
        let xv = x1 sdiv xpsize win; yv = y1 sdiv ypsize win in
        if inb xv yv
        then line_loop win inb (line + 1) pixel_end (s32 (x1 + xinc)) (s32 (y1 + yinc)) xinc yinc
               (pset (offs win xv yv) (pen win) f)
        else f
      else f)"
  by pat_completeness auto
termination by (relation "measure (\<lambda>(win, inb, line, pixel_end, x1, y1, xinc, yinc, f). nat (pixel_end + 1 - line))") auto

declare line_loop.simps [simp del]

text \<open>The choice of the main axis and the step of the other one, shared by both routines.\<close>

definition line_steps :: "SWIM_WINDOW_T \<Rightarrow> (int \<Rightarrow> int \<Rightarrow> bool) \<Rightarrow> int \<Rightarrow> int \<Rightarrow> int \<Rightarrow> int \<Rightarrow> fbuf \<Rightarrow> fbuf option" where
  "line_steps win inb x1 y1 x2 y2 f =
     (let xinc = s32 (x2 - x1); yinc = s32 (y2 - y1) in
      if xpsize win = 0 \<or> ypsize win = 0 then None
      else if xinc > yinc then
        if xinc = 0 then None
        else Some (line_loop win inb x1 x2 (s32 (x1 * xpsize win)) (s32 (y1 * ypsize win))
                     (xpsize win) (s32 (ypsize win * yinc) sdiv xinc) f)
      else
        if yinc = 0 then None
        else Some (line_loop win inb y1 y2 (s32 (x1 * xpsize win)) (s32 (y1 * ypsize win))
                     (s32 (xpsize win * xinc) sdiv yinc) (ypsize win) f))"

definition on_display :: "SWIM_WINDOW_T \<Rightarrow> int \<Rightarrow> int \<Rightarrow> bool" where
  "on_display win xv yv \<longleftrightarrow> xv \<ge> 0 \<and> yv \<ge> 0 \<and> xv \<le> xpsize win - 1 \<and> yv \<le> ypsize win - 1"

definition in_draw :: "SWIM_WINDOW_T \<Rightarrow> int \<Rightarrow> int \<Rightarrow> bool" where
  "in_draw win xv yv \<longleftrightarrow> xv \<ge> xpvmin win \<and> yv \<ge> ypvmin win \<and> xv \<le> xpvmax win \<and> yv \<le> ypvmax win"

definition swim_put_line_raw :: "SWIM_WINDOW_T \<Rightarrow> int \<Rightarrow> int \<Rightarrow> int \<Rightarrow> int \<Rightarrow> fbuf \<Rightarrow> fbuf option" where
  "swim_put_line_raw win x1 y1 x2 y2 f =
     (let (x1, x2) = swap_le x1 x2; (y1, y2) = swap_le y1 y2
      in line_steps win (on_display win) x1 y1 x2 y2 f)"

definition swim_put_line :: "SWIM_WINDOW_T \<Rightarrow> int \<Rightarrow> int \<Rightarrow> int \<Rightarrow> int \<Rightarrow> fbuf \<Rightarrow> fbuf option" where
  "swim_put_line win x1 y1 x2 y2 f =
     (let (x1, x2) = swap_le x1 x2; (y1, y2) = swap_le y1 y2;
          x1 = s32 (x1 + xpvmin win); x2 = s32 (x2 + xpvmin win);
          y1 = s32 (y1 + ypvmin win); y2 = s32 (y2 + ypvmin win)
      in if s32 (x2 - x1) = 0 \<and> s32 (y2 - y1) = 0
         then Some (pset (offs win x1 y1) (pen win) f)
         else line_steps win (in_draw win) x1 y1 x2 y2 f)"

section \<open>Pixels, areas and boxes\<close>

text \<open>The 16-bit locals of \<open>swim_put_pixel\<close> are checked against the right and bottom edge only.\<close>

definition swim_put_pixel :: "SWIM_WINDOW_T \<Rightarrow> int \<Rightarrow> int \<Rightarrow> fbuf \<Rightarrow> fbuf" where
  "swim_put_pixel win x1 y1 f =
     (let realx = s16 (xpvmin win + x1); realy = s16 (ypvmin win + y1)
      in if realx \<le> xpvmax win \<and> realy \<le> ypvmax win
         then pset (offs win realx realy) (pen win) f
         else f)"

definition swim_clear_screen :: "SWIM_WINDOW_T \<Rightarrow> u16 \<Rightarrow> fbuf \<Rightarrow> fbuf" where
  "swim_clear_screen win colr f =
     fold (\<lambda>y. fold (\<lambda>x. pset (offs win x y) colr) [xpvmin win .. xpvmax win])
       [ypvmin win .. ypvmax win] f"

definition clip_low :: "int \<Rightarrow> int \<Rightarrow> int" where
  "clip_low lo v = (if v < lo then lo else v)"

definition clip_high :: "int \<Rightarrow> int \<Rightarrow> int" where
  "clip_high hi v = (if v > hi then hi else v)"

definition swim_put_box :: "SWIM_WINDOW_T \<Rightarrow> int \<Rightarrow> int \<Rightarrow> int \<Rightarrow> int \<Rightarrow> fbuf \<Rightarrow> fbuf option" where
  "swim_put_box win x1 y1 x2 y2 f =
     (let (x1, x2) = swap_le x1 x2; (y1, y2) = swap_le y1 y2;
          x1 = clip_low (xpvmin win) (s32 (x1 + xpvmin win));
          x2 = clip_high (xpvmax win) (s32 (x2 + xpvmin win));
          y1 = clip_low (ypvmin win) (s32 (y1 + ypvmin win));
          y2 = clip_high (ypvmax win) (s32 (y2 + ypvmin win))
      in case swim_put_line_raw win x1 y1 x2 y1 f of
           None \<Rightarrow> None
         | Some f \<Rightarrow>
         case swim_put_line_raw win x2 y1 x2 y2 f of
           None \<Rightarrow> None
         | Some f \<Rightarrow>
         case swim_put_line_raw win x2 y2 x1 y2 f of
           None \<Rightarrow> None
         | Some f \<Rightarrow>
         case swim_put_line_raw win x1 y2 x1 y1 f of
           None \<Rightarrow> None
         | Some f \<Rightarrow>
           Some (fold (\<lambda>x. fold (\<lambda>y. pset (offs win x y) (fill win)) [y1 + 1 .. y2 - 1])
             [x1 + 1 .. x2 - 1] f))"

text \<open>One horizontal line of a diamond, its end points in the pen colour.\<close>

definition diamond_row :: "SWIM_WINDOW_T \<Rightarrow> int \<Rightarrow> int \<Rightarrow> int \<Rightarrow> fbuf \<Rightarrow> fbuf" where
  "diamond_row win xleft xright ydsp f =
     (let f = pset (xleft + ydsp) (pen win) f;
          f = fold (\<lambda>pixel. pset pixel (fill win)) [ydsp + xleft + 1 .. ydsp + xright - 1] f
      in pset (xright + ydsp) (pen win) f)"

definition swim_put_diamond :: "SWIM_WINDOW_T \<Rightarrow> int \<Rightarrow> int \<Rightarrow> int \<Rightarrow> int \<Rightarrow> fbuf \<Rightarrow> fbuf" where
  "swim_put_diamond win x y rx ry f =
     (let xleft = clip_low (xpvmin win) (s32 (x - rx));
          xright = clip_high (xpvmax win) (s32 (x + rx));
          f = pset (offs win xleft y) (pen win) f;
          f = pset (offs win xright y) (pen win) f;
          f = (if y \<ge> ypvmin win \<and> y \<le> ypvmax win
               then fold (\<lambda>pixel. pset (offs win pixel y) (fill win)) [xleft + 1 .. xright - 2] f
               else f)
      in fold (\<lambda>idy f.
           let xinc = s32 ((ry - idy) * rx);
               xleft = clip_low (xpvmin win) (s32 (x - xinc sdiv ry)) + xpmin win;
               xright = clip_high (xpvmax win) (s32 (x + xinc sdiv ry)) + xpmin win;
               f = (if s32 (y - idy) \<ge> ypvmin win
                    then diamond_row win xleft xright (s32 ((s32 (y - idy) + ypmin win) * xpsize win)) f
                    else f)
           in if s32 (y + idy) \<le> ypvmax win
              then diamond_row win xleft xright (s32 ((s32 (y + idy) + ypmin win) * xpsize win)) f
              else f) [1 .. ry] f)"

section \<open>Opening a window\<close>

text \<open>The four border lines of frame \<open>i\<close>.\<close>

definition window_frame :: "SWIM_WINDOW_T \<Rightarrow> int \<Rightarrow> int \<Rightarrow> int \<Rightarrow> int \<Rightarrow> int \<Rightarrow> fbuf \<Rightarrow> fbuf option" where
  "window_frame win xwin_min ywin_min xwin_max ywin_max i f =
     Option.bind (swim_put_line_raw win (xwin_min + i) (ywin_min + i) (xwin_max - i) (ywin_min + i) f) (\<lambda>f.
     Option.bind (swim_put_line_raw win (xwin_max - i) (ywin_min + i) (xwin_max - i) (ywin_max - i) f) (\<lambda>f.
     Option.bind (swim_put_line_raw win (xwin_max - i) (ywin_max - i) (xwin_min + i) (ywin_max - i) f) (\<lambda>f.
     swim_put_line_raw win (xwin_min + i) (ywin_max - i) (xwin_min + i) (ywin_min + i) f)))"

definition swim_window_open_p :: "FONT_T \<Rightarrow> SWIM_WINDOW_T \<Rightarrow> int \<Rightarrow> int \<Rightarrow> u32 \<Rightarrow> int \<Rightarrow> int \<Rightarrow> int \<Rightarrow> int \<Rightarrow>
    int \<Rightarrow> u16 \<Rightarrow> u16 \<Rightarrow> u16 \<Rightarrow> bool \<Rightarrow> fbuf \<Rightarrow> (bool \<times> SWIM_WINDOW_T \<times> fbuf) option" where
  "swim_window_open_p font_helvr10 win xsize ysize fbaddr xwin_min ywin_min xwin_max ywin_max
     border_width pcolor bkcolor fcolor clear f =
     (if xwin_min \<ge> 0 \<and> ywin_min \<ge> 0 \<and> xwin_max < xsize \<and> ywin_max < ysize then
        let win = win\<lparr>xpsize := xsize, ypsize := ysize, fb := fbaddr,
              xpmin := xwin_min, ypmin := ywin_min, xpmax := xwin_max, ypmax := ywin_max,
              pen := pcolor, bkg := bkcolor, fill := fcolor,
              xpvmin := s32 (xwin_min + border_width), ypvmin := s32 (ywin_min + border_width),
              xpvmax := s32 (xwin_max - border_width), ypvmax := s32 (ywin_max - border_width),
              xvsize := s32 (xwin_max - xwin_min - 2 * border_width),
              yvsize := s32 (ywin_max - ywin_min - 2 * border_width)\<rparr>
        in Option.bind
             (fold (\<lambda>i fo. Option.bind fo (window_frame win xwin_min ywin_min xwin_max ywin_max i))
                [0 .. border_width - 1] (Some f))
             (\<lambda>f. let f = (if clear then swim_clear_screen win bkcolor f else f)
                  in Some (True, win\<lparr>font := font_helvr10, xvpos := xpvmin win, yvpos := ypvmin win\<rparr>, f))
      else Some (False, win\<lparr>winused := 0\<rparr>, f))"

definition swim_window_open :: "FONT_T \<Rightarrow> SWIM_WINDOW_T \<Rightarrow> int \<Rightarrow> int \<Rightarrow> u32 \<Rightarrow> int \<Rightarrow> int \<Rightarrow> int \<Rightarrow> int \<Rightarrow>
    int \<Rightarrow> u16 \<Rightarrow> u16 \<Rightarrow> u16 \<Rightarrow> fbuf \<Rightarrow> (bool \<times> SWIM_WINDOW_T \<times> fbuf) option" where
  "swim_window_open helvr win xsize ysize fbaddr xmin ymin xmax ymax border pcolor bkcolor fcolor f =
     Option.bind (swim_window_open_p helvr win xsize ysize fbaddr xmin ymin xmax ymax border
        pcolor bkcolor fcolor True f) (\<lambda>(init, win, f). Some (init, win\<lparr>tfont := 1\<rparr>, f))"

definition swim_window_open_noclear :: "FONT_T \<Rightarrow> SWIM_WINDOW_T \<Rightarrow> int \<Rightarrow> int \<Rightarrow> u32 \<Rightarrow> int \<Rightarrow> int \<Rightarrow> int \<Rightarrow> int \<Rightarrow>
    int \<Rightarrow> u16 \<Rightarrow> u16 \<Rightarrow> u16 \<Rightarrow> fbuf \<Rightarrow> (bool \<times> SWIM_WINDOW_T \<times> fbuf) option" where
  "swim_window_open_noclear helvr win xsize ysize fbaddr xmin ymin xmax ymax border pcolor bkcolor fcolor f =
     Option.bind (swim_window_open_p helvr win xsize ysize fbaddr xmin ymin xmax ymax border
        pcolor bkcolor fcolor False f) (\<lambda>(init, win, f). Some (init, win\<lparr>tfont := 0\<rparr>, f))"

definition swim_window_close :: "SWIM_WINDOW_T \<Rightarrow> SWIM_WINDOW_T" where
  "swim_window_close win = win\<lparr>winused := 0\<rparr>"

definition swim_set_pen_color :: "SWIM_WINDOW_T \<Rightarrow> u16 \<Rightarrow> SWIM_WINDOW_T" where
  "swim_set_pen_color win pen_color = win\<lparr>pen := pen_color\<rparr>"

definition swim_set_fill_color :: "SWIM_WINDOW_T \<Rightarrow> u16 \<Rightarrow> SWIM_WINDOW_T" where
  "swim_set_fill_color win fill_color = win\<lparr>fill := fill_color\<rparr>"

definition swim_set_bkg_color :: "SWIM_WINDOW_T \<Rightarrow> u16 \<Rightarrow> SWIM_WINDOW_T" where
  "swim_set_bkg_color win bkg_color = win\<lparr>bkg := bkg_color\<rparr>"

definition swim_get_horizontal_size :: "SWIM_WINDOW_T \<Rightarrow> int" where
  "swim_get_horizontal_size win = xvsize win"

definition swim_get_vertical_size :: "SWIM_WINDOW_T \<Rightarrow> int" where
  "swim_get_vertical_size win = yvsize win"

section \<open>Painting\<close>

text \<open>
  \<open>paints A c f f'\<close>: the pixels of \<open>A\<close>, and only they, are stored to, all with colour \<open>c\<close>.
\<close>

definition paints :: "int set \<Rightarrow> u16 \<Rightarrow> fbuf \<Rightarrow> fbuf \<Rightarrow> bool" where
  "paints A c f f' \<longleftrightarrow> pix f' = (\<lambda>a. if a \<in> A then c else pix f a) \<and>
     (\<exists>l. plog f' = plog f @ l \<and> fst ` set l = A)"

lemma paints_pset: "paints {a} c f (pset a c f)"
  by (auto simp: paints_def pset_def)

lemma paints_trans:
  assumes "paints A c f g" "paints B c g h"
  shows "paints (A \<union> B) c f h"
proof -
  obtain l l' where "plog g = plog f @ l" "fst ` set l = A" "plog h = plog g @ l'" "fst ` set l' = B"
    using assms by (auto simp: paints_def)
  then have "plog h = plog f @ (l @ l') \<and> fst ` set (l @ l') = A \<union> B" by (simp add: image_Un)
  then show ?thesis using assms unfolding paints_def by (auto intro!: exI [of _ "l @ l'"])
qed

lemma paints_empty [simp]: "paints {} c f f"
  by (simp add: paints_def)

lemma paints_fold:
  assumes "\<And>x f. x \<in> set xs \<Longrightarrow> paints (A x) c f (g x f)"
  shows "paints (\<Union>x \<in> set xs. A x) c f (fold g xs f)"
  using assms
proof (induction xs arbitrary: f)
  case (Cons x xs)
  have "paints (A x) c f (g x f)" using Cons.prems by simp
  moreover have "paints (\<Union>x \<in> set xs. A x) c (g x f) (fold g xs (g x f))" using Cons by simp
  ultimately show ?case using paints_trans by simp
qed simp

lemma paints_row: "paints ((\<lambda>x. g x) ` set xs) c f (fold (\<lambda>x. pset (g x) c) xs f)"
  using paints_fold [of xs "\<lambda>x. {g x}" c "\<lambda>x. pset (g x) c" f] paints_pset
  by (simp add: UNION_singleton_eq_range)

lemma paints_area:
  "paints {h x y | x y. x \<in> set xs \<and> y \<in> set ys} c f (fold (\<lambda>x. fold (\<lambda>y. pset (h x y) c) ys) xs f)"
proof -
  have "paints (\<Union>x \<in> set xs. (\<lambda>y. h x y) ` set ys) c f (fold (\<lambda>x. fold (\<lambda>y. pset (h x y) c) ys) xs f)"
    by (rule paints_fold) (rule paints_row)
  moreover have "(\<Union>x \<in> set xs. (\<lambda>y. h x y) ` set ys) = {h x y | x y. x \<in> set xs \<and> y \<in> set ys}" by auto
  ultimately show ?thesis by simp
qed

section \<open>Well-formed windows\<close>

text \<open>A draw area inside a display of at most 32767 by 32767 pixels.\<close>

definition win_ok :: "SWIM_WINDOW_T \<Rightarrow> bool" where
  "win_ok win \<longleftrightarrow> 0 < xpsize win \<and> xpsize win \<le> 32767 \<and> 0 < ypsize win \<and> ypsize win \<le> 32767 \<and>
     0 \<le> xpvmin win \<and> xpvmax win < xpsize win \<and> 0 \<le> ypvmin win \<and> ypvmax win < ypsize win"

lemma mult_32767: "0 \<le> a \<Longrightarrow> a \<le> 32768 \<Longrightarrow> 0 \<le> b \<Longrightarrow> b \<le> 32767 \<Longrightarrow> 0 \<le> a * b \<and> a * b \<le> 1073709056" for a b :: int
  using mult_mono [of a 32768 b 32767] by simp

lemma s32_mult: "0 \<le> a \<Longrightarrow> a \<le> 32768 \<Longrightarrow> 0 \<le> b \<Longrightarrow> b \<le> 32767 \<Longrightarrow> s32 (a * b) = a * b"
  using mult_32767 [of a b] by (intro s32_id) linarith+

lemma offs_eq: "win_ok win \<Longrightarrow> 0 \<le> y \<Longrightarrow> y < ypsize win \<Longrightarrow> offs win x y = x + y * xpsize win"
  by (simp add: offs_def win_ok_def s32_mult)

lemma coord_inj:
  assumes "0 \<le> x" "x < w" "0 \<le> x'" "x' < (w :: int)"
  shows "(x + y * w = x' + y' * w) = (x = x' \<and> y = y')"
proof
  assume e: "x + y * w = x' + y' * w"
  have "(x + y * w) mod w = x" "(x' + y' * w) mod w = x'" using assms by simp_all
  with e have "x = x'" by metis
  with e assms show "x = x' \<and> y = y'" by simp
qed simp

text \<open>The pixels of a rectangle.\<close>

definition rect :: "SWIM_WINDOW_T \<Rightarrow> int \<Rightarrow> int \<Rightarrow> int \<Rightarrow> int \<Rightarrow> int set" where
  "rect win xa ya xb yb = {x + y * xpsize win | x y. xa \<le> x \<and> x \<le> xb \<and> ya \<le> y \<and> y \<le> yb}"

lemma in_rect:
  assumes "0 \<le> x" "x < xpsize win" "0 \<le> xa" "xb < xpsize win"
  shows "(x + y * xpsize win \<in> rect win xa ya xb yb) = (xa \<le> x \<and> x \<le> xb \<and> ya \<le> y \<and> y \<le> yb)"
proof
  assume "x + y * xpsize win \<in> rect win xa ya xb yb"
  then obtain x' y' where "x + y * xpsize win = x' + y' * xpsize win" "xa \<le> x'" "x' \<le> xb" "ya \<le> y'" "y' \<le> yb"
    by (auto simp: rect_def)
  then show "xa \<le> x \<and> x \<le> xb \<and> ya \<le> y \<and> y \<le> yb" using assms coord_inj [of x "xpsize win" x' y y'] by simp
qed (auto simp: rect_def)

lemma paints_rect_rows:
  assumes "win_ok win" "0 \<le> ya" "yb < ypsize win"
  shows "paints (rect win xa ya xb yb) c f (fold (\<lambda>x. fold (\<lambda>y. pset (offs win x y) c) [ya .. yb]) [xa .. xb] f)"
proof -
  have "{offs win x y | x y. x \<in> set [xa .. xb] \<and> y \<in> set [ya .. yb]} = rect win xa ya xb yb"
    using assms by (auto simp: rect_def) (metis offs_eq order.trans le_less_trans)+
  then show ?thesis using paints_area [of "offs win" "[xa .. xb]" "[ya .. yb]" c f] by simp
qed

lemma paints_rect_cols:
  assumes "win_ok win" "0 \<le> ya" "yb < ypsize win"
  shows "paints (rect win xa ya xb yb) c f (fold (\<lambda>y. fold (\<lambda>x. pset (offs win x y) c) [xa .. xb]) [ya .. yb] f)"
proof -
  have "{offs win x y | y x. y \<in> set [ya .. yb] \<and> x \<in> set [xa .. xb]} = rect win xa ya xb yb"
    using assms by (auto simp: rect_def) (metis offs_eq order.trans le_less_trans)+
  then show ?thesis using paints_area [of "\<lambda>y x. offs win x y" "[ya .. yb]" "[xa .. xb]" c f] by simp
qed

text \<open>
  swim_clear_screen fills exactly the draw area: every pixel of it gets the colour, every other
  pixel of the display keeps its value, and nothing outside the draw area is stored to.
\<close>
theorem clear_screen_exact:
  assumes "win_ok win"
  shows "let f' = swim_clear_screen win colr f in
    (\<forall>x y. 0 \<le> x \<and> x < xpsize win \<and> 0 \<le> y \<and> y < ypsize win \<longrightarrow>
       pix f' (x + y * xpsize win) = (if in_draw win x y then colr else pix f (x + y * xpsize win))) \<and>
    (\<exists>l. plog f' = plog f @ l \<and>
       fst ` set l = rect win (xpvmin win) (ypvmin win) (xpvmax win) (ypvmax win))"
proof -
  have "paints (rect win (xpvmin win) (ypvmin win) (xpvmax win) (ypvmax win)) colr f (swim_clear_screen win colr f)"
    unfolding swim_clear_screen_def using assms by (intro paints_rect_cols) (auto simp: win_ok_def)
  with assms show ?thesis
    by (auto simp: paints_def Let_def in_rect in_draw_def win_ok_def)
qed

section \<open>Lines\<close>

text \<open>Horizontal and vertical lines inside the display are drawn completely.\<close>

lemma line_loop_h:
  assumes "win_ok win" "0 \<le> y" "y < ypsize win"
  shows "0 \<le> x1 \<Longrightarrow> x2 < xpsize win \<Longrightarrow>
    line_loop win (on_display win) x1 x2 (x1 * xpsize win) (y * ypsize win) (xpsize win) 0 f =
    fold (\<lambda>x. pset (offs win x y) (pen win)) [x1 .. x2] f"
proof (induction "nat (x2 + 1 - x1)" arbitrary: x1 f)
  case 0
  then show ?case by (subst line_loop.simps) simp
next
  case (Suc n)
  have w: "0 < xpsize win" "xpsize win \<le> 32767" "0 < ypsize win" "ypsize win \<le> 32767" using assms(1) by (simp_all add: win_ok_def)
  have le: "x1 \<le> x2" using Suc.hyps(2) by linarith
  have sx: "s32 (x1 * xpsize win + xpsize win) = (x1 + 1) * xpsize win"
    using s32_mult [of "x1 + 1" "xpsize win"] w Suc.prems le by (simp add: algebra_simps)
  have sy: "s32 (y * ypsize win) = y * ypsize win" using s32_mult [of y "ypsize win"] w assms by simp
  have d: "(x1 * xpsize win) sdiv xpsize win = x1" "(y * ypsize win) sdiv ypsize win = y"
    using w by (simp_all add: sdiv_mult_self)
  have "on_display win x1 y" using assms Suc.prems le by (simp add: on_display_def)
  then have "line_loop win (on_display win) x1 x2 (x1 * xpsize win) (y * ypsize win) (xpsize win) 0 f =
      line_loop win (on_display win) (x1 + 1) x2 ((x1 + 1) * xpsize win) (y * ypsize win) (xpsize win) 0
        (pset (offs win x1 y) (pen win) f)"
    using le by (subst line_loop.simps) (simp add: d sx sy)
  also have "\<dots> = fold (\<lambda>x. pset (offs win x y) (pen win)) [x1 + 1 .. x2] (pset (offs win x1 y) (pen win) f)"
    by (rule Suc.hyps(1)) (use Suc.hyps(2) Suc.prems in simp_all)
  finally show ?case using le by (simp add: upto.simps [of x1])
qed

lemma line_loop_v:
  assumes "win_ok win" "0 \<le> x" "x < xpsize win"
  shows "0 \<le> y1 \<Longrightarrow> y2 < ypsize win \<Longrightarrow>
    line_loop win (on_display win) y1 y2 (x * xpsize win) (y1 * ypsize win) 0 (ypsize win) f =
    fold (\<lambda>y. pset (offs win x y) (pen win)) [y1 .. y2] f"
proof (induction "nat (y2 + 1 - y1)" arbitrary: y1 f)
  case 0
  then show ?case by (subst line_loop.simps) simp
next
  case (Suc n)
  have w: "0 < xpsize win" "xpsize win \<le> 32767" "0 < ypsize win" "ypsize win \<le> 32767" using assms(1) by (simp_all add: win_ok_def)
  have le: "y1 \<le> y2" using Suc.hyps(2) by linarith
  have sy: "s32 (y1 * ypsize win + ypsize win) = (y1 + 1) * ypsize win"
    using s32_mult [of "y1 + 1" "ypsize win"] w Suc.prems le by (simp add: algebra_simps)
  have sx: "s32 (x * xpsize win) = x * xpsize win" using s32_mult [of x "xpsize win"] w assms by simp
  have d: "(x * xpsize win) sdiv xpsize win = x" "(y1 * ypsize win) sdiv ypsize win = y1"
    using w by (simp_all add: sdiv_mult_self)
  have "on_display win x y1" using assms Suc.prems le by (simp add: on_display_def)
  then have "line_loop win (on_display win) y1 y2 (x * xpsize win) (y1 * ypsize win) 0 (ypsize win) f =
      line_loop win (on_display win) (y1 + 1) y2 (x * xpsize win) ((y1 + 1) * ypsize win) 0 (ypsize win)
        (pset (offs win x y1) (pen win) f)"
    using le by (subst line_loop.simps) (simp add: d sx sy)
  also have "\<dots> = fold (\<lambda>y. pset (offs win x y) (pen win)) [y1 + 1 .. y2] (pset (offs win x y1) (pen win) f)"
    by (rule Suc.hyps(1)) (use Suc.hyps(2) Suc.prems in simp_all)
  finally show ?case using le by (simp add: upto.simps [of y1])
qed

lemma s32_small: "- 32768 \<le> x \<Longrightarrow> x \<le> 65535 \<Longrightarrow> s32 x = x"
  by (rule s32_id) linarith+

lemma put_line_raw_h:
  assumes "win_ok win" "0 \<le> y" "y < ypsize win" "0 \<le> xa" "xa < xb" "xb < xpsize win"
    and "swap_le x1 x2 = (xa, xb)"
  shows "swim_put_line_raw win x1 y x2 y f = Some (fold (\<lambda>x. pset (offs win x y) (pen win)) [xa .. xb] f)"
proof -
  have w: "0 < xpsize win" "xpsize win \<le> 32767" "0 < ypsize win" "ypsize win \<le> 32767" using assms(1) by (simp_all add: win_ok_def)
  have "s32 (xa * xpsize win) = xa * xpsize win" "s32 (y * ypsize win) = y * ypsize win" "s32 (xb - xa) = xb - xa" "s32 0 = 0"
    using w assms by (simp_all add: s32_mult s32_small)
  then show ?thesis
    using assms w line_loop_h [OF assms(1-3), of xa xb f]
    by (simp add: swim_put_line_raw_def line_steps_def Let_def swap_le_def)
qed

lemma put_line_raw_v:
  assumes "win_ok win" "0 \<le> x" "x < xpsize win" "0 \<le> ya" "ya < yb" "yb < ypsize win"
    and "swap_le y1 y2 = (ya, yb)"
  shows "swim_put_line_raw win x y1 x y2 f = Some (fold (\<lambda>y. pset (offs win x y) (pen win)) [ya .. yb] f)"
proof -
  have w: "0 < xpsize win" "xpsize win \<le> 32767" "0 < ypsize win" "ypsize win \<le> 32767" using assms(1) by (simp_all add: win_ok_def)
  have "s32 (x * xpsize win) = x * xpsize win" "s32 (ya * ypsize win) = ya * ypsize win" "s32 (yb - ya) = yb - ya" "s32 0 = 0"
    using w assms by (simp_all add: s32_mult s32_small)
  then show ?thesis
    using assms w line_loop_v [OF assms(1-3), of ya yb f]
    by (simp add: swim_put_line_raw_def line_steps_def Let_def swap_le_def)
qed

lemma paints_h:
  assumes "win_ok win" "0 \<le> y" "y < ypsize win"
  shows "paints (rect win xa y xb y) c f (fold (\<lambda>x. pset (offs win x y) c) [xa .. xb] f)"
  using paints_rect_cols [OF assms(1), of y y xa xb c f] assms by simp

lemma paints_v:
  assumes "win_ok win" "0 \<le> ya" "yb < ypsize win"
  shows "paints (rect win x ya x yb) c f (fold (\<lambda>y. pset (offs win x y) c) [ya .. yb] f)"
  using paints_rect_rows [OF assms, of x x c f] by simp

text \<open>The four edges of a rectangle, as \<open>swim_put_box\<close> and the window frame draw them.\<close>

definition edges :: "SWIM_WINDOW_T \<Rightarrow> int \<Rightarrow> int \<Rightarrow> int \<Rightarrow> int \<Rightarrow> int set" where
  "edges win xa ya xb yb = ((rect win xa ya xb ya \<union> rect win xb ya xb yb) \<union> rect win xa yb xb yb) \<union> rect win xa ya xa yb"

lemma put_edges:
  assumes "win_ok win" "0 \<le> xa" "xa < xb" "xb < xpsize win" "0 \<le> ya" "ya < yb" "yb < ypsize win"
  shows "\<exists>f1 f2 f3 f4. swim_put_line_raw win xa ya xb ya f = Some f1 \<and>
    swim_put_line_raw win xb ya xb yb f1 = Some f2 \<and> swim_put_line_raw win xb yb xa yb f2 = Some f3 \<and>
    swim_put_line_raw win xa yb xa ya f3 = Some f4 \<and> paints (edges win xa ya xb yb) (pen win) f f4"
proof -
  define f1 where "f1 = fold (\<lambda>x. pset (offs win x ya) (pen win)) [xa .. xb] f"
  define f2 where "f2 = fold (\<lambda>y. pset (offs win xb y) (pen win)) [ya .. yb] f1"
  define f3 where "f3 = fold (\<lambda>x. pset (offs win x yb) (pen win)) [xa .. xb] f2"
  define f4 where "f4 = fold (\<lambda>y. pset (offs win xa y) (pen win)) [ya .. yb] f3"
  have "swim_put_line_raw win xa ya xb ya f = Some f1" unfolding f1_def
    by (rule put_line_raw_h) (use assms in \<open>simp_all add: swap_le_def\<close>)
  moreover have "swim_put_line_raw win xb ya xb yb f1 = Some f2" unfolding f2_def
    by (rule put_line_raw_v) (use assms in \<open>simp_all add: swap_le_def\<close>)
  moreover have "swim_put_line_raw win xb yb xa yb f2 = Some f3" unfolding f3_def
    by (rule put_line_raw_h) (use assms in \<open>simp_all add: swap_le_def\<close>)
  moreover have "swim_put_line_raw win xa yb xa ya f3 = Some f4" unfolding f4_def
    by (rule put_line_raw_v) (use assms in \<open>simp_all add: swap_le_def\<close>)
  moreover have "paints (edges win xa ya xb yb) (pen win) f f4"
    unfolding edges_def f4_def f3_def f2_def f1_def
    using assms by (intro paints_trans) (auto intro: paints_h paints_v)
  ultimately show ?thesis by blast
qed

lemma in_edges:
  assumes "0 \<le> x" "x < xpsize win" "0 \<le> xa" "xa \<le> xb" "xb < xpsize win" "ya \<le> yb"
  shows "(x + y * xpsize win \<in> edges win xa ya xb yb) =
    (xa \<le> x \<and> x \<le> xb \<and> ya \<le> y \<and> y \<le> yb \<and> (x = xa \<or> x = xb \<or> y = ya \<or> y = yb))"
  using assms by (auto simp: edges_def in_rect)

section \<open>Boxes\<close>

lemma put_box_paints:
  assumes "win_ok win" "- 32767 \<le> x1" "x1 \<le> 32767" "- 32767 \<le> x2" "x2 \<le> 32767"
    and "- 32767 \<le> y1" "y1 \<le> 32767" "- 32767 \<le> y2" "y2 \<le> 32767"
    and xa: "xa = max (xpvmin win) (min x1 x2 + xpvmin win)" and xb: "xb = min (xpvmax win) (max x1 x2 + xpvmin win)"
    and ya: "ya = max (ypvmin win) (min y1 y2 + ypvmin win)" and yb: "yb = min (ypvmax win) (max y1 y2 + ypvmin win)"
    and "xa < xb" "ya < yb"
  shows "\<exists>f4 f'. swim_put_box win x1 y1 x2 y2 f = Some f' \<and> paints (edges win xa ya xb yb) (pen win) f f4 \<and>
    paints (rect win (xa + 1) (ya + 1) (xb - 1) (yb - 1)) (fill win) f4 f' \<and>
    0 \<le> xa \<and> xb < xpsize win \<and> 0 \<le> ya \<and> yb < ypsize win"
proof -
  have w: "0 \<le> xpvmin win" "xpvmin win \<le> 32767" "xpvmax win < xpsize win" "0 \<le> ypvmin win" "ypvmin win \<le> 32767"
    "ypvmax win < ypsize win" using assms(1) assms(14,15) xa xb ya yb by (auto simp: win_ok_def)
  have s: "swap_le x1 x2 = (min x1 x2, max x1 x2)" "swap_le y1 y2 = (min y1 y2, max y1 y2)"
    by (simp_all add: swap_le_def min_def max_def)
  have c: "clip_low (xpvmin win) (s32 (min x1 x2 + xpvmin win)) = xa"
    "clip_high (xpvmax win) (s32 (max x1 x2 + xpvmin win)) = xb"
    "clip_low (ypvmin win) (s32 (min y1 y2 + ypvmin win)) = ya"
    "clip_high (ypvmax win) (s32 (max y1 y2 + ypvmin win)) = yb"
    using w assms(2-9) by (simp_all add: xa xb ya yb clip_low_def clip_high_def s32_small max_def min_def)
  have r: "0 \<le> xa" "xb < xpsize win" "0 \<le> ya" "yb < ypsize win" using w by (auto simp: xa xb ya yb)
  obtain f1 f2 f3 f4 where e: "swim_put_line_raw win xa ya xb ya f = Some f1"
    "swim_put_line_raw win xb ya xb yb f1 = Some f2" "swim_put_line_raw win xb yb xa yb f2 = Some f3"
    "swim_put_line_raw win xa yb xa ya f3 = Some f4" "paints (edges win xa ya xb yb) (pen win) f f4"
    using put_edges [OF assms(1) r(1) assms(14) r(2,3) assms(15) r(4), of f] by blast
  let ?f = "fold (\<lambda>x. fold (\<lambda>y. pset (offs win x y) (fill win)) [ya + 1 .. yb - 1]) [xa + 1 .. xb - 1] f4"
  have i: "paints (rect win (xa + 1) (ya + 1) (xb - 1) (yb - 1)) (fill win) f4 ?f"
    using r by (intro paints_rect_rows [OF assms(1)]) auto
  have "swim_put_box win x1 y1 x2 y2 f = Some ?f"
    unfolding swim_put_box_def s prod.case Let_def c by (simp add: e)
  then show ?thesis using i e(5) r by blast
qed

text \<open>
  C23 swim_put_box draws exactly the box: for corners given in either order whose clipped rectangle is
  at least two pixels wide and high, the rectangle's outline gets the pen colour, its inside the
  fill colour, and every other pixel of the display keeps its value.
\<close>
theorem put_box_exact:
  assumes "win_ok win" "- 32767 \<le> x1" "x1 \<le> 32767" "- 32767 \<le> x2" "x2 \<le> 32767"
    and "- 32767 \<le> y1" "y1 \<le> 32767" "- 32767 \<le> y2" "y2 \<le> 32767"
    and xa: "xa = max (xpvmin win) (min x1 x2 + xpvmin win)" and xb: "xb = min (xpvmax win) (max x1 x2 + xpvmin win)"
    and ya: "ya = max (ypvmin win) (min y1 y2 + ypvmin win)" and yb: "yb = min (ypvmax win) (max y1 y2 + ypvmin win)"
    and "xa < xb" "ya < yb"
  shows "\<exists>f'. swim_put_box win x1 y1 x2 y2 f = Some f' \<and>
    (\<forall>x y. 0 \<le> x \<and> x < xpsize win \<and> 0 \<le> y \<and> y < ypsize win \<longrightarrow>
       pix f' (x + y * xpsize win) =
         (if xa < x \<and> x < xb \<and> ya < y \<and> y < yb then fill win
          else if xa \<le> x \<and> x \<le> xb \<and> ya \<le> y \<and> y \<le> yb then pen win
          else pix f (x + y * xpsize win)))"
  using put_box_paints [OF assms, of f] assms(14,15) by (auto simp: paints_def in_rect in_edges)

section \<open>Concrete runs\<close>

definition font0 :: FONT_T where
  "font0 = \<lparr>font_height = 16, first_char = 0x20, last_char = 0x7E, font_table = (\<lambda>_. 0), font_width_table = (\<lambda>_. 8)\<rparr>"

definition win0 :: SWIM_WINDOW_T where
  "win0 = \<lparr>xpsize = 240, ypsize = 320, xpmin = 0, ypmin = 0, xpmax = 239, ypmax = 319, bdsize = 0,
     xvsize = 237, yvsize = 317, xpvmin = 1, ypvmin = 1, xpvmax = 238, ypvmax = 318, xvpos = 1, yvpos = 1,
     pen = 1, bkg = 2, fill = 3, font = font0, tfont = 1, fb = 0xA0000000, winused = 0, tfonts = 0\<rparr>"

definition fb0 :: fbuf where
  "fb0 = \<lparr>pix = (\<lambda>_. 0), plog = []\<rparr>"

lemma win0_ok: "win_ok win0"
  by (simp add: win_ok_def win0_def)

theorem clear_screen_exact_witness:
  "pix (swim_clear_screen win0 9 fb0) (1 + 1 * 240) = 9 \<and> pix (swim_clear_screen win0 9 fb0) (0 + 0 * 240) = 0"
proof -
  have p: "pix (swim_clear_screen win0 9 fb0) (x + y * xpsize win0) =
      (if in_draw win0 x y then 9 else pix fb0 (x + y * xpsize win0))"
    if "0 \<le> x \<and> x < xpsize win0 \<and> 0 \<le> y \<and> y < ypsize win0" for x y
    using clear_screen_exact [OF win0_ok, of 9 fb0] that unfolding Let_def by blast
  show ?thesis using p [of 1 1] p [of 0 0] by (simp add: win0_def in_draw_def fb0_def)
qed

theorem put_box_exact_witness:
  "\<exists>f'. swim_put_box win0 10 10 20 30 fb0 = Some f' \<and> pix f' (11 + 11 * 240) = 1 \<and> pix f' (12 + 12 * 240) = 3"
proof -
  have "\<exists>f'. swim_put_box win0 10 10 20 30 fb0 = Some f' \<and>
    (\<forall>x y. 0 \<le> x \<and> x < xpsize win0 \<and> 0 \<le> y \<and> y < ypsize win0 \<longrightarrow>
       pix f' (x + y * xpsize win0) =
         (if 11 < x \<and> x < 21 \<and> 11 < y \<and> y < 31 then fill win0
          else if 11 \<le> x \<and> x \<le> 21 \<and> 11 \<le> y \<and> y \<le> 31 then pen win0
          else pix fb0 (x + y * xpsize win0)))"
    by (rule put_box_exact [OF win0_ok]) (simp_all add: win0_def)
  then obtain f' where f': "swim_put_box win0 10 10 20 30 fb0 = Some f'"
    "\<And>x y. 0 \<le> x \<and> x < xpsize win0 \<and> 0 \<le> y \<and> y < ypsize win0 \<Longrightarrow>
       pix f' (x + y * xpsize win0) =
         (if 11 < x \<and> x < 21 \<and> 11 < y \<and> y < 31 then fill win0
          else if 11 \<le> x \<and> x \<le> 21 \<and> 11 \<le> y \<and> y \<le> 31 then pen win0
          else pix fb0 (x + y * xpsize win0))" by blast
  show ?thesis using f'(1) f'(2) [of 11 11] f'(2) [of 12 12] by (simp add: win0_def)
qed

end
