(* ===== verification/Swim_Image.thy ===== *)
theory Swim_Image
  imports Swim
begin

text \<open>
  The image routines \<^verbatim>\<open>drivers/swim/lpc_swim_image.c\<close>: an image (colours indexed from the
  image pointer) is copied into a window's draw area, plain, rotated, or scaled to the window.
\<close>

section \<open>Definitions\<close>

text \<open>
  The loops of the unscaled routines run over a window coordinate \<open>i\<close> up to \<open>imax\<close> and an image
  coordinate \<open>k\<close> below \<open>n\<close> together; a coordinate the source counts down is \<open>n - 1 - k\<close>.
\<close>

function img_loop :: "int \<Rightarrow> int \<Rightarrow> int \<Rightarrow> int \<Rightarrow> (int \<Rightarrow> int \<Rightarrow> fbuf \<Rightarrow> fbuf) \<Rightarrow> fbuf \<Rightarrow> fbuf" where
  "img_loop i imax k n body f =
     (if i \<le> imax \<and> k < n then img_loop (i + 1) imax (k + 1) n body (body i k f) else f)"
  by pat_completeness auto
termination by (relation "measure (\<lambda>(i, imax, k, n, body, f). nat (imax + 1 - i))") auto

declare img_loop.simps [simp del]

text \<open>In \<open>swim_put_image\<close> the image pointer advances along each row and to the next row's start.\<close>

definition swim_put_image :: "SWIM_WINDOW_T \<Rightarrow> (int \<Rightarrow> u16) \<Rightarrow> int \<Rightarrow> int \<Rightarrow> fbuf \<Rightarrow> fbuf" where
  "swim_put_image win img xsize ysize f =
     img_loop (ypvmin win) (ypvmax win) 0 ysize (\<lambda>y j.
       img_loop (xpvmin win) (xpvmax win) 0 xsize (\<lambda>x i.
         pset (offs win x y) (img (i + j * xsize)))) f"

definition swim_put_invert_image :: "SWIM_WINDOW_T \<Rightarrow> (int \<Rightarrow> u16) \<Rightarrow> int \<Rightarrow> int \<Rightarrow> fbuf \<Rightarrow> fbuf" where
  "swim_put_invert_image win img xsize ysize f =
     img_loop (ypvmin win) (ypvmax win) 0 ysize (\<lambda>y j.
       let yr = ysize - 1 - j in
       img_loop (xpvmin win) (xpvmax win) 0 xsize (\<lambda>x i.
         let xr = xsize - 1 - i in
         pset (offs win x y) (img (xr + yr * xsize)))) f"

definition swim_put_left_image :: "SWIM_WINDOW_T \<Rightarrow> (int \<Rightarrow> u16) \<Rightarrow> int \<Rightarrow> int \<Rightarrow> fbuf \<Rightarrow> fbuf" where
  "swim_put_left_image win img xsize ysize f =
     img_loop (xpvmin win) (xpvmax win) 0 ysize (\<lambda>x j.
       let yr = ysize - 1 - j in
       img_loop (ypvmin win) (ypvmax win) 0 xsize (\<lambda>y xr.
         pset (offs win x y) (img ((xsize - xr - 1) + (ysize - yr - 1) * xsize)))) f"

definition swim_put_right_image :: "SWIM_WINDOW_T \<Rightarrow> (int \<Rightarrow> u16) \<Rightarrow> int \<Rightarrow> int \<Rightarrow> fbuf \<Rightarrow> fbuf" where
  "swim_put_right_image win img xsize ysize f =
     img_loop (xpvmin win) (xpvmax win) 0 ysize (\<lambda>x j.
       let yr = ysize - 1 - j in
       img_loop (ypvmin win) (ypvmax win) 0 xsize (\<lambda>y xr.
         pset (offs win x y) (img (xr + yr * xsize)))) f"

text \<open>
  The scaled routines fill the whole draw area; \<open>src x y\<close> is the image index for a pixel. A window
  of zero virtual width or height makes them divide by zero.
\<close>

definition scale_fill :: "SWIM_WINDOW_T \<Rightarrow> (int \<Rightarrow> u16) \<Rightarrow> (int \<Rightarrow> int \<Rightarrow> int) \<Rightarrow> fbuf \<Rightarrow> fbuf option" where
  "scale_fill win img src f =
     (if ypvmin win \<le> ypvmax win \<and> (yvsize win = 0 \<or> xpvmin win \<le> xpvmax win \<and> xvsize win = 0) then None
      else Some (fold (\<lambda>y. fold (\<lambda>x. pset (offs win x y) (img (src x y)))
             [xpvmin win .. xpvmax win]) [ypvmin win .. ypvmax win] f))"

definition swim_put_scale_image :: "SWIM_WINDOW_T \<Rightarrow> (int \<Rightarrow> u16) \<Rightarrow> int \<Rightarrow> int \<Rightarrow> fbuf \<Rightarrow> fbuf option" where
  "swim_put_scale_image win img xsize ysize f =
     scale_fill win img (\<lambda>x y.
       let ysc = s32 ((ysize - 1) * (y - ypvmin win)) sdiv yvsize win;
           xsc = s32 ((xsize - 1) * (x - xpvmin win)) sdiv xvsize win
       in xsc + ysc * xsize) f"

definition swim_put_scale_invert_image :: "SWIM_WINDOW_T \<Rightarrow> (int \<Rightarrow> u16) \<Rightarrow> int \<Rightarrow> int \<Rightarrow> fbuf \<Rightarrow> fbuf option" where
  "swim_put_scale_invert_image win img xsize ysize f =
     scale_fill win img (\<lambda>x y.
       let ysc = s32 ((ysize - 1) * (y - ypvmin win)) sdiv yvsize win;
           xsc = s32 ((xsize - 1) * (x - xpvmin win)) sdiv xvsize win
       in (xsize - 1 - xsc) + (ysize - 1 - ysc) * xsize) f"

definition swim_put_scale_left_image :: "SWIM_WINDOW_T \<Rightarrow> (int \<Rightarrow> u16) \<Rightarrow> int \<Rightarrow> int \<Rightarrow> fbuf \<Rightarrow> fbuf option" where
  "swim_put_scale_left_image win img xsize ysize f =
     scale_fill win img (\<lambda>x y.
       let ysc = s32 ((xsize - 1) * (ypvmax win - y)) sdiv yvsize win;
           xsc = s32 ((ysize - 1) * (x - xpvmin win)) sdiv xvsize win
       in ysc + xsc * xsize) f"

definition swim_put_scale_right_image :: "SWIM_WINDOW_T \<Rightarrow> (int \<Rightarrow> u16) \<Rightarrow> int \<Rightarrow> int \<Rightarrow> fbuf \<Rightarrow> fbuf option" where
  "swim_put_scale_right_image win img xsize ysize f =
     scale_fill win img (\<lambda>x y.
       let ysc = s32 ((xsize - 1) * (y - ypvmin win)) sdiv yvsize win;
           xsc = s32 ((ysize - 1) * (xpvmax win - x)) sdiv xvsize win
       in ysc + xsc * xsize) f"

datatype SWIM_ROTATION_T = NOROTATION | RIGHT | INVERT | LEFT

definition swim_put_win_image :: "SWIM_WINDOW_T \<Rightarrow> (int \<Rightarrow> u16) \<Rightarrow> int \<Rightarrow> int \<Rightarrow> int \<Rightarrow> SWIM_ROTATION_T \<Rightarrow>
    fbuf \<Rightarrow> fbuf option" where
  "swim_put_win_image win img xsize ysize scale rtype f =
     (case rtype of
        INVERT \<Rightarrow> if scale \<noteq> 0 then swim_put_scale_invert_image win img xsize ysize f
                  else Some (swim_put_invert_image win img xsize ysize f)
      | LEFT \<Rightarrow> if scale \<noteq> 0 then swim_put_scale_left_image win img xsize ysize f
                else Some (swim_put_left_image win img xsize ysize f)
      | RIGHT \<Rightarrow> if scale \<noteq> 0 then swim_put_scale_right_image win img xsize ysize f
                 else Some (swim_put_right_image win img xsize ysize f)
      | NOROTATION \<Rightarrow> if scale \<noteq> 0 then swim_put_scale_image win img xsize ysize f
                      else Some (swim_put_image win img xsize ysize f))"

section \<open>Colouring an area\<close>

text \<open>\<open>colours A g f f'\<close>: exactly the pixels of \<open>A\<close> are stored to, pixel \<open>a\<close> ending as \<open>g a\<close>.\<close>

definition colours :: "int set \<Rightarrow> (int \<Rightarrow> u16) \<Rightarrow> fbuf \<Rightarrow> fbuf \<Rightarrow> bool" where
  "colours A g f f' \<longleftrightarrow> pix f' = (\<lambda>a. if a \<in> A then g a else pix f a) \<and>
     (\<exists>l. plog f' = plog f @ l \<and> fst ` set l = A)"

lemma colours_pset: "g a = c \<Longrightarrow> colours {a} g f (pset a c f)"
  by (auto simp: colours_def pset_def)

lemma colours_trans:
  assumes "colours A g f f1" "colours B g f1 f2"
  shows "colours (A \<union> B) g f f2"
proof -
  obtain l l' where "plog f1 = plog f @ l" "fst ` set l = A" "plog f2 = plog f1 @ l'" "fst ` set l' = B"
    using assms by (auto simp: colours_def)
  then have "plog f2 = plog f @ (l @ l') \<and> fst ` set (l @ l') = A \<union> B" by (simp add: image_Un)
  then show ?thesis using assms unfolding colours_def by (auto intro!: exI [of _ "l @ l'"])
qed

lemma colours_fold:
  assumes "\<And>x f. x \<in> set xs \<Longrightarrow> colours (A x) g f (h x f)"
  shows "colours (\<Union>x \<in> set xs. A x) g f (fold h xs f)"
  using assms
proof (induction xs arbitrary: f)
  case (Cons x xs)
  have "colours (A x) g f (h x f)" using Cons.prems by simp
  moreover have "colours (\<Union>x \<in> set xs. A x) g (h x f) (fold h xs (h x f))" using Cons by simp
  ultimately show ?case using colours_trans by simp
qed (simp add: colours_def)

text \<open>The paired loop as a fold over the window coordinates it reaches.\<close>

lemma img_loop_fold:
  "img_loop i imax k n body f = fold (\<lambda>x. body x (k + (x - i))) [i .. min imax (i + (n - k) - 1)] f"
proof (induction i imax k n body f rule: img_loop.induct)
  case (1 i imax k n body f)
  show ?case
  proof (cases "i \<le> imax \<and> k < n")
    case True
    then have "[i .. min imax (i + (n - k) - 1)] = i # [i + 1 .. min imax (i + 1 + (n - (k + 1)) - 1)]"
      by (subst upto.simps) (auto simp: min_def)
    moreover have "(\<lambda>x. body x (k + 1 + (x - (i + 1)))) = (\<lambda>x. body x (k + (x - i)))" by (simp add: algebra_simps)
    ultimately show ?thesis using "1.IH" True by (subst img_loop.simps) simp
  next
    case False
    then show ?thesis by (subst img_loop.simps) (auto simp: min_def)
  qed
qed

lemma img_loop_fold':
  "img_loop i imax k n body = fold (\<lambda>x. body x (k + (x - i))) [i .. min imax (i + (n - k) - 1)]"
  by (rule ext) (rule img_loop_fold)

text \<open>Nested loops over a rectangle, in either order, colour it pixel by pixel.\<close>

definition at_xy :: "SWIM_WINDOW_T \<Rightarrow> (int \<Rightarrow> int \<Rightarrow> u16) \<Rightarrow> int \<Rightarrow> u16" where
  "at_xy win c a = c (a mod xpsize win) (a div xpsize win)"

lemma at_xy [simp]: "0 \<le> x \<Longrightarrow> x < xpsize win \<Longrightarrow> at_xy win c (x + y * xpsize win) = c x y"
  by (simp add: at_xy_def)

lemma colours_point:
  assumes "win_ok win" "0 \<le> x" "x < xpsize win" "0 \<le> y" "y < ypsize win"
  shows "colours {x + y * xpsize win} (at_xy win c) f (pset (offs win x y) (c x y) f)"
  using assms by (simp add: offs_eq colours_pset)

lemma rect_UN: "rect win xa ya xb yb = (\<Union>y \<in> set [ya .. yb]. \<Union>x \<in> set [xa .. xb]. {x + y * xpsize win})"
  by (auto simp: rect_def; blast)

lemma colours_rows:
  assumes "win_ok win" "0 \<le> xa" "xb < xpsize win" "0 \<le> ya" "yb < ypsize win"
  shows "colours (rect win xa ya xb yb) (at_xy win c) f
    (fold (\<lambda>y. fold (\<lambda>x. pset (offs win x y) (c x y)) [xa .. xb]) [ya .. yb] f)"
proof -
  show ?thesis unfolding rect_UN using assms by (intro colours_fold colours_point) auto
qed

lemma colours_cols:
  assumes "win_ok win" "0 \<le> xa" "xb < xpsize win" "0 \<le> ya" "yb < ypsize win"
  shows "colours (rect win xa ya xb yb) (at_xy win c) f
    (fold (\<lambda>x. fold (\<lambda>y. pset (offs win x y) (c x y)) [ya .. yb]) [xa .. xb] f)"
proof -
  have "rect win xa ya xb yb = (\<Union>x \<in> set [xa .. xb]. \<Union>y \<in> set [ya .. yb]. {x + y * xpsize win})"
    unfolding rect_UN by blast
  then show ?thesis by (simp only:) (use assms in \<open>intro colours_fold colours_point; auto\<close>)
qed

lemma colours_rect_pixel:
  assumes "colours (rect win xa ya xb yb) (at_xy win c) f f'" "0 \<le> xa" "xb < xpsize win" "0 \<le> x" "x < xpsize win"
  shows "pix f' (x + y * xpsize win) =
    (if xa \<le> x \<and> x \<le> xb \<and> ya \<le> y \<and> y \<le> yb then c x y else pix f (x + y * xpsize win))"
  using assms by (simp add: colours_def in_rect)

section \<open>Unscaled images\<close>

text \<open>
  The image index shown at distance \<open>u\<close>, \<open>v\<close> from the upper left corner of the draw area, and
  whether the (rotated) image reaches that far.
\<close>

fun img_index :: "SWIM_ROTATION_T \<Rightarrow> int \<Rightarrow> int \<Rightarrow> int \<Rightarrow> int \<Rightarrow> int" where
  "img_index NOROTATION xsize ysize u v = u + v * xsize"
| "img_index INVERT xsize ysize u v = (xsize - 1 - u) + (ysize - 1 - v) * xsize"
| "img_index LEFT xsize ysize u v = (xsize - 1 - v) + u * xsize"
| "img_index RIGHT xsize ysize u v = v + (ysize - 1 - u) * xsize"

fun img_covers :: "SWIM_ROTATION_T \<Rightarrow> int \<Rightarrow> int \<Rightarrow> int \<Rightarrow> int \<Rightarrow> bool" where
  "img_covers NOROTATION xsize ysize u v \<longleftrightarrow> u < xsize \<and> v < ysize"
| "img_covers INVERT xsize ysize u v \<longleftrightarrow> u < xsize \<and> v < ysize"
| "img_covers LEFT xsize ysize u v \<longleftrightarrow> u < ysize \<and> v < xsize"
| "img_covers RIGHT xsize ysize u v \<longleftrightarrow> u < ysize \<and> v < xsize"

lemma row_major_bound:
  assumes "0 \<le> u" "u < xsize" "0 \<le> v" "v < (ysize :: int)"
  shows "0 \<le> u + v * xsize \<and> u + v * xsize < xsize * ysize"
proof -
  have "v * xsize + xsize \<le> ysize * xsize"
    using mult_right_mono [of "v + 1" ysize xsize] assms by (simp add: algebra_simps)
  with assms show ?thesis by (simp add: algebra_simps)
qed

lemma img_index_bound:
  assumes "img_covers r xsize ysize u v" "0 \<le> u" "0 \<le> v"
  shows "0 \<le> img_index r xsize ysize u v \<and> img_index r xsize ysize u v < xsize * ysize"
proof (cases r)
  case NOROTATION
  then show ?thesis using assms unfolding NOROTATION img_index.simps by (intro row_major_bound) auto
next
  case RIGHT
  then show ?thesis using assms unfolding RIGHT img_index.simps by (intro row_major_bound) auto
next
  case INVERT
  then show ?thesis using assms unfolding INVERT img_index.simps by (intro row_major_bound) auto
next
  case LEFT
  then show ?thesis using assms unfolding LEFT img_index.simps by (intro row_major_bound) auto
qed

lemma unscaled_colours:
  assumes "win_ok win"
  shows "\<exists>f'. swim_put_win_image win img xsize ysize 0 r f = Some f' \<and>
    colours (rect win (xpvmin win) (ypvmin win)
        (min (xpvmax win) (xpvmin win + (if r = NOROTATION \<or> r = INVERT then xsize else ysize) - 1))
        (min (ypvmax win) (ypvmin win + (if r = NOROTATION \<or> r = INVERT then ysize else xsize) - 1)))
      (at_xy win (\<lambda>x y. img (img_index r xsize ysize (x - xpvmin win) (y - ypvmin win)))) f f'"
proof -
  have w: "0 \<le> xpvmin win" "min (xpvmax win) k < xpsize win" "0 \<le> ypvmin win" "min (ypvmax win) k < ypsize win" for k
    using assms by (auto simp: win_ok_def)
  let ?c = "\<lambda>r x y. img (img_index r xsize ysize (x - xpvmin win) (y - ypvmin win))"
  have rows: "colours (rect win (xpvmin win) (ypvmin win) (min (xpvmax win) k) (min (ypvmax win) l)) (at_xy win c) g
      (fold (\<lambda>y. fold (\<lambda>x. pset (offs win x y) (c x y)) [xpvmin win .. min (xpvmax win) k])
        [ypvmin win .. min (ypvmax win) l] g)"
    and cols: "colours (rect win (xpvmin win) (ypvmin win) (min (xpvmax win) k) (min (ypvmax win) l)) (at_xy win c) g
      (fold (\<lambda>x. fold (\<lambda>y. pset (offs win x y) (c x y)) [ypvmin win .. min (ypvmax win) l])
        [xpvmin win .. min (xpvmax win) k] g)" for k l c g
    using assms w by (simp_all add: colours_rows colours_cols)
  have "swim_put_image win img xsize ysize f =
      fold (\<lambda>y. fold (\<lambda>x. pset (offs win x y) (?c NOROTATION x y))
        [xpvmin win .. min (xpvmax win) (xpvmin win + xsize - 1)]) [ypvmin win .. min (ypvmax win) (ypvmin win + ysize - 1)] f"
    "swim_put_invert_image win img xsize ysize f =
      fold (\<lambda>y. fold (\<lambda>x. pset (offs win x y) (?c INVERT x y))
        [xpvmin win .. min (xpvmax win) (xpvmin win + xsize - 1)]) [ypvmin win .. min (ypvmax win) (ypvmin win + ysize - 1)] f"
    "swim_put_left_image win img xsize ysize f =
      fold (\<lambda>x. fold (\<lambda>y. pset (offs win x y) (?c LEFT x y))
        [ypvmin win .. min (ypvmax win) (ypvmin win + xsize - 1)]) [xpvmin win .. min (xpvmax win) (xpvmin win + ysize - 1)] f"
    "swim_put_right_image win img xsize ysize f =
      fold (\<lambda>x. fold (\<lambda>y. pset (offs win x y) (?c RIGHT x y))
        [ypvmin win .. min (ypvmax win) (ypvmin win + xsize - 1)]) [xpvmin win .. min (xpvmax win) (xpvmin win + ysize - 1)] f"
    by (simp_all add: swim_put_image_def swim_put_invert_image_def swim_put_left_image_def
        swim_put_right_image_def Let_def img_loop_fold' algebra_simps)
  note e = this
  show ?thesis
  proof (cases r)
    case NOROTATION
    show ?thesis using rows [of "xpvmin win + xsize - 1" "ypvmin win + ysize - 1" "?c r" f]
      unfolding NOROTATION e(1) [symmetric] by (simp add: swim_put_win_image_def del: img_index.simps)
  next
    case INVERT
    show ?thesis using rows [of "xpvmin win + xsize - 1" "ypvmin win + ysize - 1" "?c r" f]
      unfolding INVERT e(2) [symmetric] by (simp add: swim_put_win_image_def del: img_index.simps)
  next
    case LEFT
    show ?thesis using cols [of "xpvmin win + ysize - 1" "ypvmin win + xsize - 1" "?c r" f]
      unfolding LEFT e(3) [symmetric] by (simp add: swim_put_win_image_def del: img_index.simps)
  next
    case RIGHT
    show ?thesis using cols [of "xpvmin win + ysize - 1" "ypvmin win + xsize - 1" "?c r" f]
      unfolding RIGHT e(4) [symmetric] by (simp add: swim_put_win_image_def del: img_index.simps)
  qed
qed

text \<open>
  An unscaled image is shown exactly, for each of the four rotations: every pixel of the draw area
  that the rotated image reaches shows the image pixel of that position, read from inside the image
  (its index is below xsize * ysize), and every other pixel of the display keeps its value.
\<close>
theorem win_image_unscaled:
  assumes "win_ok win"
  shows "\<exists>f'. swim_put_win_image win img xsize ysize 0 r f = Some f' \<and>
    (\<forall>x y. 0 \<le> x \<and> x < xpsize win \<and> 0 \<le> y \<and> y < ypsize win \<longrightarrow>
       (let u = x - xpvmin win; v = y - ypvmin win; k = img_index r xsize ysize u v in
        if in_draw win x y \<and> img_covers r xsize ysize u v
        then pix f' (x + y * xpsize win) = img k \<and> 0 \<le> k \<and> k < xsize * ysize
        else pix f' (x + y * xpsize win) = pix f (x + y * xpsize win)))"
proof -
  let ?xb = "min (xpvmax win) (xpvmin win + (if r = NOROTATION \<or> r = INVERT then xsize else ysize) - 1)"
  let ?yb = "min (ypvmax win) (ypvmin win + (if r = NOROTATION \<or> r = INVERT then ysize else xsize) - 1)"
  let ?c = "\<lambda>x y. img (img_index r xsize ysize (x - xpvmin win) (y - ypvmin win))"
  obtain f' where f': "swim_put_win_image win img xsize ysize 0 r f = Some f'"
    "colours (rect win (xpvmin win) (ypvmin win) ?xb ?yb) (at_xy win ?c) f f'"
    using unscaled_colours [OF assms] by blast
  have w: "0 \<le> xpvmin win" "?xb < xpsize win" using assms by (auto simp: win_ok_def)
  have r: "(xpvmin win \<le> x \<and> x \<le> ?xb \<and> ypvmin win \<le> y \<and> y \<le> ?yb) =
      (in_draw win x y \<and> img_covers r xsize ysize (x - xpvmin win) (y - ypvmin win))" for x y
    by (cases r) (auto simp: in_draw_def)
  have "let u = x - xpvmin win; v = y - ypvmin win; k = img_index r xsize ysize u v in
        if in_draw win x y \<and> img_covers r xsize ysize u v
        then pix f' (x + y * xpsize win) = img k \<and> 0 \<le> k \<and> k < xsize * ysize
        else pix f' (x + y * xpsize win) = pix f (x + y * xpsize win)"
    if "0 \<le> x" "x < xpsize win" for x y
    using colours_rect_pixel [OF f'(2) w that, of y] r [of x y]
      img_index_bound [of r xsize ysize "x - xpvmin win" "y - ypvmin win"]
    unfolding Let_def by (auto simp: in_draw_def simp del: img_covers.simps img_index.simps)
  with f'(1) show ?thesis by blast
qed

section \<open>Scaled images\<close>

text \<open>
  What scaling means: the column and the row of the image shown at a pixel. Distances in the window
  are proportional to distances in the image, rounded down, so that corners show corners.
\<close>

definition scale_src :: "SWIM_WINDOW_T \<Rightarrow> SWIM_ROTATION_T \<Rightarrow> int \<Rightarrow> int \<Rightarrow> int \<Rightarrow> int \<Rightarrow> int \<times> int" where
  "scale_src win r xsize ysize x y =
     (let u = x - xpvmin win; v = y - ypvmin win; w = xvsize win; h = yvsize win in
      case r of
        NOROTATION \<Rightarrow> ((xsize - 1) * u div w, (ysize - 1) * v div h)
      | RIGHT \<Rightarrow> ((xsize - 1) * v div h, (ysize - 1) * (w - u) div w)
      | INVERT \<Rightarrow> (xsize - 1 - (xsize - 1) * u div w, ysize - 1 - (ysize - 1) * v div h)
      | LEFT \<Rightarrow> ((xsize - 1) * (h - v) div h, (ysize - 1) * u div w))"

text \<open>The index the code computes.\<close>

definition scale_index :: "SWIM_WINDOW_T \<Rightarrow> SWIM_ROTATION_T \<Rightarrow> int \<Rightarrow> int \<Rightarrow> int \<Rightarrow> int \<Rightarrow> int" where
  "scale_index win r xsize ysize x y =
     (let sx = (\<lambda>n d. s32 ((n - 1) * d) sdiv xvsize win); sy = (\<lambda>n d. s32 ((n - 1) * d) sdiv yvsize win) in
      case r of
        NOROTATION \<Rightarrow> sx xsize (x - xpvmin win) + sy ysize (y - ypvmin win) * xsize
      | RIGHT \<Rightarrow> sy xsize (y - ypvmin win) + sx ysize (xpvmax win - x) * xsize
      | INVERT \<Rightarrow> xsize - 1 - sx xsize (x - xpvmin win) + (ysize - 1 - sy ysize (y - ypvmin win)) * xsize
      | LEFT \<Rightarrow> sy xsize (ypvmax win - y) + sx ysize (x - xpvmin win) * xsize)"

lemma scaled_is_fill:
  assumes "scale \<noteq> 0"
  shows "swim_put_win_image win img xsize ysize scale r f = scale_fill win img (scale_index win r xsize ysize) f"
  using assms
  by (cases r) (simp_all add: swim_put_win_image_def swim_put_scale_image_def swim_put_scale_invert_image_def
      swim_put_scale_left_image_def swim_put_scale_right_image_def scale_index_def [abs_def] Let_def)

text \<open>Scaling a distance of at most the window's virtual size does not overflow and gives an image coordinate.\<close>

lemma scale_bound:
  assumes "1 \<le> n" "n \<le> 32767" "0 \<le> d" "d \<le> v" "0 < v" "v \<le> 32767"
  shows "s32 ((n - 1) * d) sdiv v = (n - 1) * d div v \<and> 0 \<le> (n - 1) * d div v \<and> (n - 1) * d div v \<le> n - 1"
proof -
  have s: "s32 ((n - 1) * d) = (n - 1) * d" using assms by (intro s32_mult) auto
  have p: "0 \<le> (n - 1) * d" using assms by simp
  then have q: "(n - 1) * d sdiv v = (n - 1) * d div v" using assms by (simp add: sdiv_nonneg)
  have "(n - 1) * d div v \<le> (n - 1) * v div v" using assms by (intro zdiv_mono1 mult_left_mono) auto
  then show ?thesis using assms p by (simp add: s q pos_imp_zdiv_nonneg_iff)
qed

abbreviation (input) "image_ok win xsize ysize \<equiv> win_ok win \<and>
  xvsize win = xpvmax win - xpvmin win \<and> yvsize win = ypvmax win - ypvmin win \<and> 0 < xvsize win \<and> 0 < yvsize win \<and>
  1 \<le> xsize \<and> xsize \<le> 32767 \<and> 1 \<le> ysize \<and> ysize \<le> 32767"

lemma scale_index_src:
  assumes "image_ok win xsize ysize" "in_draw win x y"
  shows "let (i, j) = scale_src win r xsize ysize x y
    in scale_index win r xsize ysize x y = i + j * xsize \<and> 0 \<le> i \<and> i < xsize \<and> 0 \<le> j \<and> j < ysize"
proof -
  have v: "xvsize win \<le> 32767" "yvsize win \<le> 32767" using assms(1) by (auto simp: win_ok_def)
  have n: "1 \<le> n" "n \<le> 32767" if "n \<in> {xsize, ysize}" for n using that assms(1) by blast+
  have pos: "0 < xvsize win" "0 < yvsize win" using assms(1) by blast+
  let ?u = "x - xpvmin win" and ?v = "y - ypvmin win" and ?w = "xvsize win" and ?h = "yvsize win"
  have d: "0 \<le> ?u" "?u \<le> ?w" "0 \<le> ?v" "?v \<le> ?h" "xpvmax win - x = ?w - ?u" "ypvmax win - y = ?h - ?v"
    using assms by (auto simp: in_draw_def)
  have sx: "s32 ((n - 1) * k) sdiv ?w = (n - 1) * k div ?w \<and> 0 \<le> (n - 1) * k div ?w \<and> (n - 1) * k div ?w \<le> n - 1"
    if "n \<in> {xsize, ysize}" "k \<in> {?u, ?w - ?u}" for n k
    by (rule scale_bound [OF n [OF that(1)] _ _ pos(1) v(1)]) (use that d(1,2) in auto)
  have sy: "s32 ((n - 1) * k) sdiv ?h = (n - 1) * k div ?h \<and> 0 \<le> (n - 1) * k div ?h \<and> (n - 1) * k div ?h \<le> n - 1"
    if "n \<in> {xsize, ysize}" "k \<in> {?v, ?h - ?v}" for n k
    by (rule scale_bound [OF n [OF that(1)] _ _ pos(2) v(2)]) (use that d(3,4) in auto)
  show ?thesis
  proof (cases r)
    case NOROTATION
    then show ?thesis using sx [of xsize ?u] sy [of ysize ?v] by (simp add: scale_src_def scale_index_def)
  next
    case RIGHT
    then show ?thesis using sx [of ysize "?w - ?u"] sy [of xsize ?v] unfolding scale_src_def scale_index_def Let_def d(5) by simp
  next
    case INVERT
    then show ?thesis using sx [of xsize ?u] sy [of ysize ?v] by (simp add: scale_src_def scale_index_def)
  next
    case LEFT
    then show ?thesis using sx [of ysize ?u] sy [of xsize "?h - ?v"] unfolding scale_src_def scale_index_def Let_def d(6) by simp
  qed
qed

lemma scale_fill_colours:
  assumes "win_ok win" "0 < xvsize win" "0 < yvsize win"
  shows "\<exists>f'. scale_fill win img src f = Some f' \<and>
    colours (rect win (xpvmin win) (ypvmin win) (xpvmax win) (ypvmax win)) (at_xy win (\<lambda>x y. img (src x y))) f f'"
  using assms colours_rows [OF assms(1), of "xpvmin win" "xpvmax win" "ypvmin win" "ypvmax win" "\<lambda>x y. img (src x y)" f]
  by (simp add: scale_fill_def win_ok_def)


section \<open>Concrete runs\<close>

theorem win_image_unscaled_witness:
  "\<exists>f'. swim_put_win_image win0 (\<lambda>k. word_of_int k) 4 3 0 LEFT fb0 = Some f' \<and> pix f' (1 + 1 * 240) = 3"
proof -
  obtain f' where f': "swim_put_win_image win0 (\<lambda>k. word_of_int k) 4 3 0 LEFT fb0 = Some f'"
    "\<forall>x y. 0 \<le> x \<and> x < xpsize win0 \<and> 0 \<le> y \<and> y < ypsize win0 \<longrightarrow>
       (let u = x - xpvmin win0; v = y - ypvmin win0; k = img_index LEFT 4 3 u v in
        if in_draw win0 x y \<and> img_covers LEFT 4 3 u v
        then pix f' (x + y * xpsize win0) = word_of_int k \<and> 0 \<le> k \<and> k < 4 * 3
        else pix f' (x + y * xpsize win0) = pix fb0 (x + y * xpsize win0))"
    using win_image_unscaled [OF win0_ok, of "\<lambda>k. word_of_int k" 4 3 LEFT fb0] by blast
  from f'(1) f'(2) [rule_format, of 1 1] show ?thesis by (simp add: win0_def in_draw_def)
qed


end
