(* ===== verification/Spi.thy ===== *)
theory Spi
  imports Prelude
begin

text \<open>
  The SPI port driver \<^verbatim>\<open>drivers/spi.c\<close>. The values the driver reads from the hardware are the
  parameters \<open>sts\<close> (the status register) and \<open>rxs\<close> (the data register), indexed by the number of
  reads done so far, which the state counts.
\<close>

section \<open>Definitions\<close>

abbreviation (input) "S0SPCR \<equiv> (0xE0020000 :: u32)"
abbreviation (input) "S0SPDR \<equiv> (0xE0020008 :: u32)"
abbreviation (input) "S0SPCCR \<equiv> (0xE002000C :: u32)"
abbreviation (input) "SPI_PINSEL0 \<equiv> (0xE002C000 :: u32)"
abbreviation (input) "SPI_PINSEL1 \<equiv> (0xE002C004 :: u32)"
abbreviation (input) "Fpclk \<equiv> (28800000 :: int)"

record spi_io =
  sbus :: mmio
  wSPIErrors :: "int list"
  sts_reads :: nat
  dr_reads :: nat

text \<open>The divisor the clock is set to; \<open>None\<close> is the division by zero.\<close>

definition spi_divisor :: "int \<Rightarrow> int option" where
  "spi_divisor wClock =
     (if wClock = 0 then None
      else let t = s16 ((Fpclk sdiv 1000) sdiv wClock);
               t = (if t < 8 then 8 else t)
           in Some (if t smod 2 \<noteq> 0 then s16 (t + 1) else t))"

definition SPIInit :: "int \<Rightarrow> u8 \<Rightarrow> u8 \<Rightarrow> u8 \<Rightarrow> u8 \<Rightarrow> mmio \<Rightarrow> mmio option" where
  "SPIInit wClock nFramesize bCPHA bCPOL bLSBF m =
     (case spi_divisor wClock of
        None \<Rightarrow> None
      | Some wTempClock \<Rightarrow>
          let m = wr S0SPCCR (word_of_int wTempClock) m;
              m = wr S0SPCR 0x00 m;
              m = wr_or SPI_PINSEL0 0xc0000000 m;
              m = wr_or SPI_PINSEL1 0x0000003c m;
              nFramesize = (if nFramesize < 8 \<or> nFramesize > 16 then 8 else nFramesize)
          in Some (wr S0SPCR (push_bit 8 (ucast nFramesize) OR push_bit 3 (ucast bCPHA) OR
                              push_bit 4 (ucast bCPOL) OR 0x20 OR push_bit 6 (ucast bLSBF)) m))"

text \<open>One of the four tests of \<open>SPIError\<close>: \<open>(S0SPSR & BITn) == 1\<close>.\<close>

definition spi_test :: "(nat \<Rightarrow> u32) \<Rightarrow> u32 \<Rightarrow> nat \<Rightarrow> bool \<times> spi_io \<Rightarrow> bool \<times> spi_io" where
  "spi_test sts bit_n k = (\<lambda>(bAnyError, s).
     let v = sts (sts_reads s);
         s = s\<lparr>sts_reads := sts_reads s + 1\<rparr>
     in if v AND bit_n = 1
        then (True, s\<lparr>wSPIErrors := (wSPIErrors s)[k := s16 (wSPIErrors s ! k + 1)]\<rparr>)
        else (bAnyError, s))"

definition SPIError :: "(nat \<Rightarrow> u32) \<Rightarrow> spi_io \<Rightarrow> bool \<times> spi_io" where
  "SPIError sts s =
     spi_test sts 0x40 3 (spi_test sts 0x20 2 (spi_test sts 0x10 1 (spi_test sts 0x08 0 (False, s))))"

text \<open>The wait for the end of a transfer: the number of status reads it takes from read \<open>n\<close> on.\<close>

function spi_wait :: "(nat \<Rightarrow> u32) \<Rightarrow> nat \<Rightarrow> int \<Rightarrow> nat" where
  "spi_wait sts n i =
     (if sts n AND 0x80 = 0
      then if i > 500 then 1 else Suc (spi_wait sts (Suc n) (i + 1))
      else 1)"
  by pat_completeness auto
termination by (relation "measure (\<lambda>(sts, n, i). nat (502 - i))") auto

declare spi_wait.simps [simp del]

definition SpiXfer :: "(nat \<Rightarrow> u32) \<Rightarrow> (nat \<Rightarrow> u32) \<Rightarrow> u16 \<Rightarrow> spi_io \<Rightarrow> u16 \<times> spi_io" where
  "SpiXfer sts rxs nData s =
     (let s = s\<lparr>sbus := wr S0SPDR (ucast nData) (sbus s)\<rparr>;
          s = s\<lparr>sts_reads := sts_reads s + spi_wait sts (sts_reads s) 0\<rparr>;
          (_, s) = SPIError sts s
      in (ucast (rxs (dr_reads s)), s\<lparr>dr_reads := dr_reads s + 1\<rparr>))"

section \<open>Clock and frame set-up\<close>

lemma spi_divisor_pos:
  assumes "0 < w"
  shows "\<exists>v. spi_divisor w = Some v \<and> v = (let t = max 8 (28800 div w) in t + t mod 2)"
proof -
  have q: "(28800 :: int) sdiv w = 28800 div w" using assms by (simp add: sdiv_nonneg)
  have r: "0 \<le> 28800 div w" "28800 div w \<le> 28800"
    using assms div_by_1 [of "28800 :: int"] zdiv_mono2 [of 28800 1 w]
    by (simp_all add: pos_imp_zdiv_nonneg_iff)
  have k: "(Fpclk sdiv 1000 :: int) = 28800" by (simp add: sdiv_nonneg)
  have md: "t smod 2 = t mod 2" if "0 \<le> t" for t :: int
    using that by (cases "t = 0") (simp_all add: signed_modulo_int_def)
  have "spi_divisor w = Some (let t = max 8 (28800 div w) in if t mod 2 \<noteq> 0 then t + 1 else t)"
    using assms r by (simp add: spi_divisor_def k q s16_id md max_def Let_def)
  then show ?thesis by (auto simp: Let_def)
qed

text \<open>
  For every positive clock request SPIInit sets the clock counter to an even value of at least 8,
  as the controller requires, within one of the exact quotient otherwise, and selects the pins and a
  frame of 8 to 16 bits in master mode; a request of 0 divides by zero.
\<close>
theorem SPIInit_clock:
  assumes "0 < wClock"
  shows "\<exists>m' v. SPIInit wClock nFramesize bCPHA bCPOL bLSBF m = Some m' \<and>
    rd S0SPCCR m' = word_of_int v \<and> even v \<and> 8 \<le> v \<and> v \<le> max 8 (28800 div wClock + 1) \<and>
    rd SPI_PINSEL0 m' = rd SPI_PINSEL0 m OR 0xc0000000 \<and>
    rd SPI_PINSEL1 m' = rd SPI_PINSEL1 m OR 0x3c \<and> bit (rd S0SPCR m') 5"
proof -
  obtain v where v: "spi_divisor wClock = Some v" "v = (let t = max 8 (28800 div wClock) in t + t mod 2)"
    using spi_divisor_pos [OF assms] by blast
  define t where "t = max 8 (28800 div wClock)"
  have t: "v = t + t mod 2" "8 \<le> t" using v(2) by (simp_all add: t_def Let_def)
  have "even v" unfolding t(1) by presburger
  moreover have "8 \<le> v" using t by simp
  moreover have "v \<le> max 8 (28800 div wClock + 1)" unfolding t(1) t_def max_def by (auto; presburger)
  moreover have "bit (a OR b OR c OR 0x20 OR d) 5" for a b c d :: u32
    by (simp add: bit_simps)
  ultimately show ?thesis
    by (simp add: SPIInit_def v(1) Let_def mmio_simps) (rule exI [of _ v], simp)
qed

theorem SPIInit_clock_witness: "SPIInit 5000 8 0 1 0 mmio0 \<noteq> None"
  using SPIInit_clock [of 5000 8 0 1 0 mmio0] by auto

section \<open>Transfers\<close>

lemma and_bit_neq_1: "(v :: u32) AND 0x08 \<noteq> 1" "v AND 0x10 \<noteq> 1" "v AND 0x20 \<noteq> 1" "v AND 0x40 \<noteq> 1"
proof -
  have *: "v AND w \<noteq> 1" if "\<not> bit w 0" for w :: u32
    using that by (metis bit_1_0 bit_and_iff)
  show "v AND 0x08 \<noteq> 1" "v AND 0x10 \<noteq> 1" "v AND 0x20 \<noteq> 1" "v AND 0x40 \<noteq> 1"
    by (rule *; simp)+
qed

lemma SPIError_nop: "SPIError sts s = (False, s\<lparr>sts_reads := sts_reads s + 4\<rparr>)"
  by (simp add: SPIError_def spi_test_def and_bit_neq_1)

lemma spi_wait_bound: "1 \<le> spi_wait sts n i \<and> int (spi_wait sts n i) \<le> max 1 (502 - i)"
proof (induction sts n i rule: spi_wait.induct)
  case (1 sts n i)
  show ?case
  proof (cases "sts n AND 0x80 = 0 \<and> \<not> i > 500")
    case True
    with "1.IH" show ?thesis by (subst (1 2) spi_wait.simps) (auto simp: max_def split: if_splits)
  next
    case False
    then show ?thesis by (subst (1 2) spi_wait.simps) (auto simp: max_def)
  qed
qed

text \<open>
  SPIError never reports or counts an error: it compares a masked status bit with 1, and none of
  the four masks is 1. Whatever the status register shows, it returns FALSE and the four counters
  keep their values.
\<close>
theorem SPIError_never_counts:
  "fst (SPIError sts s) = False \<and> wSPIErrors (snd (SPIError sts s)) = wSPIErrors s"
  by (simp add: SPIError_nop)

lemma SpiXfer_eq:
  "SpiXfer sts rxs nData s = (ucast (rxs (dr_reads s)),
     s\<lparr>sbus := wr S0SPDR (ucast nData) (sbus s),
       sts_reads := sts_reads s + spi_wait sts (sts_reads s) 0 + 4, dr_reads := dr_reads s + 1\<rparr>)"
  by (simp add: SpiXfer_def SPIError_nop)

text \<open>
  A transfer always returns, also when the port never signals completion: it stores the data word
  once, reads the status register at most 506 times and returns the low 16 bits of one read of the
  data register.
\<close>
theorem SpiXfer_returns:
  "let (v, s') = SpiXfer sts rxs nData s in
     v = ucast (rxs (dr_reads s)) \<and> wlog (sbus s') = wlog (sbus s) @ [(S0SPDR, ucast nData)] \<and>
     dr_reads s' = dr_reads s + 1 \<and> sts_reads s < sts_reads s' \<and> sts_reads s' \<le> sts_reads s + 506"
  using spi_wait_bound [of sts "sts_reads s" 0] by (simp add: SpiXfer_eq mmio_simps)

end
