(* ===== verification/Calibrate.thy ===== *)
theory Calibrate
  imports Prelude
begin

text \<open>
  The three-point touch screen calibration of \<^verbatim>\<open>drivers/calibrate.c\<close>. Coordinates and factors are
  64-bit signed integers. As wrapping commutes with addition, subtraction and multiplication, a
  sum of products is wrapped once, where it is stored or divided.
\<close>

section \<open>Definitions\<close>

record POINT =
  px :: int
  py :: int

record MATRIX =
  An :: int
  Bn :: int
  Cn :: int
  Dn :: int
  En :: int
  Fn :: int
  Divider :: int

datatype cal_result = OK | NOT_OK

text \<open>The arrays \<open>displayPtr\<close> and \<open>screenPtr\<close> have three elements, given one by one.\<close>

definition setCalibrationMatrix ::
  "POINT \<times> POINT \<times> POINT \<Rightarrow> POINT \<times> POINT \<times> POINT \<Rightarrow> MATRIX \<Rightarrow> cal_result \<times> MATRIX" where
  "setCalibrationMatrix displayPtr screenPtr matrixPtr =
     (let (d0, d1, d2) = displayPtr; (s0, s1, s2) = screenPtr;
          m = matrixPtr\<lparr>Divider := s64 (((px s0 - px s2) * (py s1 - py s2)) -
                                       ((px s1 - px s2) * (py s0 - py s2)))\<rparr>
      in if Divider m = 0 then (NOT_OK, m)
         else (OK, m\<lparr>
           An := s64 (((px d0 - px d2) * (py s1 - py s2)) - ((px d1 - px d2) * (py s0 - py s2))),
           Bn := s64 (((px s0 - px s2) * (px d1 - px d2)) - ((px d0 - px d2) * (px s1 - px s2))),
           Cn := s64 ((px s2 * px d1 - px s1 * px d2) * py s0 +
                      (px s0 * px d2 - px s2 * px d0) * py s1 +
                      (px s1 * px d0 - px s0 * px d1) * py s2),
           Dn := s64 (((py d0 - py d2) * (py s1 - py s2)) - ((py d1 - py d2) * (py s0 - py s2))),
           En := s64 (((px s0 - px s2) * (py d1 - py d2)) - ((py d0 - py d2) * (px s1 - px s2))),
           Fn := s64 ((px s2 * py d1 - px s1 * py d2) * py s0 +
                      (px s0 * py d2 - px s2 * py d0) * py s1 +
                      (px s1 * py d0 - px s0 * py d1) * py s2)\<rparr>))"

definition getDisplayPoint :: "POINT \<Rightarrow> POINT \<Rightarrow> MATRIX \<Rightarrow> cal_result \<times> POINT" where
  "getDisplayPoint displayPtr screenPtr m =
     (if Divider m \<noteq> 0
      then (OK, displayPtr\<lparr>
        px := s64 (s64 (An m * px screenPtr + Bn m * py screenPtr + Cn m) sdiv Divider m),
        py := s64 (s64 (Dn m * px screenPtr + En m * py screenPtr + Fn m) sdiv Divider m)\<rparr>)
      else (NOT_OK, displayPtr))"

section \<open>Bounds\<close>

text \<open>Coordinates of a digitizer or display of at most 16 bits.\<close>

definition coord_ok :: "POINT \<Rightarrow> bool" where
  "coord_ok p \<longleftrightarrow> 0 \<le> px p \<and> px p \<le> 65535 \<and> 0 \<le> py p \<and> py p \<le> 65535"

lemma abs_mult_le: "\<bar>a\<bar> \<le> A \<Longrightarrow> \<bar>b\<bar> \<le> B \<Longrightarrow> \<bar>a * b\<bar> \<le> A * B" for a b A B :: int
  by (simp add: abs_mult mult_mono')

lemma abs_diff_coord: "0 \<le> a \<Longrightarrow> a \<le> 65535 \<Longrightarrow> 0 \<le> b \<Longrightarrow> b \<le> 65535 \<Longrightarrow> \<bar>a - b\<bar> \<le> 65535" for a b :: int
  by linarith

text \<open>A determinant of coordinate differences fits into 34 bits, an offset term into 51.\<close>

lemma det_bound:
  fixes a b c d :: int
  assumes "\<bar>a\<bar> \<le> 65535" "\<bar>b\<bar> \<le> 65535" "\<bar>c\<bar> \<le> 65535" "\<bar>d\<bar> \<le> 65535"
  shows "\<bar>a * b - c * d\<bar> \<le> 8589672450"
  using abs_mult_le [OF assms(1,2)] abs_mult_le [OF assms(3,4)] by linarith

lemma offset_bound:
  fixes a :: int
  assumes "\<bar>a\<bar> \<le> 8589672450" "\<bar>b\<bar> \<le> 8589672450" "\<bar>c\<bar> \<le> 8589672450"
    and "\<bar>x\<bar> \<le> 65535" "\<bar>y\<bar> \<le> 65535" "\<bar>z\<bar> \<le> 65535"
  shows "\<bar>a * x + b * y + c * z\<bar> \<le> 1688772552032250"
  using abs_mult_le [OF assms(1,4)] abs_mult_le [OF assms(2,5)] abs_mult_le [OF assms(3,6)] by linarith

lemma row_bound:
  fixes a :: int
  assumes "\<bar>a\<bar> \<le> 8589672450" "\<bar>b\<bar> \<le> 8589672450" "\<bar>c\<bar> \<le> 1688772552032250"
    and "\<bar>x\<bar> \<le> 65535" "\<bar>y\<bar> \<le> 65535"
  shows "\<bar>a * x + b * y + c\<bar> \<le> 2814620920053750"
  using abs_mult_le [OF assms(1,4)] abs_mult_le [OF assms(2,5)] assms(3) by linarith

lemma s64_abs: "\<bar>x\<bar> \<le> 9223372036854775807 \<Longrightarrow> s64 x = x"
  by (rule s64_id) linarith+

section \<open>One coordinate\<close>

text \<open>
  Both rows of the matrix have the same shape. For the reference values \<open>u0 u1 u2\<close> of the three
  sample points, the row is the Cramer solution of the three linear equations.
\<close>

definition rowA :: "int \<Rightarrow> int \<Rightarrow> int \<Rightarrow> POINT \<Rightarrow> POINT \<Rightarrow> POINT \<Rightarrow> int" where
  "rowA u0 u1 u2 s0 s1 s2 = (u0 - u2) * (py s1 - py s2) - (u1 - u2) * (py s0 - py s2)"

definition rowB :: "int \<Rightarrow> int \<Rightarrow> int \<Rightarrow> POINT \<Rightarrow> POINT \<Rightarrow> POINT \<Rightarrow> int" where
  "rowB u0 u1 u2 s0 s1 s2 = (px s0 - px s2) * (u1 - u2) - (u0 - u2) * (px s1 - px s2)"

definition rowC :: "int \<Rightarrow> int \<Rightarrow> int \<Rightarrow> POINT \<Rightarrow> POINT \<Rightarrow> POINT \<Rightarrow> int" where
  "rowC u0 u1 u2 s0 s1 s2 = (px s2 * u1 - px s1 * u2) * py s0 + (px s0 * u2 - px s2 * u0) * py s1 +
     (px s1 * u0 - px s0 * u1) * py s2"

definition cal_det :: "POINT \<Rightarrow> POINT \<Rightarrow> POINT \<Rightarrow> int" where
  "cal_det s0 s1 s2 = (px s0 - px s2) * (py s1 - py s2) - (px s1 - px s2) * (py s0 - py s2)"

lemmas row_defs = rowA_def rowB_def rowC_def cal_det_def

lemma row_solves:
  "rowA u0 u1 u2 s0 s1 s2 * px s0 + rowB u0 u1 u2 s0 s1 s2 * py s0 + rowC u0 u1 u2 s0 s1 s2 = u0 * cal_det s0 s1 s2"
  "rowA u0 u1 u2 s0 s1 s2 * px s1 + rowB u0 u1 u2 s0 s1 s2 * py s1 + rowC u0 u1 u2 s0 s1 s2 = u1 * cal_det s0 s1 s2"
  "rowA u0 u1 u2 s0 s1 s2 * px s2 + rowB u0 u1 u2 s0 s1 s2 * py s2 + rowC u0 u1 u2 s0 s1 s2 = u2 * cal_det s0 s1 s2"
  by (simp_all add: row_defs algebra_simps)

text \<open>If the reference values come from an affine map, the row is that map times the determinant.\<close>

lemma row_affine:
  assumes "u0 = a * px s0 + b * py s0 + c" "u1 = a * px s1 + b * py s1 + c" "u2 = a * px s2 + b * py s2 + c"
  shows "rowA u0 u1 u2 s0 s1 s2 * x + rowB u0 u1 u2 s0 s1 s2 * y + rowC u0 u1 u2 s0 s1 s2 =
    (a * x + b * y + c) * cal_det s0 s1 s2"
  unfolding assms by (simp add: row_defs algebra_simps)

lemma row_bounds:
  assumes "coord_ok s0" "coord_ok s1" "coord_ok s2"
    and "0 \<le> u0" "u0 \<le> 65535" "0 \<le> u1" "u1 \<le> 65535" "0 \<le> u2" "u2 \<le> 65535"
  shows "\<bar>rowA u0 u1 u2 s0 s1 s2\<bar> \<le> 8589672450" "\<bar>rowB u0 u1 u2 s0 s1 s2\<bar> \<le> 8589672450"
    "\<bar>rowC u0 u1 u2 s0 s1 s2\<bar> \<le> 1688772552032250" "\<bar>cal_det s0 s1 s2\<bar> \<le> 8589672450"
proof -
  have p: "\<bar>px s\<bar> \<le> 65535" "\<bar>py s\<bar> \<le> 65535" if "coord_ok s" for s
    using that by (auto simp: coord_ok_def)
  note b = p [OF assms(1)] p [OF assms(2)] p [OF assms(3)]
  show "\<bar>rowA u0 u1 u2 s0 s1 s2\<bar> \<le> 8589672450" "\<bar>rowB u0 u1 u2 s0 s1 s2\<bar> \<le> 8589672450"
    "\<bar>cal_det s0 s1 s2\<bar> \<le> 8589672450"
    unfolding row_defs by (rule det_bound; use assms in \<open>auto simp: coord_ok_def abs_le_iff\<close>)+
  show "\<bar>rowC u0 u1 u2 s0 s1 s2\<bar> \<le> 1688772552032250"
    unfolding rowC_def by (rule offset_bound; (rule det_bound)?; use assms b in simp)
qed

lemma set_rows:
  "setCalibrationMatrix (d0, d1, d2) (s0, s1, s2) m =
    (if s64 (cal_det s0 s1 s2) = 0 then (NOT_OK, m\<lparr>Divider := 0\<rparr>)
     else (OK, \<lparr>An = s64 (rowA (px d0) (px d1) (px d2) s0 s1 s2), Bn = s64 (rowB (px d0) (px d1) (px d2) s0 s1 s2),
            Cn = s64 (rowC (px d0) (px d1) (px d2) s0 s1 s2), Dn = s64 (rowA (py d0) (py d1) (py d2) s0 s1 s2),
            En = s64 (rowB (py d0) (py d1) (py d2) s0 s1 s2), Fn = s64 (rowC (py d0) (py d1) (py d2) s0 s1 s2),
            Divider = s64 (cal_det s0 s1 s2)\<rparr>))"
  unfolding row_defs by (cases m) (simp add: setCalibrationMatrix_def Let_def)

lemma set_matrix:
  assumes "coord_ok s0" "coord_ok s1" "coord_ok s2" "coord_ok d0" "coord_ok d1" "coord_ok d2"
  shows "setCalibrationMatrix (d0, d1, d2) (s0, s1, s2) m =
    (if cal_det s0 s1 s2 = 0 then (NOT_OK, m\<lparr>Divider := 0\<rparr>)
     else (OK, \<lparr>An = rowA (px d0) (px d1) (px d2) s0 s1 s2, Bn = rowB (px d0) (px d1) (px d2) s0 s1 s2,
            Cn = rowC (px d0) (px d1) (px d2) s0 s1 s2, Dn = rowA (py d0) (py d1) (py d2) s0 s1 s2,
            En = rowB (py d0) (py d1) (py d2) s0 s1 s2, Fn = rowC (py d0) (py d1) (py d2) s0 s1 s2,
            Divider = cal_det s0 s1 s2\<rparr>))"
proof -
  note u = assms(4-6) [unfolded coord_ok_def]
  show ?thesis
    unfolding set_rows
    using u row_bounds [OF assms(1-3), of "px d0" "px d1" "px d2"]
      row_bounds [OF assms(1-3), of "py d0" "py d1" "py d2"]
    by (simp add: s64_abs)
qed

lemma div_value:
  assumes "\<bar>v * D\<bar> \<le> 2814620920053750" "D \<noteq> 0"
  shows "s64 (s64 (v * D) sdiv D) = v"
proof -
  have "1 \<le> \<bar>D\<bar>" using assms(2) by linarith
  then have "\<bar>v\<bar> * 1 \<le> \<bar>v\<bar> * \<bar>D\<bar>" by (intro mult_left_mono) simp_all
  then have "\<bar>v\<bar> \<le> 2814620920053750" using assms(1) by (simp add: abs_mult)
  with assms show ?thesis by (simp add: s64_abs sdiv_mult_self)
qed

lemma det_value:
  assumes "coord_ok s0" "coord_ok s1" "coord_ok s2" "cal_det s0 s1 s2 \<noteq> 0" "0 \<le> u" "u \<le> 65535"
  shows "s64 (s64 (u * cal_det s0 s1 s2) sdiv cal_det s0 s1 s2) = u"
proof (rule div_value [OF _ assms(4)])
  have "\<bar>u * cal_det s0 s1 s2\<bar> \<le> 65535 * 8589672450"
    using assms row_bounds(4) [OF assms(1-3)] by (intro abs_mult_le) auto
  then show "\<bar>u * cal_det s0 s1 s2\<bar> \<le> 2814620920053750" by linarith
qed

section \<open>Properties\<close>

text \<open>
  C20 Calibration is exact at the sample points: for coordinates of at most 16 bits (beyond the ten
  bits the comments promise) and three samples that are not on a line, setCalibrationMatrix
  succeeds and getDisplayPoint maps each sampled screen point to exactly the display point it was
  sampled for.
\<close>
theorem calibration_exact:
  assumes "coord_ok s0" "coord_ok s1" "coord_ok s2" "coord_ok d0" "coord_ok d1" "coord_ok d2"
    and "cal_det s0 s1 s2 \<noteq> 0"
  shows "let (st, m) = setCalibrationMatrix (d0, d1, d2) (s0, s1, s2) m0 in
    st = OK \<and>
    (\<forall>q. \<exists>r. getDisplayPoint q s0 m = (OK, r) \<and> px r = px d0 \<and> py r = py d0) \<and>
    (\<forall>q. \<exists>r. getDisplayPoint q s1 m = (OK, r) \<and> px r = px d1 \<and> py r = py d1) \<and>
    (\<forall>q. \<exists>r. getDisplayPoint q s2 m = (OK, r) \<and> px r = px d2 \<and> py r = py d2)"
proof -
  have v: "s64 (s64 (u * cal_det s0 s1 s2) sdiv cal_det s0 s1 s2) = u" if "0 \<le> u" "u \<le> 65535" for u
    using assms(1-3,7) that by (rule det_value)
  show ?thesis
    using assms(4-6)
    by (simp add: set_matrix [OF assms(1-6)] assms(7) getDisplayPoint_def row_solves v coord_ok_def)
qed

theorem calibration_exact_witness:
  "let (st, m) = setCalibrationMatrix
       (\<lparr>px = 20, py = 20\<rparr>, \<lparr>px = 220, py = 160\<rparr>, \<lparr>px = 120, py = 300\<rparr>)
       (\<lparr>px = 4000, py = 3900\<rparr>, \<lparr>px = 500, py = 2000\<rparr>, \<lparr>px = 2300, py = 300\<rparr>)
       \<lparr>An = 0, Bn = 0, Cn = 0, Dn = 0, En = 0, Fn = 0, Divider = 0\<rparr> in st = OK"
  using calibration_exact [of "\<lparr>px = 4000, py = 3900\<rparr>" "\<lparr>px = 500, py = 2000\<rparr>" "\<lparr>px = 2300, py = 300\<rparr>"
      "\<lparr>px = 20, py = 20\<rparr>" "\<lparr>px = 220, py = 160\<rparr>" "\<lparr>px = 120, py = 300\<rparr>"
      "\<lparr>An = 0, Bn = 0, Cn = 0, Dn = 0, En = 0, Fn = 0, Divider = 0\<rparr>"]
  by (simp add: coord_ok_def cal_det_def case_prod_beta Let_def)

text \<open>
  C21 Calibration recovers an affine touch screen: if the three reference points are the images of
  the samples under an affine map with integer factors, getDisplayPoint computes that map at every
  point of the digitizer, without rounding or overflow.
\<close>
theorem calibration_affine:
  assumes "coord_ok s0" "coord_ok s1" "coord_ok s2" "coord_ok d0" "coord_ok d1" "coord_ok d2"
    and "cal_det s0 s1 s2 \<noteq> 0" "coord_ok s"
    and xs: "px d0 = a * px s0 + b * py s0 + c" "px d1 = a * px s1 + b * py s1 + c"
      "px d2 = a * px s2 + b * py s2 + c"
    and ys: "py d0 = a' * px s0 + b' * py s0 + c'" "py d1 = a' * px s1 + b' * py s1 + c'"
      "py d2 = a' * px s2 + b' * py s2 + c'"
  shows "let (st, m) = setCalibrationMatrix (d0, d1, d2) (s0, s1, s2) m0 in
    st = OK \<and> (\<forall>q. \<exists>r. getDisplayPoint q s m = (OK, r) \<and>
      px r = a * px s + b * py s + c \<and> py r = a' * px s + b' * py s + c')"
proof -
  have s: "\<bar>px s\<bar> \<le> 65535" "\<bar>py s\<bar> \<le> 65535" using assms(8) by (auto simp: coord_ok_def)
  note u = assms(4-6) [unfolded coord_ok_def]
  have bx: "\<bar>(a * px s + b * py s + c) * cal_det s0 s1 s2\<bar> \<le> 2814620920053750"
    unfolding row_affine [OF xs, symmetric]
    by (rule row_bound [OF row_bounds(1-3) s]) (use assms(1-3) u in simp_all)
  have by': "\<bar>(a' * px s + b' * py s + c') * cal_det s0 s1 s2\<bar> \<le> 2814620920053750"
    unfolding row_affine [OF ys, symmetric]
    by (rule row_bound [OF row_bounds(1-3) s]) (use assms(1-3) u in simp_all)
  show ?thesis
    by (simp only: set_matrix [OF assms(1-6)] assms(7) if_False prod.case Let_def getDisplayPoint_def
        MATRIX.simps row_affine [OF xs] row_affine [OF ys] div_value [OF bx assms(7)]
        div_value [OF by' assms(7)]) simp
qed

theorem calibration_affine_witness:
  "let (st, m) = setCalibrationMatrix
       (\<lparr>px = 20, py = 20\<rparr>, \<lparr>px = 220, py = 20\<rparr>, \<lparr>px = 20, py = 300\<rparr>)
       (\<lparr>px = 10, py = 10\<rparr>, \<lparr>px = 110, py = 10\<rparr>, \<lparr>px = 10, py = 150\<rparr>)
       \<lparr>An = 0, Bn = 0, Cn = 0, Dn = 0, En = 0, Fn = 0, Divider = 0\<rparr> in
     \<exists>r. getDisplayPoint \<lparr>px = 0, py = 0\<rparr> \<lparr>px = 50, py = 60\<rparr> m = (OK, r) \<and> px r = 100 \<and> py r = 120"
  using calibration_affine [of "\<lparr>px = 10, py = 10\<rparr>" "\<lparr>px = 110, py = 10\<rparr>" "\<lparr>px = 10, py = 150\<rparr>"
      "\<lparr>px = 20, py = 20\<rparr>" "\<lparr>px = 220, py = 20\<rparr>" "\<lparr>px = 20, py = 300\<rparr>" "\<lparr>px = 50, py = 60\<rparr>"
      2 0 0 0 2 0 "\<lparr>An = 0, Bn = 0, Cn = 0, Dn = 0, En = 0, Fn = 0, Divider = 0\<rparr>"]
  by (auto simp: coord_ok_def cal_det_def case_prod_beta Let_def)

text \<open>
  Samples on a line (or repeated) are rejected: setCalibrationMatrix returns NOT_OK, keeps the six
  factors and stores the divider 0, on which getDisplayPoint then reports NOT_OK and leaves its
  output untouched.
\<close>
theorem calibration_degenerate:
  assumes "coord_ok s0" "coord_ok s1" "coord_ok s2" "cal_det s0 s1 s2 = 0"
  shows "let (st, m) = setCalibrationMatrix (d0, d1, d2) (s0, s1, s2) m0 in
    st = NOT_OK \<and> m = m0\<lparr>Divider := 0\<rparr> \<and> getDisplayPoint q p m = (NOT_OK, q)"
  using assms(4) by (simp add: setCalibrationMatrix_def cal_det_def getDisplayPoint_def Let_def s64_def)

theorem calibration_degenerate_witness:
  "fst (setCalibrationMatrix (\<lparr>px = 1, py = 2\<rparr>, \<lparr>px = 3, py = 4\<rparr>, \<lparr>px = 5, py = 9\<rparr>)
     (\<lparr>px = 10, py = 10\<rparr>, \<lparr>px = 20, py = 20\<rparr>, \<lparr>px = 30, py = 30\<rparr>)
     \<lparr>An = 0, Bn = 0, Cn = 0, Dn = 0, En = 0, Fn = 0, Divider = 5\<rparr>) = NOT_OK"
  using calibration_degenerate [of "\<lparr>px = 10, py = 10\<rparr>" "\<lparr>px = 20, py = 20\<rparr>" "\<lparr>px = 30, py = 30\<rparr>"
      "\<lparr>px = 1, py = 2\<rparr>" "\<lparr>px = 3, py = 4\<rparr>" "\<lparr>px = 5, py = 9\<rparr>"
      "\<lparr>An = 0, Bn = 0, Cn = 0, Dn = 0, En = 0, Fn = 0, Divider = 5\<rparr>"]
  by (simp add: coord_ok_def cal_det_def case_prod_beta Let_def)

end
