(* ===== verification/Touch.thy ===== *)
theory Touch
  imports Spi Calibrate
begin

text \<open>
  The touch panel driver \<^verbatim>\<open>drivers/touch.c\<close> on top of an SPI transfer function. The driver calls
  the transfer through the pointer \<open>spifunc\<close> that \<open>touch_init\<close> stores, so it is a parameter here;
  \<open>spi_port\<close> states what the driver needs of it, and the driver's own \<open>SpiXfer\<close> provides it.
\<close>

section \<open>The transfer interface\<close>

type_synonym spifunc = "u16 \<Rightarrow> spi_io \<Rightarrow> u16 \<times> spi_io"

locale spi_port =
  fixes xfer :: spifunc
    and answer :: "nat \<Rightarrow> u16"
  assumes xfer_log: "wlog (sbus (snd (xfer d s))) = wlog (sbus s) @ [(S0SPDR, ucast d)]"
    and xfer_value: "fst (xfer d s) = answer (dr_reads s)"
    and xfer_count: "dr_reads (snd (xfer d s)) = dr_reads s + 1"

section \<open>Definitions\<close>

abbreviation (input) "IOSET0 \<equiv> (0xE0028004 :: u32)"
abbreviation (input) "IODIR0 \<equiv> (0xE0028008 :: u32)"
abbreviation (input) "IOCLR0 \<equiv> (0xE002800C :: u32)"
abbreviation (input) "CS_PIN \<equiv> (0x00100000 :: u32)"

record tTouchPoint =
  tp_x :: u16
  tp_y :: u16

record tStoredCalData =
  validatePattern1 :: u32
  storedMatrix :: MATRIX
  validatePattern2 :: u32

record touch_state =
  storedCalData :: tStoredCalData
  calibrated :: bool

definition touch_cs_low :: "spi_io \<Rightarrow> spi_io" where
  "touch_cs_low s = s\<lparr>sbus := wr IOCLR0 CS_PIN (sbus s)\<rparr>"

definition touch_cs_high :: "spi_io \<Rightarrow> spi_io" where
  "touch_cs_high s = s\<lparr>sbus := wr IOSET0 CS_PIN (sbus s)\<rparr>"

text \<open>The bytes received for the bytes of \<open>out\<close>; the cast to \<open>char\<close> keeps the low byte.\<close>

fun tp_xfer :: "spifunc \<Rightarrow> u8 list \<Rightarrow> spi_io \<Rightarrow> u8 list \<times> spi_io" where
  "tp_xfer spifunc [] s = ([], s)"
| "tp_xfer spifunc (b # out) s =
     (let (v, s) = spifunc (ucast b) s;
          (r, s) = tp_xfer spifunc out s
      in (ucast v # r, s))"

definition spi_read_tp :: "spifunc \<Rightarrow> u8 \<Rightarrow> spi_io \<Rightarrow> u16 \<times> spi_io" where
  "spi_read_tp spifunc command s =
     (let s = touch_cs_low s;
          (result, s) = tp_xfer spifunc [command, 0, 0] s;
          s = touch_cs_high s
      in (push_bit 8 (ucast (result ! 1)) OR ucast (result ! 2), s))"

definition to_point :: "tTouchPoint \<Rightarrow> POINT" where
  "to_point p = \<lparr>px = uint (tp_x p), py = uint (tp_y p)\<rparr>"

definition touch_calibrate :: "tTouchPoint \<Rightarrow> tTouchPoint \<Rightarrow> tTouchPoint \<Rightarrow>
    tTouchPoint \<Rightarrow> tTouchPoint \<Rightarrow> tTouchPoint \<Rightarrow> touch_state \<Rightarrow> touch_state" where
  "touch_calibrate ref1 ref2 ref3 scr1 scr2 scr3 t =
     (let (_, m) = setCalibrationMatrix (to_point ref1, to_point ref2, to_point ref3)
            (to_point scr1, to_point scr2, to_point scr3) (storedMatrix (storedCalData t))
      in t\<lparr>storedCalData := (storedCalData t)\<lparr>storedMatrix := m\<rparr>, calibrated := True\<rparr>)"

text \<open>One channel of the panel: a reading shifted to its 13 significant bits.\<close>

definition tp_channel :: "spifunc \<Rightarrow> u8 \<Rightarrow> spi_io \<Rightarrow> int \<times> spi_io" where
  "tp_channel spifunc command s =
     (let (v, s) = spi_read_tp spifunc command s in (uint v div 8, s))"

text \<open>
  \<open>displayPoint\<close> is the uninitialised local of that name; the result \<open>None\<close> is the division by a
  zero \<open>iz1\<close>.
\<close>

definition touch_xyz :: "spifunc \<Rightarrow> POINT \<Rightarrow> touch_state \<Rightarrow> spi_io \<Rightarrow> ((int \<times> int \<times> int) \<times> spi_io) option" where
  "touch_xyz spifunc displayPoint t s =
     (let (ix, s) = tp_channel spifunc (0x83 OR 0x50 OR 0x00) s;
          (iy, s) = tp_channel spifunc (0x83 OR 0x10 OR 0x00) s;
          (iz1, s) = tp_channel spifunc (0x83 OR 0x30 OR 0x00) s;
          (iz2, s) = tp_channel spifunc (0x83 OR 0x40 OR 0x00) s
      in if iz1 = 0 then None
         else
           let z = s32 (ix * iz2 - iz1) sdiv iz1;
               z = (if z > 40000 then 0 else z)
           in if calibrated t
              then let (_, p) = getDisplayPoint displayPoint \<lparr>px = ix, py = iy\<rparr>
                          (storedMatrix (storedCalData t))
                   in Some ((s32 (px p), s32 (py p), z), s)
              else Some ((ix, iy, z), s))"

definition touch_temp :: "spifunc \<Rightarrow> spi_io \<Rightarrow> u32 \<times> spi_io" where
  "touch_temp spifunc s =
     (let (t0, s) = spi_read_tp spifunc (0x83 OR 0x00 OR 0x04) s;
          t0 = drop_bit 3 (ucast t0 :: u32);
          (t1, s) = spi_read_tp spifunc (0x83 OR 0x70 OR 0x04) s;
          t1 = drop_bit 3 (ucast t1 :: u32)
      in ((2573 * (t1 - t0) - 273000) div 1000, s))"

definition touch_init :: "spi_io \<Rightarrow> spi_io" where
  "touch_init s = s\<lparr>sbus := wr IOSET0 CS_PIN (wr_or IODIR0 CS_PIN (sbus s))\<rparr>"

section \<open>Readings\<close>

context spi_port
begin

lemma tp_xfer_log:
  "wlog (sbus (snd (tp_xfer xfer out s))) = wlog (sbus s) @ map (\<lambda>b. (S0SPDR, ucast (ucast b :: u16))) out"
  by (induction out arbitrary: s) (simp_all add: case_prod_beta Let_def xfer_log)

lemma tp_xfer_value:
  "fst (tp_xfer xfer out s) = map (\<lambda>i. ucast (answer (dr_reads s + i))) [0 ..< length out]"
  by (induction out arbitrary: s)
    (simp_all add: case_prod_beta Let_def xfer_value xfer_count map_upt_Suc del: upt_Suc)

lemma tp_xfer_count: "dr_reads (snd (tp_xfer xfer out s)) = dr_reads s + length out"
  by (induction out arbitrary: s) (simp_all add: case_prod_beta Let_def xfer_count)

text \<open>A reading selects the panel, sends the command and two zero bytes, and releases the panel.\<close>

lemma spi_read_tp_log:
  "wlog (sbus (snd (spi_read_tp xfer command s))) =
     wlog (sbus s) @ [(IOCLR0, CS_PIN), (S0SPDR, ucast (ucast command :: u16)), (S0SPDR, 0), (S0SPDR, 0), (IOSET0, CS_PIN)]"
  by (simp add: spi_read_tp_def touch_cs_low_def touch_cs_high_def case_prod_beta Let_def mmio_simps
      tp_xfer_log del: tp_xfer.simps)

lemma spi_read_tp_value:
  "fst (spi_read_tp xfer command s) =
     push_bit 8 (ucast (ucast (answer (dr_reads s + 1)) :: u8)) OR ucast (ucast (answer (dr_reads s + 2)) :: u8)"
  by (simp add: spi_read_tp_def touch_cs_low_def case_prod_beta Let_def tp_xfer_value nth_append del: tp_xfer.simps)

lemma spi_read_tp_count: "dr_reads (snd (spi_read_tp xfer command s)) = dr_reads s + 3"
  by (simp add: spi_read_tp_def touch_cs_low_def touch_cs_high_def case_prod_beta Let_def tp_xfer_count
      del: tp_xfer.simps)

end

interpretation sp: spi_port "SpiXfer sts rxs" "\<lambda>n. ucast (rxs n)" for sts rxs
  by unfold_locales (simp_all add: SpiXfer_eq mmio_simps)

lemma tp_channel_range:
  "0 \<le> fst (tp_channel f c s) \<and> fst (tp_channel f c s) \<le> 8191"
proof -
  have "0 \<le> uint (v :: u16) div 8 \<and> uint v div 8 \<le> 8191" for v
    using uint_lt2p [of v] zdiv_mono1 [of "uint v" 65535 8] by (simp add: pos_imp_zdiv_nonneg_iff)
  then show ?thesis by (simp add: tp_channel_def case_prod_beta)
qed

text \<open>
  Every reading of the touch controller is one framed transfer, whatever the port's status and
  data: the chip is selected, the command and two zero bytes are sent in this order, the chip is
  released, and the value combines the second and third byte received, most significant first.
\<close>
theorem spi_read_tp_frame:
  "let (v, s') = spi_read_tp (SpiXfer sts rxs) command s in
     wlog (sbus s') = wlog (sbus s) @
       [(IOCLR0, CS_PIN), (S0SPDR, ucast command), (S0SPDR, 0), (S0SPDR, 0), (IOSET0, CS_PIN)] \<and>
     v = push_bit 8 (ucast (ucast (rxs (dr_reads s + 1)) :: u8)) OR ucast (ucast (rxs (dr_reads s + 2)) :: u8)"
proof -
  have 1: "ucast (ucast command :: u16) = (ucast command :: u32)"
    by (rule bit_word_eqI) (auto simp: bit_simps dest: bit_imp_le_length)
  have 2: "ucast (ucast x :: u16) = (ucast x :: u8)" for x :: u32
    by (rule bit_word_eqI) (auto simp: bit_simps)
  show ?thesis
    using sp.spi_read_tp_log [of sts rxs command s] sp.spi_read_tp_value [of sts rxs command s]
    by (simp add: case_prod_beta 1 2)
qed

section \<open>Calibrated touches\<close>

text \<open>The raw position a call of \<open>touch_xyz\<close> samples.\<close>

definition raw_xy :: "spifunc \<Rightarrow> spi_io \<Rightarrow> int \<times> int" where
  "raw_xy spifunc s =
     (let (ix, s) = tp_channel spifunc 0xD3 s; (iy, _) = tp_channel spifunc 0x93 s in (ix, iy))"

lemma to_point_ok [simp]: "coord_ok (to_point p)"
proof -
  have "uint (v :: u16) \<le> 65535" for v using uint_lt2p [of v] by simp
  then show ?thesis by (simp add: to_point_def coord_ok_def)
qed

lemma touch_xyz_calibrated:
  assumes "calibrated t" "touch_xyz f p t s = Some ((x, y, z), s')"
    and "getDisplayPoint p \<lparr>px = fst (raw_xy f s), py = snd (raw_xy f s)\<rparr> (storedMatrix (storedCalData t)) = (st, q)"
  shows "x = s32 (px q) \<and> y = s32 (py q)"
  using assms
  by (auto simp: touch_xyz_def raw_xy_def case_prod_beta Let_def split: if_splits)

text \<open>The pressure reading the code divides by, and when a touch is read at all.\<close>

definition raw_z1 :: "spifunc \<Rightarrow> spi_io \<Rightarrow> int" where
  "raw_z1 f s = (let (_, s) = tp_channel f (0x83 OR 0x50) s; (_, s) = tp_channel f (0x83 OR 0x10) s
     in fst (tp_channel f (0x83 OR 0x30) s))"

lemma touch_xyz_fails: "(touch_xyz f p t s = None) = (raw_z1 f s = 0)"
  by (simp add: touch_xyz_def raw_z1_def case_prod_beta Let_def)

lemma touch_xyz_cases:
  assumes "\<And>x y z s'. touch_xyz f p t s = Some ((x, y, z), s') \<Longrightarrow> x = a \<and> y = b"
  shows "if raw_z1 f s = 0 then touch_xyz f p t s = None else \<exists>z s'. touch_xyz f p t s = Some ((a, b, z), s')"
proof (cases "touch_xyz f p t s")
  case None
  then show ?thesis using touch_xyz_fails [of f p t s] by simp
next
  case (Some v)
  obtain x y z s' where v: "v = ((x, y, z), s')" by (cases v) auto
  then show ?thesis using Some assms [of x y z s'] touch_xyz_fails [of f p t s] by auto
qed

lemma uint_u16_s32: "s32 (uint (v :: u16)) = uint v"
proof -
  have "0 \<le> uint v" "uint v < 65536" using uint_lt2p [of v] by simp_all
  then show ?thesis by (intro s32_id) linarith+
qed

lemma touch_calibrate_reads:
  assumes "cal_det (to_point scr1) (to_point scr2) (to_point scr3) \<noteq> 0"
    and "(scr, ref) \<in> {(scr1, ref1), (scr2, ref2), (scr3, ref3)}"
    and "raw_xy spifunc s = (uint (tp_x scr), uint (tp_y scr))"
    and "touch_xyz spifunc junk (touch_calibrate ref1 ref2 ref3 scr1 scr2 scr3 t) s = Some ((x, y, z), s')"
  shows "x = uint (tp_x ref) \<and> y = uint (tp_y ref)"
proof -
  let ?d = "(to_point ref1, to_point ref2, to_point ref3)"
  let ?s = "(to_point scr1, to_point scr2, to_point scr3)"
  let ?m = "snd (setCalibrationMatrix ?d ?s (storedMatrix (storedCalData t)))"
  let ?t = "touch_calibrate ref1 ref2 ref3 scr1 scr2 scr3 t"
  have t: "calibrated ?t" "storedMatrix (storedCalData ?t) = ?m"
    by (simp_all add: touch_calibrate_def case_prod_beta)
  have v: "s64 (s64 (u * cal_det (to_point scr1) (to_point scr2) (to_point scr3)) sdiv
      cal_det (to_point scr1) (to_point scr2) (to_point scr3)) = u" if "0 \<le> u" "u \<le> 65535" for u
    using assms(1) that by (intro det_value) simp_all
  have c: "0 \<le> px (to_point p)" "px (to_point p) \<le> 65535" "0 \<le> py (to_point p)" "py (to_point p) \<le> 65535" for p
    using to_point_ok [of p] by (simp_all add: coord_ok_def del: to_point_ok)
  have "getDisplayPoint junk (to_point scr) ?m = (OK, junk\<lparr>px := px (to_point ref), py := py (to_point ref)\<rparr>)"
    using assms(1,2) by (auto simp: set_matrix getDisplayPoint_def row_solves v c)
  moreover have "\<lparr>px = fst (raw_xy spifunc s), py = snd (raw_xy spifunc s)\<rparr> = to_point scr"
    using assms(3) by (simp add: to_point_def)
  ultimately have "x = s32 (px (to_point ref)) \<and> y = s32 (py (to_point ref))"
    using touch_xyz_calibrated [OF t(1) assms(4)] t(2) by simp
  then show ?thesis by (simp add: to_point_def uint_u16_s32)
qed

lemma touch_calibrate_returns:
  assumes "cal_det (to_point scr1) (to_point scr2) (to_point scr3) \<noteq> 0"
    and "(scr, ref) \<in> {(scr1, ref1), (scr2, ref2), (scr3, ref3)}"
    and "raw_xy spifunc s = (uint (tp_x scr), uint (tp_y scr))"
  shows "let r = touch_xyz spifunc junk (touch_calibrate ref1 ref2 ref3 scr1 scr2 scr3 t) s in
    if raw_z1 spifunc s = 0 then r = None
    else \<exists>z s'. r = Some ((uint (tp_x ref), uint (tp_y ref), z), s')"
  unfolding Let_def using touch_calibrate_reads [OF assms] by (rule touch_xyz_cases)

text \<open>
  C22 Calibrating and reading compose: after touch_calibrate with three samples that are not on a
  line, a touch read back at the raw position of a sample is reported at exactly the display point
  that sample was taken for, for every transfer function and whatever was calibrated before; only a
  pressure reading of zero, by which the code divides, gives no result.
\<close>
theorem touch_calibrated_sample:
  assumes "cal_det (to_point scr1) (to_point scr2) (to_point scr3) \<noteq> 0"
    and "(scr, ref) \<in> {(scr1, ref1), (scr2, ref2), (scr3, ref3)}"
    and "raw_xy spifunc s = (uint (tp_x scr), uint (tp_y scr))"
  shows "let r = touch_xyz spifunc junk (touch_calibrate ref1 ref2 ref3 scr1 scr2 scr3 t) s in
    if raw_z1 spifunc s = 0 then r = None
    else \<exists>z s'. r = Some ((uint (tp_x ref), uint (tp_y ref), z), s')"
  using assms by (rule touch_calibrate_returns)

text \<open>
  A failed calibration is not noticed: with three samples on a line touch_calibrate still marks the
  panel as calibrated, and every later touch is reported at the position that happens to be in the
  uninitialised local variable of touch_xyz.
\<close>
theorem touch_bad_calibration:
  assumes "cal_det (to_point scr1) (to_point scr2) (to_point scr3) = 0"
  shows "let t' = touch_calibrate ref1 ref2 ref3 scr1 scr2 scr3 t in
    calibrated t' \<and>
    (\<forall>spifunc junk s. let r = touch_xyz spifunc junk t' s in
       if raw_z1 spifunc s = 0 then r = None
       else \<exists>z s'. r = Some ((s32 (px junk), s32 (py junk), z), s'))"
proof -
  let ?t = "touch_calibrate ref1 ref2 ref3 scr1 scr2 scr3 t"
  have c: "calibrated ?t" by (simp add: touch_calibrate_def case_prod_beta)
  have "Divider (storedMatrix (storedCalData ?t)) = 0"
    using assms by (simp add: touch_calibrate_def set_matrix)
  then have g: "getDisplayPoint junk p (storedMatrix (storedCalData ?t)) = (NOT_OK, junk)" for junk p
    by (simp add: getDisplayPoint_def)
  show ?thesis using c touch_xyz_cases [OF touch_xyz_calibrated [OF c _ g]] by (simp add: Let_def)
qed

text \<open>A transfer function that always answers 0x10, for concrete runs.\<close>

definition spi_const :: spifunc where
  "spi_const d s = (0x10, s)"

definition spi0 :: spi_io where
  "spi0 = \<lparr>sbus = mmio0, wSPIErrors = [0, 0, 0, 0], sts_reads = 0, dr_reads = 0\<rparr>"

definition touch0 :: touch_state where
  "touch0 = \<lparr>storedCalData = \<lparr>validatePattern1 = 0, storedMatrix =
     \<lparr>An = 0, Bn = 0, Cn = 0, Dn = 0, En = 0, Fn = 0, Divider = 0\<rparr>, validatePattern2 = 0\<rparr>, calibrated = False\<rparr>"

lemma spi_const_channel: "fst (tp_channel spi_const c s) = 514"
  by (simp add: tp_channel_def spi_read_tp_def spi_const_def)

lemma spi_const_z1: "raw_z1 spi_const spi0 \<noteq> 0"
  by (simp add: raw_z1_def case_prod_beta spi_const_channel)

theorem touch_calibrated_sample_witness:
  "\<exists>z s'. touch_xyz spi_const \<lparr>px = 0, py = 0\<rparr> (touch_calibrate
     \<lparr>tp_x = 15, tp_y = 282\<rparr> \<lparr>tp_x = 120, tp_y = 62\<rparr> \<lparr>tp_x = 220, tp_y = 262\<rparr>
     \<lparr>tp_x = 514, tp_y = 514\<rparr> \<lparr>tp_x = 2000, tp_y = 3000\<rparr> \<lparr>tp_x = 3500, tp_y = 700\<rparr> touch0) spi0
     = Some ((15, 282, z), s')"
proof -
  let ?t = "touch_calibrate \<lparr>tp_x = 15, tp_y = 282\<rparr> \<lparr>tp_x = 120, tp_y = 62\<rparr> \<lparr>tp_x = 220, tp_y = 262\<rparr>
     \<lparr>tp_x = 514, tp_y = 514\<rparr> \<lparr>tp_x = 2000, tp_y = 3000\<rparr> \<lparr>tp_x = 3500, tp_y = 700\<rparr> touch0"
  have d: "cal_det (to_point \<lparr>tp_x = 514, tp_y = 514\<rparr>) (to_point \<lparr>tp_x = 2000, tp_y = 3000\<rparr>)
      (to_point \<lparr>tp_x = 3500, tp_y = 700\<rparr>) \<noteq> 0"
    by (simp add: cal_det_def to_point_def)
  have x: "raw_xy spi_const spi0 = (uint (tp_x \<lparr>tp_x = 514, tp_y = 514\<rparr>), uint (tp_y \<lparr>tp_x = 514, tp_y = 514\<rparr>))"
    by (simp add: raw_xy_def case_prod_beta spi_const_channel)
  show ?thesis
    using touch_calibrated_sample [OF d insertI1 x, of "\<lparr>px = 0, py = 0\<rparr>" "\<lparr>tp_x = 15, tp_y = 282\<rparr>"
      "\<lparr>tp_x = 120, tp_y = 62\<rparr>" "\<lparr>tp_x = 220, tp_y = 262\<rparr>" touch0] spi_const_z1 by (simp add: Let_def)
qed

theorem touch_bad_calibration_witness:
  "\<exists>z s'. touch_xyz spi_const \<lparr>px = 7, py = 9\<rparr> (touch_calibrate
     \<lparr>tp_x = 15, tp_y = 282\<rparr> \<lparr>tp_x = 120, tp_y = 62\<rparr> \<lparr>tp_x = 220, tp_y = 262\<rparr>
     \<lparr>tp_x = 514, tp_y = 514\<rparr> \<lparr>tp_x = 514, tp_y = 514\<rparr> \<lparr>tp_x = 514, tp_y = 514\<rparr> touch0) spi0
     = Some ((7, 9, z), s')"
proof -
  let ?p = "\<lparr>tp_x = 514, tp_y = 514\<rparr> :: tTouchPoint"
  let ?t = "touch_calibrate \<lparr>tp_x = 15, tp_y = 282\<rparr> \<lparr>tp_x = 120, tp_y = 62\<rparr> \<lparr>tp_x = 220, tp_y = 262\<rparr> ?p ?p ?p touch0"
  have "cal_det (to_point ?p) (to_point ?p) (to_point ?p) = 0" by (simp add: cal_det_def)
  from touch_bad_calibration [OF this, of "\<lparr>tp_x = 15, tp_y = 282\<rparr>" "\<lparr>tp_x = 120, tp_y = 62\<rparr>"
      "\<lparr>tp_x = 220, tp_y = 262\<rparr>" touch0]
  have "if raw_z1 spi_const spi0 = 0 then touch_xyz spi_const \<lparr>px = 7, py = 9\<rparr> ?t spi0 = None
      else \<exists>z s'. touch_xyz spi_const \<lparr>px = 7, py = 9\<rparr> ?t spi0 =
        Some ((s32 (px \<lparr>px = 7, py = 9\<rparr>), s32 (py \<lparr>px = 7, py = 9\<rparr>), z), s')"
    unfolding Let_def by blast
  with spi_const_z1 show ?thesis by (simp add: s32_id)
qed

end
