(* ===== verification/Lcd.thy ===== *)
theory Lcd
  imports Touch Platform
begin

text \<open>
  The LCD driver \<^verbatim>\<open>drivers/lcd/lcd_driver.c\<close> with the register block of \<^verbatim>\<open>clcdc.h\<close> and the panel
  parameters of \<^verbatim>\<open>lcd_params.c\<close>.

  The driver talks to the panel through an SPI function it is given as a code address; the functions,
  structures and memory its arguments point to are the environment \<open>lcd_env\<close>. \<open>None\<close> is a wait
  that does not end or a call through a null pointer. A status is the 32-bit pattern of the \<open>long\<close>
  the code returns.
\<close>

section \<open>Data\<close>

record CLCDC_REGS_T =
  lcdtiming0 :: u32
  lcdtiming1 :: u32
  lcdtiming2 :: u32
  lcdtiming3 :: u32
  lcdupbase :: u32
  lcdlpbase :: u32
  lcdctrl :: u32
  lcdimsc :: u32
  lcdris :: u32
  lcdmis :: u32
  lcdicr :: u32
  lcdupcurr :: u32
  lcdlpcurr :: u32
  lcdpalette :: "u32 list"
  cursorimage :: "u32 list"
  clcdcrsrctrl :: u32
  clcdcrsrconfig :: u32
  clcdcrsrpalette0 :: u32
  clcdcrsrpalette1 :: u32
  clcdcrsrxy :: u32
  clcdcrsrclip :: u32
  lcdcrsrimsc :: u32
  lcdcrsrris :: u32
  lcdcrsrmis :: u32
  lcdcrsricr :: u32

datatype LCD_PANEL_T = TFT | ADTFT | HRTFT | MONO_4BIT | MONO_8BIT | CSTN

text \<open>\<open>lcd_panel_type\<close> is \<open>None\<close> for a number that is no enumerator.\<close>

record LCD_PARAM_T =
  h_back_porch :: u8
  h_front_porch :: u8
  h_sync_pulse_width :: u8
  pixels_per_line :: u16
  v_back_porch :: u8
  v_front_porch :: u8
  v_sync_pulse_width :: u8
  lines_per_panel :: u16
  invert_output_enable :: u8
  invert_panel_clock :: u8
  invert_hsync :: u8
  invert_vsync :: u8
  ac_bias_frequency :: u8
  bits_per_pixel :: u8
  optimal_clock :: u32
  lcd_panel_type :: "LCD_PANEL_T option"
  dual_panel :: u8

definition truly_tft_g240320ltsw_118w_e_portrait :: LCD_PARAM_T where
  "truly_tft_g240320ltsw_118w_e_portrait = \<lparr>h_back_porch = 30, h_front_porch = 10, h_sync_pulse_width = 2,
     pixels_per_line = 240, v_back_porch = 4, v_front_porch = 2, v_sync_pulse_width = 2,
     lines_per_panel = 320, invert_output_enable = 0, invert_panel_clock = 1, invert_hsync = 1,
     invert_vsync = 1, ac_bias_frequency = 1, bits_per_pixel = 16, optimal_clock = 4800000,
     lcd_panel_type = Some TFT, dual_panel = 0\<rparr>"

definition LCD_LTA057A347F_params16bit :: LCD_PARAM_T where
  "LCD_LTA057A347F_params16bit = \<lparr>h_back_porch = 30, h_front_porch = 10, h_sync_pulse_width = 96,
     pixels_per_line = 320, v_back_porch = 8, v_front_porch = 2, v_sync_pulse_width = 15,
     lines_per_panel = 240, invert_output_enable = 0, invert_panel_clock = 0, invert_hsync = 0,
     invert_vsync = 0, ac_bias_frequency = 0, bits_per_pixel = 16, optimal_clock = 4800000,
     lcd_panel_type = Some TFT, dual_panel = 0\<rparr>"

record PALETTE_ENTRY_T =
  Rl :: "5 word"
  Gl :: "5 word"
  Bl :: "5 word"
  Il :: "1 word"
  Ru :: "5 word"
  Gu :: "5 word"
  Bu :: "5 word"
  Iu :: "1 word"

datatype LCD_IOCTL_CMD_T = LCD_SET_BUFFER | LCD_CRSR_SET_BUFFER | LCD_PWR_ON | LCD_ENABLE
  | LCD_CRSR_ENABLE | LCD_CRSR_NUM | LCD_CRSR_SIZE | LCD_CRSR_SYNC | LCD_LOAD_PALETTE
  | LCD_CRSR_LOAD_PALETTE0 | LCD_CRSR_LOAD_PALETTE1 | LCD_SET_BPP | LCD_SET_BGR | LCD_SET_INTERRUPT
  | LCD_CLR_INTERRUPT | LCD_CRSR_SET_INTERRUPT | LCD_CRSR_CLR_INTERRUPT | LCD_CRSR_XY | LCD_CRSR_CLIP
  | LCD_GET_STATUS | LCD_SET_SPIFUNC

datatype LCD_IOCTL_STS_T = LCD_GET_BUFFER | LCD_GET_BPP | LCD_GET_PALETTE | LCD_CRSR_GET_PALETTE0
  | LCD_CRSR_GET_PALETTE1 | LCD_GET_INTERRUPT | LCD_CRSR_GET_INTERRUPT

definition lcd_cmd_enum :: "LCD_IOCTL_CMD_T list" where
  "lcd_cmd_enum = [LCD_SET_BUFFER, LCD_CRSR_SET_BUFFER, LCD_PWR_ON, LCD_ENABLE, LCD_CRSR_ENABLE,
     LCD_CRSR_NUM, LCD_CRSR_SIZE, LCD_CRSR_SYNC, LCD_LOAD_PALETTE, LCD_CRSR_LOAD_PALETTE0,
     LCD_CRSR_LOAD_PALETTE1, LCD_SET_BPP, LCD_SET_BGR, LCD_SET_INTERRUPT, LCD_CLR_INTERRUPT,
     LCD_CRSR_SET_INTERRUPT, LCD_CRSR_CLR_INTERRUPT, LCD_CRSR_XY, LCD_CRSR_CLIP, LCD_GET_STATUS,
     LCD_SET_SPIFUNC]"

definition lcd_sts_enum :: "LCD_IOCTL_STS_T list" where
  "lcd_sts_enum = [LCD_GET_BUFFER, LCD_GET_BPP, LCD_GET_PALETTE, LCD_CRSR_GET_PALETTE0,
     LCD_CRSR_GET_PALETTE1, LCD_GET_INTERRUPT, LCD_CRSR_GET_INTERRUPT]"

text \<open>The enumerator a number stands for.\<close>

definition enum_of :: "'a list \<Rightarrow> u32 \<Rightarrow> 'a option" where
  "enum_of es v = (if unat v < length es then Some (es ! unat v) else None)"

record CLCDC_CFG_T =
  lcd_init :: bool
  lcd_regptr :: u32
  lcd_dptr :: u32

text \<open>
  The driver's static data and what it changes: its device structure, the SPI function's address, the
  controller's register block, the I/O bus with the SPI port, and the number of timer reads so far.
\<close>

record lcd_state =
  lcdcfg :: CLCDC_CFG_T
  spifunc_ptr :: u32
  clcdc :: CLCDC_REGS_T
  lio :: spi_io
  tcr_reads :: nat

text \<open>
  \<open>e_fns\<close>, \<open>e_prms\<close> and \<open>e_ram\<close> are the functions, panel parameters and bytes at an address, \<open>e_tcr\<close> the
  reads of the timer's control register, and \<open>e_pal\<close> what is on the stack for the local \<open>pal_entry\<close>.
\<close>

record lcd_env =
  e_fns :: "u32 \<Rightarrow> spifunc"
  e_prms :: "u32 \<Rightarrow> LCD_PARAM_T"
  e_ram :: "u32 \<Rightarrow> u8"
  e_tcr :: "nat \<Rightarrow> u32"
  e_pal :: PALETTE_ENTRY_T

abbreviation (input) "LCD_BASE \<equiv> (0xFFE10000 :: u32)"
abbreviation (input) "LCD_OK \<equiv> (0 :: u32)"
abbreviation (input) "LCD_ERROR \<equiv> (- 1 :: u32)"

section \<open>The panel\<close>

definition io_wr :: "u32 \<Rightarrow> u32 \<Rightarrow> spi_io \<Rightarrow> spi_io" where
  "io_wr a v s = s\<lparr>sbus := wr a v (sbus s)\<rparr>"

definition mdelay :: "(nat \<Rightarrow> u32) \<Rightarrow> u16 \<Rightarrow> spi_io \<times> nat \<Rightarrow> (spi_io \<times> nat) option" where
  "mdelay tcr delayInMs = (\<lambda>(s, n). do {
     let s = s\<lparr>sbus := wrs [(0xE0008004, 0x02), (0xE000800C, 0x00),
       (0xE0008018, ucast delayInMs * word_of_int (28800000 div 1000)),
       (0xE0008000, 0xff), (0xE0008014, 0x04), (0xE0008004, 0x01)] (sbus s)\<rparr>;
     k \<leftarrow> poll (\<lambda>v. v AND 0x01 = 0) tcr n;
     Some (s, Suc k)
   })"

text \<open>The bounded wait of \<open>spiSend\<close>: the index of the next status read and \<open>failsafe\<close>.\<close>

function send_wait :: "(nat \<Rightarrow> u32) \<Rightarrow> nat \<Rightarrow> nat \<Rightarrow> nat \<times> nat" where
  "send_wait sts n failsafe =
     (if sts n AND 0x80 = 0 \<and> failsafe < 5000 then send_wait sts (Suc n) (failsafe + 1)
      else (Suc n, failsafe))"
  by pat_completeness auto
termination by (relation "measure (\<lambda>(sts, n, failsafe). 5000 - failsafe)") auto

declare send_wait.simps [simp del]

definition spiSend :: "(nat \<Rightarrow> u32) \<Rightarrow> u8 \<Rightarrow> spi_io \<Rightarrow> spi_io" where
  "spiSend sts data s =
     (let s = io_wr S0SPDR (ucast data) s;
          (n, failsafe) = send_wait sts (sts_reads s) 0;
          s = s\<lparr>sts_reads := n\<rparr>
      in if failsafe \<ge> 5000 then io_wr S0SPCR 0x38 (io_wr S0SPCCR 8 s) else s)"

definition send :: "spifunc \<Rightarrow> u16 \<Rightarrow> spi_io \<Rightarrow> spi_io" where
  "send spifunc d s = snd (spifunc d s)"

definition writeToReg :: "spifunc \<Rightarrow> u16 \<Rightarrow> u16 \<Rightarrow> spi_io \<Rightarrow> spi_io" where
  "writeToReg spifunc addr data s =
     (let s = io_wr IOCLR0 0x80000 s;
          s = io_wr IOCLR0 0x10000 s;
          s = send spifunc 0 s;
          s = send spifunc (addr AND 0xff) s;
          s = io_wr IOSET0 0x10000 s;
          s = io_wr IOSET0 0x80000 s;
          s = io_wr IOCLR0 0x10000 s;
          s = send spifunc (drop_bit 8 data) s;
          s = send spifunc (data AND 0xff) s;
          s = io_wr IOSET0 0x10000 s;
          s = io_wr IOCLR0 0x80000 s;
          s = io_wr IOCLR0 0x10000 s;
          s = send spifunc 0 s;
          s = send spifunc 0x22 s
      in io_wr IOSET0 0x10000 s)"

definition write_regs :: "spifunc \<Rightarrow> (u16 \<times> u16) list \<Rightarrow> spi_io \<times> nat \<Rightarrow> spi_io \<times> nat" where
  "write_regs spifunc rs = (\<lambda>(s, n). (fold (\<lambda>(addr, data). writeToReg spifunc addr data) rs s, n))"

definition display_regs :: "(u16 \<times> u16) list list" where
  "display_regs =
     [[(0x00, 0x0001)],
      [(0x03, 0xA2A4), (0x0C, 0x0004), (0x0D, 0x0308), (0x0E, 0x3000)],
      [(0x1E, 0x00AF), (0x01, 0x2B3F), (0x02, 0x0600), (0x10, 0x0000), (0x07, 0x0233), (0x0B, 0x0039),
       (0x0F, 0x0000)],
      [(0x30, 0x0707), (0x31, 0x0204), (0x32, 0x0204), (0x33, 0x0502), (0x34, 0x0507), (0x35, 0x0204),
       (0x36, 0x0204), (0x37, 0x0502), (0x3A, 0x0302), (0x3B, 0x0302), (0x23, 0x0000), (0x24, 0x0000),
       (0x48, 0x0000), (0x49, 0x013F), (0x4A, 0x0000), (0x4B, 0x0000), (0x41, 0x0000), (0x42, 0x0000),
       (0x44, 0xEF00), (0x45, 0x0000), (0x46, 0x013F)],
      [(0x44, 0xEF00), (0x45, 0x0000), (0x4E, 0x0000), (0x4F, 0x0000), (0x46, 0x013F)]]"

definition lcd_display_init :: "spifunc \<Rightarrow> (nat \<Rightarrow> u32) \<Rightarrow> spi_io \<times> nat \<Rightarrow> (spi_io \<times> nat) option" where
  "lcd_display_init spifunc tcr s = do {
     s \<leftarrow> mdelay tcr 20 (write_regs spifunc (display_regs ! 0) s);
     s \<leftarrow> mdelay tcr 50 (write_regs spifunc (display_regs ! 1) s);
     s \<leftarrow> mdelay tcr 50 (write_regs spifunc (display_regs ! 2) s);
     s \<leftarrow> mdelay tcr 50 (write_regs spifunc (display_regs ! 3) s);
     Some (write_regs spifunc (display_regs ! 4) s)
   }"

section \<open>Controller set-up\<close>

definition lcd_configure_gpio :: "mmio \<Rightarrow> mmio" where
  "lcd_configure_gpio m =
     (let m = wr_or 0x3FFFC040 0x00000001 m;
          m = wr 0x3FFFC058 0x00000001 m;
          m = wr 0xE002C00C (rd 0xE002C00C m AND 0xFFFFFFCF OR 0x00000020) m;
          m = wrs [(0xE001800C, 0x00), (0xE0018014, 0x02), (0xE0018018, 0x3000), (0xE001801C, 0x0000),
                   (0xE0018050, 0x03), (0xE001804C, 0x0200), (0xE0018004, 0x09)] m;
          m = wr 0xE002C000 (rd 0xE002C000 m AND 0x3FFFFFFF OR 0xC0000000) m;
          m = wr 0xE002C004 (rd 0xE002C004 m AND 0xFFFFFFC3 OR 0x0000003C) m;
          m = wr_or IODIR0 0x90000 m;
          m = wr IOSET0 0x90000 m;
          m = wr 0xE002C028 0x0 m;
          m = wr 0xE002C02C 0x0000000D m;
          m = wr 0xE002C000 (rd 0xE002C000 m AND 0xFFF000FF OR 0x00055500) m;
          m = wr 0xE002C00C (rd 0xE002C00C m AND 0xF00000FF OR 0x05555500) m;
          m = wr 0xE002C010 (rd 0xE002C010 m AND 0xF0300000 OR 0x054FFFFF) m
      in wr 0xE002C024 (rd 0xE002C024 m AND 0xF0FFFFFF OR 0x0A000000) m)"

text \<open>\<open>_SBF(p, v & _BITMASK(w))\<close>, and the three words \<open>lcd_initialize\<close> assembles.\<close>

definition SBF :: "nat \<Rightarrow> nat \<Rightarrow> u32 \<Rightarrow> u32" where
  "SBF p w v = push_bit p (v AND mask w)"

definition timing0 :: "LCD_PARAM_T \<Rightarrow> u32" where
  "timing0 c = SBF 2 6 (ucast (pixels_per_line c) div 16 - 1) OR SBF 8 8 (ucast (h_sync_pulse_width c) - 1) OR
     SBF 16 8 (ucast (h_front_porch c) - 1) OR SBF 24 8 (ucast (h_back_porch c) - 1)"

definition timing1 :: "LCD_PARAM_T \<Rightarrow> u32" where
  "timing1 c = SBF 0 10 (ucast (lines_per_panel c) - 1) OR SBF 10 6 (ucast (v_sync_pulse_width c) - 1) OR
     SBF 16 8 (ucast (v_front_porch c)) OR SBF 24 8 (ucast (v_back_porch c))"

definition clocks_per_line :: "LCD_PARAM_T \<Rightarrow> u32" where
  "clocks_per_line c =
     (let ppl = ucast (pixels_per_line c) in
      case lcd_panel_type c of
        Some MONO_4BIT \<Rightarrow> ppl div 4 - 1
      | Some MONO_8BIT \<Rightarrow> ppl div 8 - 1
      | Some CSTN \<Rightarrow> ppl * 3 div 8 - 1
      | _ \<Rightarrow> ppl - 1)"

definition timing2 :: "LCD_PARAM_T \<Rightarrow> u32" where
  "timing2 c =
     (let tmp = (if ac_bias_frequency c \<noteq> 0 then SBF 6 5 (ucast (ac_bias_frequency c) - 1) else 0);
          tmp = (if invert_output_enable c \<noteq> 0 then tmp OR push_bit 14 1 else tmp);
          tmp = (if invert_panel_clock c \<noteq> 0 then tmp OR push_bit 13 1 else tmp);
          tmp = (if invert_hsync c \<noteq> 0 then tmp OR push_bit 12 1 else tmp);
          tmp = (if invert_vsync c \<noteq> 0 then tmp OR push_bit 11 1 else tmp);
          tmp = tmp OR SBF 16 10 (clocks_per_line c)
      in tmp OR SBF 0 5 (8 - 2))"

definition panel_ctrl :: "LCD_PARAM_T \<Rightarrow> u32" where
  "panel_ctrl c =
     (let tmp = push_bit 1 4;
          tmp = tmp OR push_bit 8 1;
          tmp = (case lcd_panel_type c of
                   Some MONO_4BIT \<Rightarrow> tmp OR push_bit 4 1
                 | Some MONO_8BIT \<Rightarrow> tmp OR (push_bit 6 1 OR push_bit 4 1)
                 | Some CSTN \<Rightarrow> tmp
                 | None \<Rightarrow> tmp
                 | _ \<Rightarrow> tmp OR push_bit 5 1)
      in if dual_panel c = 1 then tmp OR push_bit 7 1 else tmp)"

definition lcd_initialize :: "LCD_PARAM_T \<Rightarrow> CLCDC_REGS_T \<Rightarrow> mmio \<Rightarrow> u32 \<times> CLCDC_REGS_T \<times> mmio" where
  "lcd_initialize cgdat lcd m =
     (let m = wr_or 0xE01FC0C4 0x00100000 m;
          lcd = lcd\<lparr>lcdctrl := lcdctrl lcd AND NOT 1\<rparr>;
          lcd = lcd\<lparr>lcdtiming0 := timing0 cgdat\<rparr>;
          lcd = lcd\<lparr>lcdtiming1 := timing1 cgdat\<rparr>;
          lcd = lcd\<lparr>lcdtiming2 := timing2 cgdat\<rparr>;
          lcd = lcd\<lparr>lcdtiming3 := 0x00000000\<rparr>;
          lcd = lcd\<lparr>lcdimsc := 0x00000000\<rparr>;
          lcd = lcd\<lparr>lcdctrl := panel_ctrl cgdat\<rparr>;
          lcd = lcd\<lparr>lcdpalette := replicate 128 0\<rparr>;
          m = wr 0xE01FC1B8 0x0 m
      in (if lcd_panel_type cgdat = None then LCD_ERROR else LCD_OK, lcd, m))"

section \<open>Open and close\<close>

text \<open>The handle is the address of the only device structure; the result \<open>False\<close> is the null handle.\<close>

definition lcd_open :: "lcd_env \<Rightarrow> u32 \<Rightarrow> u32 \<Rightarrow> lcd_state \<Rightarrow> bool \<times> lcd_state" where
  "lcd_open E lcdbase arg s =
     (if \<not> lcd_init (lcdcfg s) \<and> lcdbase = LCD_BASE then
        let s = s\<lparr>lcdcfg := \<lparr>lcd_init = True, lcd_regptr = lcdbase, lcd_dptr = arg\<rparr>\<rparr>;
            s = s\<lparr>clcdc := (clcdc s)\<lparr>lcdctrl := lcdctrl (clcdc s) AND NOT 1\<rparr>\<rparr>
        in if arg \<noteq> 0 then
             let (_, regs, m) = lcd_initialize (e_prms E arg) (clcdc s) (sbus (lio s))
             in (True, s\<lparr>clcdc := regs, lio := (lio s)\<lparr>sbus := lcd_configure_gpio m\<rparr>\<rparr>)
           else (True, s)
      else (False, s))"

definition lcd_close :: "lcd_state \<Rightarrow> u32 \<times> lcd_state" where
  "lcd_close s =
     (if lcd_init (lcdcfg s) then (LCD_OK, s\<lparr>lcdcfg := (lcdcfg s)\<lparr>lcd_init := False\<rparr>\<rparr>)
      else (LCD_ERROR, s))"

section \<open>Control commands\<close>

text \<open>The commands that take 1 for on and 0 for off, as functions on the register they change.\<close>

definition on_off :: "u32 \<Rightarrow> u32 \<Rightarrow> u32 \<Rightarrow> u32 \<times> u32" where
  "on_off arg b r = (if arg = 1 then (LCD_OK, r OR b) else if arg = 0 then (LCD_OK, r AND NOT b) else (LCD_ERROR, r))"

definition ld32 :: "(u32 \<Rightarrow> u8) \<Rightarrow> u32 \<Rightarrow> u32" where
  "ld32 ram a = ucast (ram a) OR push_bit 8 (ucast (ram (a + 1))) OR push_bit 16 (ucast (ram (a + 2))) OR
     push_bit 24 (ucast (ram (a + 3)))"

definition load_cursor :: "(u32 \<Rightarrow> u8) \<Rightarrow> u32 \<Rightarrow> u32 list" where
  "load_cursor ram arg = map (\<lambda>i. ld32 ram (arg + 4 * of_nat i)) [0 ..< 256]"

definition pal_word :: "PALETTE_ENTRY_T \<Rightarrow> u32" where
  "pal_word e = ucast (Rl e) OR push_bit 5 (ucast (Gl e)) OR push_bit 10 (ucast (Bl e)) OR push_bit 15 (ucast (Il e)) OR
     push_bit 16 (ucast (Ru e)) OR push_bit 21 (ucast (Gu e)) OR push_bit 26 (ucast (Bu e)) OR push_bit 31 (ucast (Iu e))"

text \<open>One iteration of the palette loop: six of the eight bytes at \<open>pal_ptr\<close> fill the entry.\<close>

definition pal_fill :: "(u32 \<Rightarrow> u8) \<Rightarrow> u32 \<Rightarrow> PALETTE_ENTRY_T \<Rightarrow> PALETTE_ENTRY_T" where
  "pal_fill ram pal_ptr e = e\<lparr>
     Bl := ucast (drop_bit 3 (ram pal_ptr)), Gl := ucast (drop_bit 3 (ram (pal_ptr + 1))),
     Rl := ucast (drop_bit 3 (ram (pal_ptr + 2))),
     Bu := ucast (drop_bit 3 (ram (pal_ptr + 4))), Gu := ucast (drop_bit 3 (ram (pal_ptr + 5))),
     Ru := ucast (drop_bit 3 (ram (pal_ptr + 6)))\<rparr>"

fun load_palette :: "(u32 \<Rightarrow> u8) \<Rightarrow> nat \<Rightarrow> u32 \<Rightarrow> PALETTE_ENTRY_T \<Rightarrow> u32 list" where
  "load_palette ram 0 pal_ptr e = []"
| "load_palette ram (Suc k) pal_ptr e =
     (let e = pal_fill ram pal_ptr e in pal_word e # load_palette ram k (pal_ptr + 8) e)"

text \<open>The enumerators \<open>BPP_IS_1\<close> to \<open>BPP_IS_12_444_MODE\<close> and their fields in the control register.\<close>

definition bpp_fields :: "(u32 \<times> u32) list" where
  "bpp_fields = [(1, push_bit 1 0), (2, push_bit 1 1), (3, push_bit 1 2), (4, push_bit 1 3), (5, push_bit 1 4),
     (6, push_bit 1 5), (7, push_bit 1 6), (8, push_bit 1 7)]"

definition set_bpp :: "u32 \<Rightarrow> u32 \<Rightarrow> u32 \<times> u32" where
  "set_bpp arg ctrl = (case map_of bpp_fields arg of
     None \<Rightarrow> (LCD_ERROR, ctrl)
   | Some bits \<Rightarrow> (LCD_OK, ctrl AND NOT (push_bit 1 (mask 3)) OR bits))"

definition get_bpp :: "u32 \<Rightarrow> u32" where
  "get_bpp ctrl = (case find (\<lambda>(_, bits). bits = ctrl AND push_bit 1 (mask 3)) bpp_fields of
     None \<Rightarrow> LCD_ERROR
   | Some (bpp, _) \<Rightarrow> bpp)"

text \<open>The four interrupt sources are the bits 1 to 4; any other argument is an error.\<close>

definition or_interrupt :: "u32 \<Rightarrow> u32 \<Rightarrow> u32 \<times> u32" where
  "or_interrupt arg r = (if arg \<in> {2, 4, 8, 16} then (LCD_OK, r OR arg) else (LCD_ERROR, r))"

definition lcd_status :: "u32 \<Rightarrow> CLCDC_REGS_T \<Rightarrow> u32" where
  "lcd_status arg lcd = (case enum_of lcd_sts_enum arg of
     None \<Rightarrow> LCD_ERROR
   | Some LCD_GET_BUFFER \<Rightarrow> lcdupbase lcd
   | Some LCD_GET_BPP \<Rightarrow> get_bpp (lcdctrl lcd)
   | Some LCD_GET_PALETTE \<Rightarrow> LCD_BASE + 0x200
   | Some LCD_CRSR_GET_PALETTE0 \<Rightarrow> clcdcrsrpalette0 lcd
   | Some LCD_CRSR_GET_PALETTE1 \<Rightarrow> clcdcrsrpalette1 lcd
   | Some LCD_GET_INTERRUPT \<Rightarrow> lcdmis lcd
   | Some LCD_CRSR_GET_INTERRUPT \<Rightarrow> lcdcrsrmis lcd)"

text \<open>The commands that only change the register block.\<close>

definition reg_cmd :: "lcd_env \<Rightarrow> LCD_IOCTL_CMD_T \<Rightarrow> u32 \<Rightarrow> CLCDC_REGS_T \<Rightarrow> u32 \<times> CLCDC_REGS_T" where
  "reg_cmd E cmd arg lcd = (case cmd of
     LCD_SET_BUFFER \<Rightarrow> (LCD_OK, lcd\<lparr>lcdupbase := arg\<rparr>)
   | LCD_CRSR_SET_BUFFER \<Rightarrow> (LCD_OK, lcd\<lparr>cursorimage := load_cursor (e_ram E) arg\<rparr>)
   | LCD_ENABLE \<Rightarrow> (let (st, v) = on_off arg 1 (lcdctrl lcd) in (st, lcd\<lparr>lcdctrl := v\<rparr>))
   | LCD_CRSR_ENABLE \<Rightarrow> (let (st, v) = on_off arg 1 (clcdcrsrctrl lcd) in (st, lcd\<lparr>clcdcrsrctrl := v\<rparr>))
   | LCD_CRSR_NUM \<Rightarrow> (LCD_OK, lcd\<lparr>clcdcrsrctrl := clcdcrsrctrl lcd AND NOT 30 OR push_bit 3 arg\<rparr>)
   | LCD_CRSR_SIZE \<Rightarrow> (let (st, v) = on_off arg 1 (clcdcrsrconfig lcd) in (st, lcd\<lparr>clcdcrsrconfig := v\<rparr>))
   | LCD_CRSR_SYNC \<Rightarrow> (let (st, v) = on_off arg 2 (clcdcrsrconfig lcd) in (st, lcd\<lparr>clcdcrsrconfig := v\<rparr>))
   | LCD_LOAD_PALETTE \<Rightarrow> (LCD_OK, lcd\<lparr>lcdpalette := load_palette (e_ram E) 128 arg (e_pal E)\<rparr>)
   | LCD_CRSR_LOAD_PALETTE0 \<Rightarrow> (LCD_OK, lcd\<lparr>clcdcrsrpalette0 := arg\<rparr>)
   | LCD_CRSR_LOAD_PALETTE1 \<Rightarrow> (LCD_OK, lcd\<lparr>clcdcrsrpalette1 := arg\<rparr>)
   | LCD_SET_BPP \<Rightarrow> (let (st, v) = set_bpp arg (lcdctrl lcd) in (st, lcd\<lparr>lcdctrl := v\<rparr>))
   | LCD_SET_BGR \<Rightarrow> (let (st, v) = on_off arg (push_bit 8 1) (lcdctrl lcd) in (st, lcd\<lparr>lcdctrl := v\<rparr>))
   | LCD_SET_INTERRUPT \<Rightarrow> (let (st, v) = or_interrupt arg (lcdimsc lcd) in (st, lcd\<lparr>lcdimsc := v\<rparr>))
   | LCD_CLR_INTERRUPT \<Rightarrow> (let (st, v) = or_interrupt arg (lcdicr lcd) in (st, lcd\<lparr>lcdicr := v\<rparr>))
   | LCD_CRSR_SET_INTERRUPT \<Rightarrow> (LCD_OK, lcd\<lparr>lcdcrsrimsc := lcdcrsrimsc lcd OR 1\<rparr>)
   | LCD_CRSR_CLR_INTERRUPT \<Rightarrow> (LCD_OK, lcd\<lparr>lcdcrsricr := lcdcrsricr lcd OR 1\<rparr>)
   | LCD_CRSR_XY \<Rightarrow> (LCD_OK, lcd\<lparr>clcdcrsrxy := arg\<rparr>)
   | LCD_CRSR_CLIP \<Rightarrow> (LCD_OK, lcd\<lparr>clcdcrsrclip := arg\<rparr>)
   | LCD_GET_STATUS \<Rightarrow> (lcd_status arg lcd, lcd)
   | _ \<Rightarrow> (LCD_ERROR, lcd))"

text \<open>Power on also runs the panel's initialisation, through the SPI function.\<close>

definition pwr_on :: "lcd_env \<Rightarrow> u32 \<Rightarrow> lcd_state \<Rightarrow> (u32 \<times> lcd_state) option" where
  "pwr_on E arg s =
     (let lcd = clcdc s in
      if arg = 1 then
        (let s = s\<lparr>clcdc := lcd\<lparr>lcdctrl := lcdctrl lcd OR 1 OR push_bit 11 1\<rparr>\<rparr> in
         if spifunc_ptr s = 0 then None
         else do {
           (io, n) \<leftarrow> lcd_display_init (e_fns E (spifunc_ptr s)) (e_tcr E) (lio s, tcr_reads s);
           Some (LCD_OK, s\<lparr>lio := io, tcr_reads := n\<rparr>)
         })
      else if arg = 0 then
        Some (LCD_OK, s\<lparr>clcdc := lcd\<lparr>lcdctrl := lcdctrl lcd AND NOT (push_bit 11 1) AND NOT 1\<rparr>\<rparr>)
      else Some (LCD_ERROR, s))"

definition lcd_ioctl :: "lcd_env \<Rightarrow> u32 \<Rightarrow> u32 \<Rightarrow> lcd_state \<Rightarrow> (u32 \<times> lcd_state) option" where
  "lcd_ioctl E cmd arg s =
     (if lcd_init (lcdcfg s) then
        (case enum_of lcd_cmd_enum cmd of
           None \<Rightarrow> Some (LCD_ERROR, s)
         | Some LCD_SET_SPIFUNC \<Rightarrow> Some (LCD_OK, s\<lparr>spifunc_ptr := arg\<rparr>)
         | Some LCD_PWR_ON \<Rightarrow> pwr_on E arg s
         | Some c \<Rightarrow> (let (st, lcd) = reg_cmd E c arg (clcdc s) in Some (st, s\<lparr>clcdc := lcd\<rparr>)))
      else Some (LCD_ERROR, s))"

end
