(* ===== verification/Lcd_Panel.thy ===== *)
theory Lcd_Panel
  imports Lcd
begin

text \<open>
  Properties of the LCD driver: the controller registers it computes from the panel parameters, the
  control commands, and the serial protocol of the panel. For the last, \<open>panel_step\<close> is the panel's
  side of the protocol: it follows the chip select, the register select and the bytes on the bus,
  and collects the register writes it understands.
\<close>

section \<open>The panel's side of the protocol\<close>

record panel =
  p_rs :: bool
  p_bytes :: "u8 list"
  p_index :: u8
  p_writes :: "(u8 \<times> u16) list"

definition panel_end :: "panel \<Rightarrow> panel" where
  "panel_end p = (case p_bytes p of
     [hi, lo] \<Rightarrow> (if p_rs p
                then p\<lparr>p_bytes := [], p_writes := p_writes p @ [(p_index p, push_bit 8 (ucast hi) OR ucast lo)]\<rparr>
                else p\<lparr>p_bytes := [], p_index := lo\<rparr>)
   | _ \<Rightarrow> p\<lparr>p_bytes := []\<rparr>)"

definition panel_step :: "u32 \<times> u32 \<Rightarrow> panel \<Rightarrow> panel" where
  "panel_step = (\<lambda>(a, v) p.
     if a = IOCLR0 then
       (let p = (if v AND 0x80000 \<noteq> 0 then p\<lparr>p_rs := False\<rparr> else p)
        in if v AND 0x10000 \<noteq> 0 then p\<lparr>p_bytes := []\<rparr> else p)
     else if a = IOSET0 then
       (let p = (if v AND 0x80000 \<noteq> 0 then p\<lparr>p_rs := True\<rparr> else p)
        in if v AND 0x10000 \<noteq> 0 then panel_end p else p)
     else if a = S0SPDR then p\<lparr>p_bytes := p_bytes p @ [ucast v]\<rparr>
     else p)"

definition panel_run :: "(u32 \<times> u32) list \<Rightarrow> panel \<Rightarrow> panel" where
  "panel_run l p = fold panel_step l p"

lemma panel_run_simps [simp]:
  "panel_run [] p = p" "panel_run (e # l) p = panel_run l (panel_step e p)"
  "panel_run (l @ l') p = panel_run l' (panel_run l p)"
  by (simp_all add: panel_run_def)

text \<open>What one call of \<open>writeToReg\<close> puts on the bus, and what the panel makes of it.\<close>

definition frame :: "u16 \<Rightarrow> u16 \<Rightarrow> (u32 \<times> u32) list" where
  "frame addr data = [(IOCLR0, 0x80000), (IOCLR0, 0x10000), (S0SPDR, 0), (S0SPDR, ucast (addr AND 0xff)),
     (IOSET0, 0x10000), (IOSET0, 0x80000), (IOCLR0, 0x10000), (S0SPDR, ucast (drop_bit 8 data)),
     (S0SPDR, ucast (data AND 0xff)), (IOSET0, 0x10000), (IOCLR0, 0x80000), (IOCLR0, 0x10000), (S0SPDR, 0),
     (S0SPDR, 0x22), (IOSET0, 0x10000)]"

lemma frame_index: "ucast (ucast (a AND 0xff) :: u32) = (ucast (a :: u16) :: u8)"
proof -
  have m: "a AND 0xff = take_bit 8 a" using take_bit_eq_mask [of 8 a] by (simp add: mask_eq_exp_minus_1)
  show ?thesis unfolding m by (rule bit_eqI) (auto simp: bit_simps)
qed

lemma frame_bytes:
  "push_bit 8 (ucast (ucast (ucast (drop_bit 8 d) :: u32) :: u8)) OR ucast (ucast d :: u8) = (d :: u16)"
  by (rule bit_eqI) (auto simp: bit_simps)

lemma panel_frame:
  "panel_run (frame addr data) p =
     p\<lparr>p_rs := False, p_bytes := [], p_index := 0x22, p_writes := p_writes p @ [(ucast addr, data)]\<rparr>"
  by (simp add: frame_def panel_step_def panel_end_def frame_bytes frame_index)

context spi_port
begin

lemma send_log: "wlog (sbus (send xfer d s)) = wlog (sbus s) @ [(S0SPDR, ucast d)]"
  by (simp add: send_def xfer_log)

lemma io_wr_log: "wlog (sbus (io_wr a v s)) = wlog (sbus s) @ [(a, v)]"
  by (simp add: io_wr_def mmio_simps)

lemma writeToReg_log: "wlog (sbus (writeToReg xfer addr data s)) = wlog (sbus s) @ frame addr data"
  by (simp add: writeToReg_def Let_def io_wr_log send_log frame_def)

lemma write_regs_log:
  "wlog (sbus (fst (write_regs xfer rs (s, n)))) = wlog (sbus s) @ concat (map (\<lambda>(a, d). frame a d) rs)"
proof (induction rs arbitrary: s)
  case (Cons r rs)
  then show ?case by (cases r) (simp add: write_regs_def writeToReg_log)
qed (simp add: write_regs_def)

end

lemma panel_frames:
  "p_writes (panel_run (concat (map (\<lambda>(a, d). frame a d) rs)) p) = p_writes p @ map (\<lambda>(a, d). (ucast a, d)) rs"
proof (induction rs arbitrary: p)
  case (Cons r rs)
  then show ?case by (cases r) (simp add: panel_frame)
qed simp

text \<open>A delay stores into the timer only, which the panel does not see.\<close>

definition timer_log :: "u16 \<Rightarrow> (u32 \<times> u32) list" where
  "timer_log d = [(0xE0008004, 0x02), (0xE000800C, 0x00), (0xE0008018, ucast d * word_of_int (28800000 div 1000)),
     (0xE0008000, 0xff), (0xE0008014, 0x04), (0xE0008004, 0x01)]"

lemma panel_timer: "panel_run (timer_log d) p = p"
  by (simp add: timer_log_def panel_step_def)

lemma mdelay_returns:
  assumes "ready (\<lambda>v. v AND 0x01 = 0) tcr"
  shows "\<exists>s' n'. mdelay tcr d (s, n) = Some (s', n') \<and> wlog (sbus s') = wlog (sbus s) @ timer_log d \<and>
    dr_reads s' = dr_reads s"
  using ready_poll [OF assms, of n] by (auto simp: mdelay_def Let_def mmio_simps timer_log_def)

context spi_port
begin

lemma block_then_delay:
  assumes "ready (\<lambda>v. v AND 0x01 = 0) tcr"
  shows "\<exists>s' n'. mdelay tcr d (write_regs xfer rs (s, n)) = Some (s', n') \<and>
    wlog (sbus s') = wlog (sbus s) @ concat (map (\<lambda>(a, d). frame a d) rs) @ timer_log d"
proof -
  obtain s1 n1 where w: "write_regs xfer rs (s, n) = (s1, n1)" by fastforce
  have "wlog (sbus s1) = wlog (sbus s) @ concat (map (\<lambda>(a, d). frame a d) rs)"
    using write_regs_log [of rs s n] w by simp
  then show ?thesis using mdelay_returns [OF assms, of d s1 n1] w by fastforce
qed

lemma display_init_log:
  assumes "ready (\<lambda>v. v AND 0x01 = 0) tcr"
  shows "\<exists>s' n' l. lcd_display_init xfer tcr (s, n) = Some (s', n') \<and> wlog (sbus s') = wlog (sbus s) @ l \<and>
    (\<forall>p. p_writes (panel_run l p) = p_writes p @ map (\<lambda>(a, d). (ucast a, d)) (concat display_regs))"
proof -
  note step = block_then_delay [OF assms]
  obtain s1 n1 where 1: "mdelay tcr 20 (write_regs xfer (display_regs ! 0) (s, n)) = Some (s1, n1)"
    "wlog (sbus s1) = wlog (sbus s) @ concat (map (\<lambda>(a, d). frame a d) (display_regs ! 0)) @ timer_log 20"
    using step [of 20 "display_regs ! 0" s n] by blast
  obtain s2 n2 where 2: "mdelay tcr 50 (write_regs xfer (display_regs ! 1) (s1, n1)) = Some (s2, n2)"
    "wlog (sbus s2) = wlog (sbus s1) @ concat (map (\<lambda>(a, d). frame a d) (display_regs ! 1)) @ timer_log 50"
    using step [of 50 "display_regs ! 1" s1 n1] by blast
  obtain s3 n3 where 3: "mdelay tcr 50 (write_regs xfer (display_regs ! 2) (s2, n2)) = Some (s3, n3)"
    "wlog (sbus s3) = wlog (sbus s2) @ concat (map (\<lambda>(a, d). frame a d) (display_regs ! 2)) @ timer_log 50"
    using step [of 50 "display_regs ! 2" s2 n2] by blast
  obtain s4 n4 where 4: "mdelay tcr 50 (write_regs xfer (display_regs ! 3) (s3, n3)) = Some (s4, n4)"
    "wlog (sbus s4) = wlog (sbus s3) @ concat (map (\<lambda>(a, d). frame a d) (display_regs ! 3)) @ timer_log 50"
    using step [of 50 "display_regs ! 3" s3 n3] by blast
  obtain s5 n5 where 5: "write_regs xfer (display_regs ! 4) (s4, n4) = (s5, n5)" by fastforce
  have 6: "wlog (sbus s5) = wlog (sbus s4) @ concat (map (\<lambda>(a, d). frame a d) (display_regs ! 4))"
    using write_regs_log [of "display_regs ! 4" s4 n4] 5 by simp
  have e: "lcd_display_init xfer tcr (s, n) = Some (s5, n5)"
    unfolding lcd_display_init_def 1(1) bind.bind_lunit 2(1) 3(1) 4(1) 5 ..
  have c: "concat display_regs = display_regs ! 0 @ display_regs ! 1 @ display_regs ! 2 @ display_regs ! 3 @ display_regs ! 4"
    by (simp add: display_regs_def)
  let ?l = "concat (map (\<lambda>(a, d). frame a d) (display_regs ! 0)) @ timer_log 20 @
     concat (map (\<lambda>(a, d). frame a d) (display_regs ! 1)) @ timer_log 50 @
     concat (map (\<lambda>(a, d). frame a d) (display_regs ! 2)) @ timer_log 50 @
     concat (map (\<lambda>(a, d). frame a d) (display_regs ! 3)) @ timer_log 50 @
     concat (map (\<lambda>(a, d). frame a d) (display_regs ! 4))"
  have "p_writes (panel_run ?l p) = p_writes p @ map (\<lambda>(a, d). (ucast a, d)) (concat display_regs)" for p
    by (simp only: panel_run_simps panel_timer panel_frames c map_append append_assoc)
  moreover have "wlog (sbus s5) = wlog (sbus s) @ ?l"
    by (simp only: 6 4(2) 3(2) 2(2) 1(2) append_assoc)
  ultimately show ?thesis using e by blast
qed

end

section \<open>Controller registers\<close>

text \<open>Four fields that do not overlap can be read back.\<close>

lemma field_le: "unat (take_bit k (v - 1)) = unat v - 1" if "1 \<le> unat v" "unat v \<le> 2 ^ k" for v :: u32
proof -
  have "unat (v - 1) = unat v - 1" using that(1) unat_sub [of 1 v] by (simp add: word_le_nat_alt)
  then show ?thesis using that by (simp add: unsigned_take_bit_eq take_bit_nat_eq_self_iff)
qed

lemma SBF_same: "p + w \<le> 32 \<Longrightarrow> take_bit w (drop_bit p (SBF p w v)) = take_bit w v"
  unfolding SBF_def by (rule bit_eqI) (auto simp: bit_simps)

lemma SBF_low: "p' + w' \<le> p \<Longrightarrow> drop_bit p (SBF p' w' v) = 0"
  unfolding SBF_def by (rule bit_eqI) (auto simp: bit_simps)

lemma SBF_high: "p + w \<le> p' \<Longrightarrow> take_bit w (drop_bit p (SBF p' w' v)) = 0"
  unfolding SBF_def by (rule bit_eqI) (auto simp: bit_simps)

lemmas SBF_simps = drop_bit_or take_bit_or SBF_same SBF_low SBF_high

lemma timing0_fields:
  "take_bit 6 (drop_bit 2 (timing0 c)) = take_bit 6 (ucast (pixels_per_line c) div 16 - 1)"
  "take_bit 8 (drop_bit 8 (timing0 c)) = take_bit 8 (ucast (h_sync_pulse_width c) - 1)"
  "take_bit 8 (drop_bit 16 (timing0 c)) = take_bit 8 (ucast (h_front_porch c) - 1)"
  "take_bit 8 (drop_bit 24 (timing0 c)) = take_bit 8 (ucast (h_back_porch c) - 1)"
  unfolding timing0_def by (simp_all add: SBF_simps)

lemma timing1_fields:
  "take_bit 10 (timing1 c) = take_bit 10 (ucast (lines_per_panel c) - 1)"
  "take_bit 6 (drop_bit 10 (timing1 c)) = take_bit 6 (ucast (v_sync_pulse_width c) - 1)"
  "take_bit 8 (drop_bit 16 (timing1 c)) = take_bit 8 (ucast (v_front_porch c))"
  "take_bit 8 (drop_bit 24 (timing1 c)) = take_bit 8 (ucast (v_back_porch c))"
  using SBF_same [of 0 10] SBF_high [of 0 10] unfolding timing1_def by (simp_all add: SBF_simps)

lemma timing2_or:
  "timing2 c = SBF 0 5 6 OR SBF 6 5 (if ac_bias_frequency c \<noteq> 0 then ucast (ac_bias_frequency c) - 1 else 0) OR
     SBF 11 1 (of_bool (invert_vsync c \<noteq> 0)) OR SBF 12 1 (of_bool (invert_hsync c \<noteq> 0)) OR
     SBF 13 1 (of_bool (invert_panel_clock c \<noteq> 0)) OR SBF 14 1 (of_bool (invert_output_enable c \<noteq> 0)) OR
     SBF 16 10 (clocks_per_line c)"
proof -
  have b: "push_bit n 1 = SBF n 1 (1 :: u32)" "SBF n w 0 = 0" for n w by (simp_all add: SBF_def)
  show ?thesis unfolding timing2_def Let_def b by (simp add: b ac_simps)
qed

lemma timing2_fields:
  "take_bit 5 (timing2 c) = 6"
  "take_bit 5 (drop_bit 6 (timing2 c)) = take_bit 5 (if ac_bias_frequency c \<noteq> 0 then ucast (ac_bias_frequency c) - 1 else 0)"
  "take_bit 10 (drop_bit 16 (timing2 c)) = take_bit 10 (clocks_per_line c)"
  using SBF_same [of 0 5] SBF_high [of 0 5] unfolding timing2_or by (simp_all add: SBF_simps del: One_nat_def)

lemma SBF_bit: "bit (SBF p w v) n \<longleftrightarrow> p \<le> n \<and> n < p + w \<and> n < 32 \<and> bit v (n - p)"
  unfolding SBF_def by (auto simp: bit_simps)

lemma timing2_flags:
  "bit (timing2 c) 11 \<longleftrightarrow> invert_vsync c \<noteq> 0" "bit (timing2 c) 12 \<longleftrightarrow> invert_hsync c \<noteq> 0"
  "bit (timing2 c) 13 \<longleftrightarrow> invert_panel_clock c \<noteq> 0" "bit (timing2 c) 14 \<longleftrightarrow> invert_output_enable c \<noteq> 0"
  unfolding timing2_or bit_or_iff SBF_bit by simp_all

lemma unat_ucast_up: "unat (ucast (b :: u8) :: u32) = unat b" "unat (ucast (h :: u16) :: u32) = unat h"
  by (simp_all add: unsigned_ucast_eq take_bit_nat_eq_self_iff less_le_trans [OF unsigned_less])

lemma unat_bias:
  "unat (take_bit 5 (if b \<noteq> 0 then ucast b - 1 else 0 :: u32)) = (if b = 0 then 0 else (unat (b :: u8) - 1) mod 32)"
proof (cases "b = 0")
  case False
  then have "1 \<le> unat (ucast b :: u32)" by (simp add: unat_ucast_up unat_gt_0 Suc_le_eq)
  then have "unat (ucast b - 1 :: u32) = unat b - 1" using unat_sub [of 1 "ucast b :: u32"] by (simp add: word_le_nat_alt unat_ucast_up)
  then show ?thesis using False by (simp add: take_bit_eq_mod unat_mod)
qed simp

text \<open>The clocks per line that each type of panel needs for \<open>p\<close> pixels.\<close>

definition panel_clocks :: "LCD_PANEL_T option \<Rightarrow> nat \<Rightarrow> nat" where
  "panel_clocks t p = (case t of
     Some MONO_4BIT \<Rightarrow> p div 4 | Some MONO_8BIT \<Rightarrow> p div 8 | Some CSTN \<Rightarrow> 3 * p div 8 | _ \<Rightarrow> p)"

lemma clocks_field:
  assumes "16 dvd unat (pixels_per_line c)" "0 < unat (pixels_per_line c)" "unat (pixels_per_line c) \<le> 1024"
  shows "unat (take_bit 10 (clocks_per_line c)) + 1 = panel_clocks (lcd_panel_type c) (unat (pixels_per_line c))"
proof -
  let ?p = "unat (pixels_per_line c)" and ?w = "ucast (pixels_per_line c) :: u32"
  have p: "16 \<le> ?p" using assms(1,2) by (simp add: dvd_imp_le)
  have f: "unat (take_bit 10 (v - 1)) + 1 = n" if "unat v = n" "1 \<le> n" "n \<le> 1024" for v :: u32 and n
    using field_le [of v 10] that by simp
  have w: "unat ?w = ?p" by (rule unat_ucast_up)
  have d: "unat (?w div 4) = ?p div 4" "unat (?w div 8) = ?p div 8" by (simp_all add: unat_div w)
  have "unat (?w * 3) = ?p * 3" by (subst unat_mult_lem [THEN iffD1]) (use assms(3) in \<open>simp_all add: w\<close>)
  then have e: "unat (?w * 3 div 8) = 3 * ?p div 8" by (simp add: unat_div mult.commute)
  have "?p div 4 \<le> 1024" "1 \<le> ?p div 4" "?p div 8 \<le> 1024" "1 \<le> ?p div 8" "3 * ?p div 8 \<le> 1024" "1 \<le> 3 * ?p div 8" "1 \<le> ?p"
    using p assms(3) by linarith+
  note f [OF d(1) this(2,1)] f [OF d(2) this(4,3)] f [OF e this(6,5)] f [OF w this(7) assms(3)]
  then show ?thesis
    by (simp add: clocks_per_line_def panel_clocks_def Let_def split: option.split LCD_PANEL_T.split)
qed


section \<open>Control commands\<close>

lemma field_replace: "b AND m = b \<Longrightarrow> (c AND NOT m OR b) AND m = (b :: u32)"
  by (auto simp: bit_eq_iff bit_simps)

lemma map_of_bpp:
  "map_of bpp_fields arg = Some bits \<Longrightarrow> bits AND push_bit 1 (mask 3) = bits \<and> find (\<lambda>(_, b). b = bits) bpp_fields = Some (arg, bits)"
  by (auto simp: bpp_fields_def mask_eq_exp_minus_1 split: if_splits)

lemma get_set_bpp: "map_of bpp_fields arg = Some bits \<Longrightarrow> get_bpp (snd (set_bpp arg ctrl)) = arg"
  using map_of_bpp [of arg bits] by (simp add: set_bpp_def get_bpp_def field_replace)

text \<open>
  The colour depth of an open display is what was set last: for each of the eight enumerators the
  set command succeeds and the get command returns it, leaving the other bits of the control
  register alone; any other number is refused and changes nothing.
\<close>
theorem lcd_bpp_roundtrip:
  assumes "lcd_init (lcdcfg s)"
  shows "if arg \<in> {1, 2, 3, 4, 5, 6, 7, 8}
    then \<exists>s'. lcd_ioctl E 11 arg s = Some (0, s') \<and> lcd_ioctl E 19 1 s' = Some (arg, s') \<and>
      lcdctrl (clcdc s') AND NOT 0x0E = lcdctrl (clcdc s) AND NOT 0x0E
    else lcd_ioctl E 11 arg s = Some (- 1, s)"
proof -
  have c11: "enum_of lcd_cmd_enum 11 = Some LCD_SET_BPP" and c19: "enum_of lcd_cmd_enum 19 = Some LCD_GET_STATUS"
    and s1: "enum_of lcd_sts_enum 1 = Some LCD_GET_BPP"
    by (simp_all add: enum_of_def lcd_cmd_enum_def lcd_sts_enum_def)
  obtain st v where sb: "set_bpp arg (lcdctrl (clcdc s)) = (st, v)" by fastforce
  have i: "lcd_ioctl E 11 arg s = Some (st, s\<lparr>clcdc := (clcdc s)\<lparr>lcdctrl := v\<rparr>\<rparr>)"
    using assms by (simp add: lcd_ioctl_def c11 reg_cmd_def sb)
  show ?thesis
  proof (cases "map_of bpp_fields arg")
    case None
    then have "arg \<notin> {1, 2, 3, 4, 5, 6, 7, 8}" by (auto simp: bpp_fields_def split: if_splits)
    then show ?thesis using i sb None by (simp add: set_bpp_def)
  next
    case (Some bits)
    then have a: "arg \<in> {1, 2, 3, 4, 5, 6, 7, 8}" by (auto simp: bpp_fields_def split: if_splits)
    have g: "get_bpp v = arg" using get_set_bpp [OF Some, of "lcdctrl (clcdc s)"] sb by simp
    have "v = lcdctrl (clcdc s) AND NOT (push_bit 1 (mask 3)) OR bits" "st = 0"
      using sb Some by (simp_all add: set_bpp_def)
    moreover have "(push_bit 1 (mask 3) :: u32) = 0x0E" by (simp add: mask_eq_exp_minus_1)
    moreover have "bits AND NOT 0x0E = 0"
      using Some by (auto simp: bpp_fields_def split: if_splits)
    ultimately have "v AND NOT 0x0E = lcdctrl (clcdc s) AND NOT 0x0E" "st = 0"
      by (simp_all add: bit.conj_disj_distrib2)
    moreover have "lcd_ioctl E 19 1 (s\<lparr>clcdc := (clcdc s)\<lparr>lcdctrl := v\<rparr>\<rparr>) =
        Some (arg, s\<lparr>clcdc := (clcdc s)\<lparr>lcdctrl := v\<rparr>\<rparr>)"
      using assms g by (simp add: lcd_ioctl_def c19 reg_cmd_def lcd_status_def s1)
    ultimately show ?thesis using a i by auto
  qed
qed

text \<open>The fields of a palette word.\<close>

lemma pal_word_fields:
  "ucast (pal_word e) = Rl e" "ucast (drop_bit 5 (pal_word e)) = Gl e" "ucast (drop_bit 10 (pal_word e)) = Bl e"
  "ucast (drop_bit 16 (pal_word e)) = Ru e" "ucast (drop_bit 21 (pal_word e)) = Gu e"
  "ucast (drop_bit 26 (pal_word e)) = Bu e"
  unfolding pal_word_def
  subgoal by (rule bit_eqI) (auto simp: bit_simps dest: bit_imp_le_length)
  subgoal by (rule bit_eqI) (auto simp: bit_simps dest: bit_imp_le_length)
  subgoal by (rule bit_eqI) (auto simp: bit_simps dest: bit_imp_le_length)
  subgoal by (rule bit_eqI) (auto simp: bit_simps dest: bit_imp_le_length)
  subgoal by (rule bit_eqI) (auto simp: bit_simps dest: bit_imp_le_length)
  subgoal by (rule bit_eqI) (auto simp: bit_simps dest: bit_imp_le_length)
  done

lemma load_palette_nth:
  "i < k \<Longrightarrow> load_palette ram k p e ! i = pal_word (pal_fill ram (p + 8 * of_nat i) e)"
proof (induction k arbitrary: i p e)
  case (Suc k)
  have f: "pal_fill ram q (pal_fill ram p e) = pal_fill ram q e" for q by (simp add: pal_fill_def)
  show ?case
    using Suc by (cases i) (simp_all add: Let_def f algebra_simps)
qed simp

lemma load_palette_length: "length (load_palette ram k p e) = k"
  by (induction k arbitrary: p e) (simp_all add: Let_def)

text \<open>
  Loading a palette stores all 256 colours: word i of the palette holds the entries 2i and 2i+1 of
  the table at the argument's address, each as the five high bits of its red, green and blue bytes,
  which lie in the order blue, green, red, unused.
\<close>
theorem lcd_palette_loaded:
  assumes "lcd_init (lcdcfg s)" "i < 128"
  shows "\<exists>s'. lcd_ioctl E 8 arg s = Some (0, s') \<and> length (lcdpalette (clcdc s')) = 128 \<and>
    (let w = lcdpalette (clcdc s') ! i; colour = \<lambda>k. ucast (drop_bit 3 (e_ram E (arg + 8 * of_nat i + k))) in
     ucast w = (colour 2 :: 5 word) \<and> ucast (drop_bit 5 w) = (colour 1 :: 5 word) \<and>
     ucast (drop_bit 10 w) = (colour 0 :: 5 word) \<and> ucast (drop_bit 16 w) = (colour 6 :: 5 word) \<and>
     ucast (drop_bit 21 w) = (colour 5 :: 5 word) \<and> ucast (drop_bit 26 w) = (colour 4 :: 5 word))"
proof -
  have "enum_of lcd_cmd_enum 8 = Some LCD_LOAD_PALETTE" by (simp add: enum_of_def lcd_cmd_enum_def)
  then have "lcd_ioctl E 8 arg s = Some (0, s\<lparr>clcdc := (clcdc s)\<lparr>lcdpalette := load_palette (e_ram E) 128 arg (e_pal E)\<rparr>\<rparr>)"
    using assms(1) by (simp add: lcd_ioctl_def reg_cmd_def)
  then show ?thesis
    using assms(2) by (simp add: load_palette_length load_palette_nth pal_word_fields pal_fill_def Let_def)
qed

section \<open>Power on\<close>

text \<open>
  C10 Powering an open display on with the port's transfer function installed returns, enables the
  controller and its power, and the panel receives exactly the initialisation sequence: it decodes the
  38 register writes of lcd_display_init, in order, with no other write among them.
\<close>
theorem lcd_power_on:
  assumes "lcd_init (lcdcfg s)" "spifunc_ptr s \<noteq> 0" "e_fns E (spifunc_ptr s) = SpiXfer sts rxs"
    "ready (\<lambda>v. v AND 0x01 = 0) (e_tcr E)"
  shows "\<exists>s' l. lcd_ioctl E 2 1 s = Some (0, s') \<and> wlog (sbus (lio s')) = wlog (sbus (lio s)) @ l \<and>
    p_writes (panel_run l p) = p_writes p @ map (\<lambda>(a, d). (ucast a, d)) (concat display_regs) \<and>
    bit (lcdctrl (clcdc s')) 0 \<and> bit (lcdctrl (clcdc s')) 11 \<and> lcdcfg s' = lcdcfg s"
proof -
  have c: "enum_of lcd_cmd_enum 2 = Some LCD_PWR_ON" by (simp add: enum_of_def lcd_cmd_enum_def)
  obtain io n l where "lcd_display_init (SpiXfer sts rxs) (e_tcr E) (lio s, tcr_reads s) = Some (io, n)"
    "wlog (sbus io) = wlog (sbus (lio s)) @ l"
    "p_writes (panel_run l p) = p_writes p @ map (\<lambda>(a, d). (ucast a, d)) (concat display_regs)"
    using sp.display_init_log [OF assms(4), of sts rxs "lio s" "tcr_reads s"] by blast
  then show ?thesis
    using assms(1-3) by (auto simp: lcd_ioctl_def c pwr_on_def Let_def bit_or_iff)
qed

section \<open>Open and close\<close>

text \<open>
  The display is opened once: from a closed device, lcd_open at the controller's address with panel
  parameters succeeds, leaves the controller disabled with the panel's timing and the chip select and
  register select lines high; a second lcd_open, or one at another address, returns the null handle
  and changes nothing. After lcd_close every command is answered with an error.
\<close>
theorem lcd_open_close:
  assumes "\<not> lcd_init (lcdcfg s)" "arg \<noteq> 0" "lcdbase \<noteq> 0xFFE10000"
  shows "\<exists>s'. lcd_open E 0xFFE10000 arg s = (True, s') \<and> lcd_init (lcdcfg s') \<and>
    lcdtiming0 (clcdc s') = timing0 (e_prms E arg) \<and> lcdctrl (clcdc s') = panel_ctrl (e_prms E arg) \<and>
    rd IOSET0 (sbus (lio s')) = 0x90000 \<and> lcd_open E b arg' s' = (False, s') \<and> lcd_open E lcdbase arg s = (False, s) \<and>
    (\<exists>s''. lcd_close s' = (0, s'') \<and> lcd_ioctl E cmd a s'' = Some (- 1, s'') \<and> lcd_close s'' = (- 1, s''))"
  using assms
  by (simp add: lcd_open_def lcd_initialize_def lcd_configure_gpio_def lcd_close_def lcd_ioctl_def Let_def mmio_simps)

text \<open>
  C40 spiSend always returns: it stores the byte, reads the status register at most 5001 times, and then
  resets the port's clock and control registers exactly when none of the first 5000 of these reads shows
  the end of the transfer (so also when only the last one does); it stores nothing else.
\<close>
theorem spiSend_bounded:
  "sts_reads (spiSend sts d s) \<le> sts_reads s + 5001 \<and>
   wlog (sbus (spiSend sts d s)) = wlog (sbus s) @ (S0SPDR, ucast d) #
     (if \<forall>k < 5000. sts (sts_reads s + k) AND 0x80 = 0 then [(S0SPCCR, 8), (S0SPCR, 0x38)] else [])"
proof -
  have w: "f \<le> 5000 \<Longrightarrow> fst (send_wait sts n f) \<le> n + 5001 - f \<and> snd (send_wait sts n f) \<le> 5000 \<and>
      (snd (send_wait sts n f) \<ge> 5000) = (\<forall>k < 5000 - f. sts (n + k) AND 0x80 = 0)" for n f
  proof (induction "5000 - f" arbitrary: n f)
    case 0
    then show ?case by (simp add: send_wait.simps)
  next
    case (Suc j)
    show ?case
    proof (cases "sts n AND 0x80 = 0")
      case True
      have j: "j = 5000 - (f + 1)" "f + 1 \<le> 5000" using Suc.hyps(2) by linarith+
      have e: "send_wait sts n f = send_wait sts (Suc n) (f + 1)"
        using True j(2) by (subst send_wait.simps) simp
      have "(\<forall>k < 5000 - f. sts (n + k) AND 0x80 = 0) = (\<forall>k < 5000 - (f + 1). sts (Suc n + k) AND 0x80 = 0)"
        using True j less_Suc_eq_0_disj by (auto simp: Suc.hyps(2) [symmetric] j(1) [symmetric])
      then show ?thesis using Suc.hyps(1) [OF j, of "Suc n"] e j(2) by auto
    next
      case False
      then have "send_wait sts n f = (Suc n, f)" by (subst send_wait.simps) simp
      moreover have "\<not> (\<forall>k < 5000 - f. sts (n + k) AND 0x80 = 0)"
        using False Suc.hyps(2) by (metis add.right_neutral zero_less_Suc)
      ultimately show ?thesis using Suc.hyps(2) by auto
    qed
  qed
  have "io_wr a v (s\<lparr>sts_reads := n\<rparr>) = (io_wr a v s)\<lparr>sts_reads := n\<rparr>" for a v n and s :: spi_io
    by (simp add: io_wr_def)
  then show ?thesis
    using w [of 0 "sts_reads s"]
    by (auto simp: spiSend_def Let_def case_prod_beta io_wr_def mmio_simps)
qed

section \<open>Witnesses\<close>

definition lcd_regs0 :: CLCDC_REGS_T where
  "lcd_regs0 = \<lparr>lcdtiming0 = 0, lcdtiming1 = 0, lcdtiming2 = 0, lcdtiming3 = 0, lcdupbase = 0, lcdlpbase = 0,
     lcdctrl = 0, lcdimsc = 0, lcdris = 0, lcdmis = 0, lcdicr = 0, lcdupcurr = 0, lcdlpcurr = 0,
     lcdpalette = replicate 128 0, cursorimage = replicate 256 0, clcdcrsrctrl = 0, clcdcrsrconfig = 0,
     clcdcrsrpalette0 = 0, clcdcrsrpalette1 = 0, clcdcrsrxy = 0, clcdcrsrclip = 0, lcdcrsrimsc = 0,
     lcdcrsrris = 0, lcdcrsrmis = 0, lcdcrsricr = 0\<rparr>"

definition lcd_closed :: lcd_state where
  "lcd_closed = \<lparr>lcdcfg = \<lparr>lcd_init = False, lcd_regptr = 0, lcd_dptr = 0\<rparr>, spifunc_ptr = 0, clcdc = lcd_regs0,
     lio = spi0, tcr_reads = 0\<rparr>"

definition lcd_opened :: lcd_state where
  "lcd_opened = lcd_closed\<lparr>lcdcfg := \<lparr>lcd_init = True, lcd_regptr = 0xFFE10000, lcd_dptr = 0\<rparr>, spifunc_ptr := 0x4000\<rparr>"

definition lcd_env0 :: lcd_env where
  "lcd_env0 = \<lparr>e_fns = (\<lambda>_. SpiXfer (\<lambda>_. 0x80) (\<lambda>_. 0)), e_prms = (\<lambda>_. truly_tft_g240320ltsw_118w_e_portrait),
     e_ram = (\<lambda>a. ucast a), e_tcr = (\<lambda>_. 0),
     e_pal = \<lparr>Rl = 0, Gl = 0, Bl = 0, Il = 0, Ru = 0, Gu = 0, Bu = 0, Iu = 0\<rparr>\<rparr>"


lemma lcd_opened_init: "lcd_init (lcdcfg lcd_opened)" "spifunc_ptr lcd_opened \<noteq> 0"
  by (simp_all add: lcd_opened_def)

theorem lcd_bpp_roundtrip_witness:
  "(\<exists>s'. lcd_ioctl lcd_env0 11 7 lcd_opened = Some (0, s') \<and> lcd_ioctl lcd_env0 19 1 s' = Some (7, s')) \<and>
   lcd_ioctl lcd_env0 11 9 lcd_opened = Some (- 1, lcd_opened)"
  using lcd_bpp_roundtrip [OF lcd_opened_init(1), of 7 lcd_env0] lcd_bpp_roundtrip [OF lcd_opened_init(1), of 9 lcd_env0]
  by auto

theorem lcd_palette_loaded_witness:
  "\<exists>s'. lcd_ioctl lcd_env0 8 0xA0000000 lcd_opened = Some (0, s') \<and> length (lcdpalette (clcdc s')) = 128"
  using lcd_palette_loaded [OF lcd_opened_init(1), of 127 lcd_env0 "0xA0000000"] by auto

theorem lcd_power_on_witness:
  "\<exists>s' l. lcd_ioctl lcd_env0 2 1 lcd_opened = Some (0, s') \<and> wlog (sbus (lio s')) = wlog (sbus (lio lcd_opened)) @ l \<and>
    length (p_writes (panel_run l \<lparr>p_rs = False, p_bytes = [], p_index = 0, p_writes = []\<rparr>)) = 38"
proof -
  have f: "e_fns lcd_env0 (spifunc_ptr lcd_opened) = SpiXfer (\<lambda>_. 0x80) (\<lambda>_. 0)" by (simp add: lcd_env0_def)
  have r: "ready (\<lambda>v. v AND 0x01 = 0) (e_tcr lcd_env0)" unfolding lcd_env0_def by (simp add: ready_const)
  have "length (concat display_regs) = 38" by (simp add: display_regs_def)
  with lcd_power_on [OF lcd_opened_init f r, of "\<lparr>p_rs = False, p_bytes = [], p_index = 0, p_writes = []\<rparr>"]
  show ?thesis by fastforce
qed

theorem lcd_open_close_witness:
  "\<exists>s'. lcd_open lcd_env0 0xFFE10000 0x8000 lcd_closed = (True, s') \<and> lcd_init (lcdcfg s') \<and>
    lcd_open lcd_env0 0xFFE10000 0 s' = (False, s')"
proof -
  have c: "\<not> lcd_init (lcdcfg lcd_closed)" by (simp add: lcd_closed_def)
  show ?thesis using lcd_open_close [OF c, of "0x8000" 0 lcd_env0 "0xFFE10000" 0 0 0] by auto
qed

theorem spiSend_bounded_witness:
  "wlog (sbus (spiSend (\<lambda>_. 0) 0x42 spi0)) = wlog (sbus spi0) @ [(S0SPDR, 0x42), (S0SPCCR, 8), (S0SPCR, 0x38)]"
  using spiSend_bounded [of "\<lambda>_. 0" "0x42" spi0] by simp

end
