(* ===== verification/Swim_Font.thy ===== *)
theory Swim_Font
  imports Swim
begin

text \<open>
  Text output \<^verbatim>\<open>drivers/swim/lpc_swim_font.c\<close>. A C string is the list of its characters without the
  terminating zero; a font's tables are indexed from their pointers. Window coordinates and font
  heights are far below the range of 32 bits, so only the caller's coordinates of \<open>swim_set_xy\<close>
  carry the wrap-around.
\<close>

section \<open>Scrolling and lines\<close>

definition swim_get_font_height :: "SWIM_WINDOW_T \<Rightarrow> int" where
  "swim_get_font_height win = font_height (font win)"

text \<open>Copy line \<open>y2\<close> of the draw area to line \<open>y1\<close>, and clear a line.\<close>

definition scroll_line :: "SWIM_WINDOW_T \<Rightarrow> int \<Rightarrow> int \<Rightarrow> fbuf \<Rightarrow> fbuf" where
  "scroll_line win y1 y2 f =
     fold (\<lambda>x f. pset (offs win x y1) (pix f (offs win x y2)) f) [xpvmin win .. xpvmax win] f"

definition clear_line :: "SWIM_WINDOW_T \<Rightarrow> int \<Rightarrow> fbuf \<Rightarrow> fbuf" where
  "clear_line win y f = fold (\<lambda>x. pset (offs win x y) (bkg win)) [xpvmin win .. xpvmax win] f"

definition swim_window_scroll :: "SWIM_WINDOW_T \<Rightarrow> int \<Rightarrow> fbuf \<Rightarrow> fbuf" where
  "swim_window_scroll win lines f =
     (let f = fold (\<lambda>yref2. scroll_line win (yref2 - lines) yref2) [ypvmin win + lines .. ypvmax win] f
      in fold (clear_line win) [yvpos win .. ypvmax win] f)"

function newline_loop :: "SWIM_WINDOW_T \<Rightarrow> fbuf \<Rightarrow> SWIM_WINDOW_T \<times> fbuf" where
  "newline_loop win f =
     (if yvpos win + font_height (font win) > ypvmax win then
        let diff = font_height (font win) - (ypvmax win - yvpos win);
            win = win\<lparr>yvpos := yvpos win - diff\<rparr>;
            f = swim_window_scroll win diff f
        in newline_loop win f
      else (win, f))"
  by pat_completeness auto
termination
  by (relation "measure (\<lambda>(win, f). if yvpos win + font_height (font win) > ypvmax win then 1 else 0)") auto

declare newline_loop.simps [simp del]

definition swim_put_newline :: "SWIM_WINDOW_T \<Rightarrow> fbuf \<Rightarrow> SWIM_WINDOW_T \<times> fbuf" where
  "swim_put_newline win f =
     newline_loop (win\<lparr>xvpos := xpvmin win, yvpos := yvpos win + font_height (font win)\<rparr>) f"

definition swim_set_font :: "SWIM_WINDOW_T \<Rightarrow> FONT_T \<Rightarrow> fbuf \<Rightarrow> SWIM_WINDOW_T \<times> fbuf" where
  "swim_set_font win fnt f =
     (let win = win\<lparr>font := fnt\<rparr> in
      if yvpos win + font_height (font win) > ypvmax win then
        let diff = font_height (font win) - (ypvmax win - yvpos win);
            win = win\<lparr>yvpos := yvpos win - diff\<rparr>
        in (win, swim_window_scroll win diff f)
      else (win, f))"

definition swim_set_font_trasparency :: "SWIM_WINDOW_T \<Rightarrow> int \<Rightarrow> SWIM_WINDOW_T" where
  "swim_set_font_trasparency win flag = win\<lparr>tfont := flag\<rparr>"

section \<open>Characters\<close>

definition char_width :: "SWIM_WINDOW_T \<Rightarrow> u8 \<Rightarrow> int" where
  "char_width win c = uint (font_width_table (font win) (uint c - uint (first_char (font win))))"

text \<open>One line of a glyph: \<open>n\<close> pixels from offset \<open>a\<close>, most significant bit first.\<close>

fun glyph_row :: "SWIM_WINDOW_T \<Rightarrow> nat \<Rightarrow> int \<Rightarrow> u16 \<Rightarrow> fbuf \<Rightarrow> fbuf" where
  "glyph_row win 0 a chardata f = f"
| "glyph_row win (Suc n) a chardata f =
     glyph_row win n (a + 1) (push_bit 1 chardata)
       (if chardata AND 0x8000 \<noteq> 0 then pset a (pen win) f
        else if tfont win \<noteq> 0 then pset a (bkg win) f
        else f)"

definition put_glyph :: "SWIM_WINDOW_T \<Rightarrow> u8 \<Rightarrow> fbuf \<Rightarrow> fbuf" where
  "put_glyph win c f =
     (let charindex = uint c - uint (first_char (font win));
          charfields = charindex * font_height (font win)
      in fold (\<lambda>i. glyph_row win (nat (char_width win c)) (offs win (xvpos win) (yvpos win + i))
           (font_table (font win) (charfields + i))) [0 .. font_height (font win) - 1] f)"

definition swim_put_char :: "SWIM_WINDOW_T \<Rightarrow> u8 \<Rightarrow> fbuf \<Rightarrow> SWIM_WINDOW_T \<times> fbuf" where
  "swim_put_char win textchar f =
     (if textchar = 10 then swim_put_newline win f
      else
        let (win, f) = (if xvpos win + char_width win textchar > xpvmax win
                        then swim_put_newline win f else (win, f));
            f = put_glyph win textchar f
        in (win\<lparr>xvpos := xvpos win + char_width win textchar\<rparr>, f))"

section \<open>Text\<close>

fun swim_put_text :: "SWIM_WINDOW_T \<Rightarrow> u8 list \<Rightarrow> fbuf \<Rightarrow> SWIM_WINDOW_T \<times> fbuf" where
  "swim_put_text win [] f = (win, f)"
| "swim_put_text win (c # text) f =
     (let (win, f) =
        (if c = 10 then swim_put_newline win f
         else if c \<ge> first_char (font win) \<and> c \<le> last_char (font win) then swim_put_char win c f
         else (win, f))
      in swim_put_text win text f)"

definition in_word :: "u8 \<Rightarrow> bool" where
  "in_word c \<longleftrightarrow> c > 0x20 \<and> c \<le> 0x7E"

definition swim_get_word_len :: "SWIM_WINDOW_T \<Rightarrow> u8 list \<Rightarrow> int" where
  "swim_get_word_len win text =
     fold (\<lambda>c wlen. s16 (wlen + char_width win c)) (takeWhile in_word text) 0"

fun put_chars :: "SWIM_WINDOW_T \<Rightarrow> u8 list \<Rightarrow> fbuf \<Rightarrow> SWIM_WINDOW_T \<times> fbuf" where
  "put_chars win [] f = (win, f)"
| "put_chars win (c # cs) f = (let (win, f) = swim_put_char win c f in put_chars win cs f)"

definition swim_put_word :: "SWIM_WINDOW_T \<Rightarrow> u8 list \<Rightarrow> fbuf \<Rightarrow> nat \<times> SWIM_WINDOW_T \<times> fbuf" where
  "swim_put_word win text f =
     (let (win, f) = (if swim_get_word_len win text + xvpos win > xpvmax win
                      then swim_put_newline win f else (win, f));
          w = takeWhile in_word text;
          (win, f) = put_chars win w f
      in (length w, win, f))"

lemma put_word_count: "fst (swim_put_word win t f) = length (takeWhile in_word t)"
  by (simp add: swim_put_word_def Let_def case_prod_beta)

function swim_put_ltext :: "SWIM_WINDOW_T \<Rightarrow> u8 list \<Rightarrow> fbuf \<Rightarrow> SWIM_WINDOW_T \<times> fbuf" where
  "swim_put_ltext win [] f = (win, f)"
| "swim_put_ltext win (c # text) f =
     (if c = 10 then
        let (win, f) = swim_put_newline win f in swim_put_ltext win text f
      else if c \<ge> first_char (font win) \<and> c \<le> last_char (font win) then
        if in_word c then
          let (n, win, f) = swim_put_word win (c # text) f
          in swim_put_ltext win (drop n (c # text)) f
        else
          let (win, f) = swim_put_char win c f in swim_put_ltext win text f
      else
        let (win, f) = swim_put_char win 0x20 f in swim_put_ltext win text f)"
  by pat_completeness auto
termination
proof (relation "measure (\<lambda>(win, text, f). length text)", goal_cases)
  case (3 win c cs f x n y win' f')
  then have "n = length (takeWhile in_word (c # cs))"
    using put_word_count [of win "c # cs" f] by (metis fst_conv)
  with 3 show ?case by auto
qed auto

definition swim_set_xy :: "SWIM_WINDOW_T \<Rightarrow> int \<Rightarrow> int \<Rightarrow> SWIM_WINDOW_T" where
  "swim_set_xy win x y =
     (let win = win\<lparr>xvpos := s32 (x + xpvmin win), yvpos := s32 (y + ypvmin win)\<rparr>;
          win = (if xvpos win < xpvmin win then win\<lparr>xvpos := xpvmin win\<rparr>
                 else if xvpos win > xpvmax win then win\<lparr>xvpos := xpvmax win\<rparr> else win)
      in if yvpos win < ypvmin win then win\<lparr>yvpos := ypvmin win\<rparr>
         else if yvpos win > ypvmax win then win\<lparr>yvpos := ypvmax win\<rparr> else win)"

definition swim_get_xy :: "SWIM_WINDOW_T \<Rightarrow> int \<times> int" where
  "swim_get_xy win = (xvpos win - xpvmin win, yvpos win - ypvmin win)"

definition swim_put_text_xy :: "SWIM_WINDOW_T \<Rightarrow> u8 list \<Rightarrow> int \<Rightarrow> int \<Rightarrow> fbuf \<Rightarrow> SWIM_WINDOW_T \<times> fbuf" where
  "swim_put_text_xy win text x y f = swim_put_text (swim_set_xy win x y) text f"

text \<open>The title is \<open>None\<close> for a null pointer; the result is \<open>None\<close> when the box or line divides by zero.\<close>

definition swim_set_title :: "SWIM_WINDOW_T \<Rightarrow> u8 list option \<Rightarrow> u16 \<Rightarrow> fbuf \<Rightarrow> (SWIM_WINDOW_T \<times> fbuf) option" where
  "swim_set_title win title ttlbkcolor f =
     (case title of
        None \<Rightarrow> Some (win, f)
      | Some text \<Rightarrow>
        if swim_get_font_height win < 4 + yvsize win then
          let savedf = fill win; savedp = pen win; savedb = bkg win; savedt = tfont win;
              win = win\<lparr>fill := ttlbkcolor, bkg := ttlbkcolor\<rparr>;
              win = win\<lparr>pen := bkg win\<rparr>
          in Option.bind (swim_put_box win 0 0 (xvsize win) (4 + swim_get_font_height win - 2) f) (\<lambda>f.
          let win = win\<lparr>xvpos := xpvmin win + 2, yvpos := ypvmin win + 1, pen := savedp,
                fill := savedf, bkg := savedb, tfont := 0\<rparr>;
              (win, f) = swim_put_text win text f;
              win = win\<lparr>tfont := savedt\<rparr>
          in Option.bind (swim_put_line win 0 (4 + swim_get_font_height win - 1) (xpvmax win)
               (4 + swim_get_font_height win - 1) f) (\<lambda>f.
             let h = swim_get_font_height win;
                 win = win\<lparr>ypmin := ypmin win + h + 4, ypvmin := ypvmin win + h + 4,
                   yvsize := yvsize win - h + 4\<rparr>
             in Some (win\<lparr>xvpos := xpvmin win, yvpos := ypvmin win\<rparr>, f)))
        else Some (win, f))"

section \<open>Scrolling\<close>

lemma pix_pset [simp]: "pix (pset a c f) b = (if b = a then c else pix f b)"
  by (simp add: pset_def)

lemma scroll_line_pix:
  assumes "win_ok win" "0 \<le> y1" "y1 < ypsize win" "0 \<le> y2" "y2 < ypsize win" "y1 \<noteq> y2"
    and "0 \<le> x" "x < xpsize win" "set xs \<subseteq> {0 ..< xpsize win}"
  shows "pix (fold (\<lambda>x f. pset (offs win x y1) (pix f (offs win x y2)) f) xs f) (x + y * xpsize win) =
    (if x \<in> set xs \<and> y = y1 then pix f (x + y2 * xpsize win) else pix f (x + y * xpsize win))"
  using assms(9)
proof (induction xs arbitrary: f)
  case (Cons a xs)
  have "(x + k * xpsize win = a + y1 * xpsize win) = (x = a \<and> k = y1)" for k
    using Cons.prems assms by (intro coord_inj) auto
  with Cons assms show ?case by (auto simp: offs_eq)
qed simp

lemma scroll_line_exact:
  assumes "win_ok win" "0 \<le> y1" "y1 < ypsize win" "0 \<le> y2" "y2 < ypsize win" "y1 \<noteq> y2" "0 \<le> x" "x < xpsize win"
  shows "pix (scroll_line win y1 y2 f) (x + y * xpsize win) =
    (if xpvmin win \<le> x \<and> x \<le> xpvmax win \<and> y = y1 then pix f (x + y2 * xpsize win) else pix f (x + y * xpsize win))"
proof -
  have "set [xpvmin win .. xpvmax win] \<subseteq> {0 ..< xpsize win}" using assms(1) by (auto simp: win_ok_def)
  from scroll_line_pix [OF assms this] show ?thesis by (simp add: scroll_line_def)
qed

lemma scroll_lines_exact:
  assumes "win_ok win" "1 \<le> n" "0 \<le> x" "x < xpsize win" "b < ypsize win"
  shows "n \<le> a \<Longrightarrow> pix (fold (\<lambda>y2. scroll_line win (y2 - n) y2) [a .. b] f) (x + y * xpsize win) =
    (if xpvmin win \<le> x \<and> x \<le> xpvmax win \<and> a \<le> y + n \<and> y + n \<le> b
     then pix f (x + (y + n) * xpsize win) else pix f (x + y * xpsize win))"
proof (induction "nat (b + 1 - a)" arbitrary: a f)
  case 0
  then show ?case by auto
next
  case (Suc k)
  then have le: "a \<le> b" by linarith
  let ?f = "scroll_line win (a - n) a f"
  have line: "pix ?f (x + z * xpsize win) =
      (if xpvmin win \<le> x \<and> x \<le> xpvmax win \<and> z = a - n then pix f (x + a * xpsize win) else pix f (x + z * xpsize win))" for z
    using assms le Suc.prems by (intro scroll_line_exact) auto
  have "fold (\<lambda>y2. scroll_line win (y2 - n) y2) [a .. b] f = fold (\<lambda>y2. scroll_line win (y2 - n) y2) [a + 1 .. b] ?f"
    using le by (subst upto.simps) simp
  moreover have "pix (fold (\<lambda>y2. scroll_line win (y2 - n) y2) [a + 1 .. b] ?f) (x + y * xpsize win) =
    (if xpvmin win \<le> x \<and> x \<le> xpvmax win \<and> a + 1 \<le> y + n \<and> y + n \<le> b
     then pix ?f (x + (y + n) * xpsize win) else pix ?f (x + y * xpsize win))"
    by (rule Suc.hyps(1)) (use Suc.hyps(2) Suc.prems in simp_all)
  moreover have "a + 1 \<le> y + n \<or> y = a - n \<or> y + n < a" by linarith
  ultimately show ?case using assms(2) le by (auto simp: line)
qed

lemma clear_lines_paint:
  assumes "win_ok win" "0 \<le> yvpos win"
  shows "paints (rect win (xpvmin win) (yvpos win) (xpvmax win) (ypvmax win)) (bkg win) f
    (fold (clear_line win) [yvpos win .. ypvmax win] f)"
  using paints_rect_cols [OF assms(1), of "yvpos win" "ypvmax win" "xpvmin win" "xpvmax win" "bkg win" f] assms
  unfolding clear_line_def by (simp add: win_ok_def)

text \<open>
  C27 swim_window_scroll moves the draw area up: every pixel takes the value of the pixel the given
  number of lines below it, the lines from the current text line on are cleared to the background
  colour, and pixels outside the draw area keep their values.
\<close>
theorem window_scroll_exact:
  assumes "win_ok win" "1 \<le> lines" "ypvmin win \<le> yvpos win"
    and "0 \<le> x" "x < xpsize win" "0 \<le> y" "y < ypsize win"
  shows "pix (swim_window_scroll win lines f) (x + y * xpsize win) =
    (if \<not> in_draw win x y then pix f (x + y * xpsize win)
     else if yvpos win \<le> y then bkg win
     else if y + lines \<le> ypvmax win then pix f (x + (y + lines) * xpsize win)
     else pix f (x + y * xpsize win))"
proof -
  have w: "0 \<le> xpvmin win" "xpvmax win < xpsize win" "0 \<le> ypvmin win" "ypvmax win < ypsize win"
    using assms(1) by (simp_all add: win_ok_def)
  let ?f = "fold (\<lambda>yref2. scroll_line win (yref2 - lines) yref2) [ypvmin win + lines .. ypvmax win] f"
  have s: "pix ?f (x + y * xpsize win) =
    (if xpvmin win \<le> x \<and> x \<le> xpvmax win \<and> ypvmin win + lines \<le> y + lines \<and> y + lines \<le> ypvmax win
     then pix f (x + (y + lines) * xpsize win) else pix f (x + y * xpsize win))"
    by (rule scroll_lines_exact) (use assms w in simp_all)
  have "0 \<le> yvpos win" using assms(3) w by linarith
  from clear_lines_paint [OF assms(1) this, of ?f]
  show ?thesis using s assms w by (auto simp: swim_window_scroll_def Let_def paints_def in_rect in_draw_def)
qed

section \<open>Text stays in the window\<close>

definition stores_in :: "int set \<Rightarrow> fbuf \<Rightarrow> fbuf \<Rightarrow> bool" where
  "stores_in A f f' \<longleftrightarrow> (\<exists>l. plog f' = plog f @ l \<and> fst ` set l \<subseteq> A)"

lemma stores_in_refl [simp]: "stores_in A f f"
  by (simp add: stores_in_def)

lemma stores_in_trans: "stores_in A f g \<Longrightarrow> stores_in A g h \<Longrightarrow> stores_in A f h"
  unfolding stores_in_def by (metis append.assoc image_Un le_sup_iff set_append)

lemma stores_in_pset: "a \<in> A \<Longrightarrow> stores_in A f (pset a c f)"
  by (simp add: stores_in_def pset_def)

lemma stores_in_fold:
  assumes "\<And>x f. x \<in> set xs \<Longrightarrow> stores_in A f (g x f)"
  shows "stores_in A f (fold g xs f)"
  using assms
proof (induction xs arbitrary: f)
  case (Cons x xs)
  then show ?case using stores_in_trans [of A f "g x f"] by simp
qed simp

text \<open>The offsets of the draw area.\<close>

definition draw_area :: "SWIM_WINDOW_T \<Rightarrow> int set" where
  "draw_area win = rect win (xpvmin win) (ypvmin win) (xpvmax win) (ypvmax win)"

lemma draw_area_offs:
  assumes "win_ok win" "xpvmin win \<le> x" "x \<le> xpvmax win" "ypvmin win \<le> y" "y \<le> ypvmax win"
  shows "offs win x y \<in> draw_area win"
proof -
  have "offs win x y = x + y * xpsize win" using assms by (intro offs_eq) (auto simp: win_ok_def)
  then show ?thesis using assms by (auto simp: draw_area_def rect_def)
qed

lemma scroll_stores:
  assumes "win_ok win" "1 \<le> lines" "ypvmin win \<le> yvpos win"
  shows "stores_in (draw_area win) f (swim_window_scroll win lines f)"
proof -
  have "stores_in (draw_area win) g (fold (\<lambda>y2. scroll_line win (y2 - lines) y2) [ypvmin win + lines .. ypvmax win] g)" for g
    unfolding scroll_line_def
    using assms by (intro stores_in_fold stores_in_pset draw_area_offs) auto
  moreover have "stores_in (draw_area win) g (fold (clear_line win) [yvpos win .. ypvmax win] g)" for g
    unfolding clear_line_def
    using assms by (intro stores_in_fold stores_in_pset draw_area_offs) auto
  ultimately show ?thesis unfolding swim_window_scroll_def Let_def by (rule stores_in_trans)
qed

lemma draw_area_pos [simp]:
  "draw_area (win\<lparr>xvpos := x\<rparr>) = draw_area win" "draw_area (win\<lparr>yvpos := y\<rparr>) = draw_area win"
  by (simp_all add: draw_area_def rect_def)

lemma win_ok_pos [simp]: "win_ok (win\<lparr>xvpos := x\<rparr>) = win_ok win" "win_ok (win\<lparr>yvpos := y\<rparr>) = win_ok win"
  by (simp_all add: win_ok_def)

text \<open>The window's font fits: a line of text and every character are smaller than the draw area.\<close>

definition font_fits :: "SWIM_WINDOW_T \<Rightarrow> bool" where
  "font_fits win \<longleftrightarrow> win_ok win \<and> 0 < font_height (font win) \<and>
     font_height (font win) \<le> ypvmax win - ypvmin win \<and> (\<forall>c. char_width win c \<le> xpvmax win - xpvmin win)"

definition text_inv :: "SWIM_WINDOW_T \<Rightarrow> bool" where
  "text_inv win \<longleftrightarrow> font_fits win \<and> xpvmin win \<le> xvpos win \<and> ypvmin win \<le> yvpos win \<and>
     yvpos win + font_height (font win) \<le> ypvmax win"

lemma char_width_pos [simp]:
  "char_width (win\<lparr>xvpos := x\<rparr>) c = char_width win c" "char_width (win\<lparr>yvpos := y\<rparr>) c = char_width win c"
  "0 \<le> char_width win c"
  by (simp_all add: char_width_def)

lemma newline_loop_eq:
  "newline_loop win f =
     (if yvpos win + font_height (font win) > ypvmax win
      then let win' = win\<lparr>yvpos := ypvmax win - font_height (font win)\<rparr>
           in (win', swim_window_scroll win' (font_height (font win) - (ypvmax win - yvpos win)) f)
      else (win, f))"
proof -
  have stop: "newline_loop w g = (w, g)" if "\<not> yvpos w + font_height (font w) > ypvmax w" for w g
    using that by (subst newline_loop.simps) simp
  show ?thesis by (subst newline_loop.simps) (simp add: Let_def stop)
qed

lemma put_newline_spec:
  assumes "font_fits win" "ypvmin win \<le> yvpos win" "swim_put_newline win f = (win', f')"
  shows "win' = win\<lparr>xvpos := xpvmin win, yvpos := min (yvpos win + font_height (font win)) (ypvmax win - font_height (font win))\<rparr> \<and>
    text_inv win' \<and> stores_in (draw_area win) f f'"
proof -
  let ?h = "font_height (font win)"
  let ?w = "win\<lparr>xvpos := xpvmin win, yvpos := ypvmax win - ?h\<rparr>"
  have ff: "win_ok win" "0 < ?h" "?h \<le> ypvmax win - ypvmin win" using assms(1) by (simp_all add: font_fits_def)
  show ?thesis
  proof (cases "yvpos win + ?h + ?h > ypvmax win")
    case True
    then have "win' = ?w" "f' = swim_window_scroll ?w (?h - (ypvmax win - (yvpos win + ?h))) f"
      using assms(3) by (auto simp: swim_put_newline_def newline_loop_eq Let_def)
    moreover have "stores_in (draw_area ?w) f (swim_window_scroll ?w (?h - (ypvmax win - (yvpos win + ?h))) f)"
      using True ff by (intro scroll_stores) auto
    ultimately show ?thesis using True ff assms(1) by (simp add: text_inv_def font_fits_def)
  next
    case False
    then have "win' = win\<lparr>xvpos := xpvmin win, yvpos := yvpos win + ?h\<rparr>" "f' = f"
      using assms(3) by (simp_all add: swim_put_newline_def newline_loop_eq Let_def)
    then show ?thesis using False ff assms(1,2) by (simp add: text_inv_def font_fits_def)
  qed
qed

lemma glyph_row_stores: "{a ..< a + int n} \<subseteq> A \<Longrightarrow> stores_in A f (glyph_row win n a d f)"
proof (induction n arbitrary: a d f)
  case (Suc n)
  let ?f = "if d AND 0x8000 \<noteq> 0 then pset a (pen win) f else if tfont win \<noteq> 0 then pset a (bkg win) f else f"
  have "{a + 1 ..< a + 1 + int n} \<subseteq> A" using Suc.prems by auto
  from Suc.IH [OF this, of ?f "push_bit 1 d"]
  have "stores_in A ?f (glyph_row win n (a + 1) (push_bit 1 d) ?f)" .
  moreover have "stores_in A f ?f" using Suc.prems by (auto intro!: stores_in_pset)
  ultimately show ?case unfolding glyph_row.simps using stores_in_trans by blast
qed simp

lemma put_glyph_stores:
  assumes "text_inv win" "xvpos win + char_width win c \<le> xpvmax win"
  shows "stores_in (draw_area win) f (put_glyph win c f)"
proof -
  have ok: "win_ok win" "xpvmin win \<le> xvpos win" "ypvmin win \<le> yvpos win" "yvpos win + font_height (font win) \<le> ypvmax win"
    using assms(1) by (simp_all add: text_inv_def font_fits_def)
  have "{offs win (xvpos win) (yvpos win + i) ..< offs win (xvpos win) (yvpos win + i) + int (nat (char_width win c))}
      \<subseteq> draw_area win" if "i \<in> set [0 .. font_height (font win) - 1]" for i
  proof
    fix a assume "a \<in> {offs win (xvpos win) (yvpos win + i) ..< offs win (xvpos win) (yvpos win + i) + int (nat (char_width win c))}"
    then obtain k where k: "a = offs win (xvpos win + k) (yvpos win + i)" "0 \<le> k" "k < char_width win c"
      by (intro that [of "a - offs win (xvpos win) (yvpos win + i)"]) (auto simp: offs_def)
    show "a \<in> draw_area win" unfolding k(1) using ok that k(2,3) assms(2) by (intro draw_area_offs) auto
  qed
  then show ?thesis unfolding put_glyph_def Let_def by (intro stores_in_fold glyph_row_stores)
qed

lemma put_char_spec:
  assumes "text_inv win" "swim_put_char win c f = (win', f')"
  shows "text_inv win' \<and> stores_in (draw_area win) f f' \<and> draw_area win' = draw_area win \<and> font win' = font win"
proof -
  have ff: "font_fits win" "ypvmin win \<le> yvpos win" using assms(1) by (simp_all add: text_inv_def)
  obtain win1 f1 where nl: "swim_put_newline win f = (win1, f1)" by fastforce
  note sp = put_newline_spec [OF ff nl]
  consider "c = 10" | "c \<noteq> 10" "xvpos win + char_width win c > xpvmax win" | "c \<noteq> 10" "\<not> xvpos win + char_width win c > xpvmax win"
    by blast
  then show ?thesis
  proof cases
    case 1
    then have "win' = win1" "f' = f1" using assms(2) nl by (simp_all add: swim_put_char_def)
    with sp show ?thesis by auto
  next
    case 2
    then have e: "win' = win1\<lparr>xvpos := xvpos win1 + char_width win1 c\<rparr>" "f' = put_glyph win1 c f1"
      using assms(2) by (simp_all add: swim_put_char_def nl)
    have cw: "xvpos win1 = xpvmin win" "xpvmax win1 = xpvmax win" "char_width win1 c = char_width win c"
      "draw_area win1 = draw_area win" "font win1 = font win" using sp by auto
    have "char_width win c \<le> xpvmax win - xpvmin win" using ff(1) by (simp add: font_fits_def)
    then have "xvpos win1 + char_width win1 c \<le> xpvmax win1" using cw by simp
    from put_glyph_stores [OF _ this, of f1] sp cw have "stores_in (draw_area win) f f'"
      unfolding e(2) using stores_in_trans by metis
    moreover have "text_inv win'" using sp cw unfolding e(1) by (auto simp: text_inv_def font_fits_def)
    ultimately show ?thesis using e(1) cw by simp
  next
    case 3
    then have e: "win' = win\<lparr>xvpos := xvpos win + char_width win c\<rparr>" "f' = put_glyph win c f"
      using assms(2) by (simp_all add: swim_put_char_def)
    have "xpvmin win \<le> xvpos win + char_width win c"
      using assms(1) char_width_pos(3) [of win c] by (simp add: text_inv_def del: char_width_pos(3))
    then have "text_inv win'" using assms(1) unfolding e(1) by (simp add: text_inv_def font_fits_def)
    then show ?thesis using put_glyph_stores [OF assms(1)] 3 e by simp
  qed
qed

text \<open>
  C26 Text stays in its window: if a line of text and every character fit into the draw area and the
  current line is inside it, then swim_put_text of any string, with all its line breaks, wrapping
  and scrolling, stores only inside the draw area and leaves the position where this holds again.
\<close>
theorem put_text_in_window:
  assumes "text_inv win"
  shows "let (win', f') = swim_put_text win t f in
    text_inv win' \<and> (\<exists>l. plog f' = plog f @ l \<and>
      fst ` set l \<subseteq> rect win (xpvmin win) (ypvmin win) (xpvmax win) (ypvmax win))"
proof -
  have "text_inv win' \<and> stores_in (draw_area win) f f'" if "swim_put_text win t f = (win', f')" for win' f'
    using assms that
  proof (induction win t f arbitrary: win' f' rule: swim_put_text.induct)
    case (2 win c t f)
    let ?r = "if c = 10 then swim_put_newline win f
        else if c \<ge> first_char (font win) \<and> c \<le> last_char (font win) then swim_put_char win c f else (win, f)"
    obtain win1 f1 where r: "?r = (win1, f1)" by fastforce
    have nl: "swim_put_newline win f = swim_put_char win 10 f" by (simp add: swim_put_char_def)
    have 1: "text_inv win1 \<and> stores_in (draw_area win) f f1 \<and> draw_area win1 = draw_area win"
      using put_char_spec [OF "2.prems"(1), of 10 f win1 f1] put_char_spec [OF "2.prems"(1), of c f win1 f1] r "2.prems"(1)
      by (auto simp: nl split: if_splits)
    have "swim_put_text win1 t f1 = (win', f')" using "2.prems"(2) r by simp
    then have "text_inv win' \<and> stores_in (draw_area win1) f1 f'"
      using 1 by (intro "2.IH" [OF r [symmetric]]) simp_all
    then show ?case using 1 stores_in_trans by metis
  qed simp
  then show ?thesis by (auto simp: stores_in_def draw_area_def)
qed

section \<open>Positions and titles\<close>

text \<open>Text output does not change the font or the vertical geometry of a window.\<close>

definition geometry :: "SWIM_WINDOW_T \<Rightarrow> FONT_T \<times> int \<times> int \<times> int" where
  "geometry win = (font win, ypvmin win, ypvmax win, yvsize win)"

lemma geometry_pos [simp]: "geometry (win\<lparr>xvpos := x\<rparr>) = geometry win" "geometry (win\<lparr>yvpos := x\<rparr>) = geometry win"
  by (simp_all add: geometry_def)

lemma newline_geometry [simp]: "geometry (fst (swim_put_newline win f)) = geometry win"
  by (simp add: swim_put_newline_def newline_loop_eq Let_def)

lemma put_char_geometry [simp]: "geometry (fst (swim_put_char win c f)) = geometry win"
  by (simp add: swim_put_char_def case_prod_beta Let_def)

lemma put_text_geometry: "geometry (fst (swim_put_text win t f)) = geometry win"
proof (induction t arbitrary: win f)
  case (Cons c t)
  show ?case unfolding swim_put_text.simps Let_def case_prod_beta Cons.IH by simp
qed simp

definition clamp :: "int \<Rightarrow> int \<Rightarrow> int \<Rightarrow> int" where
  "clamp lo hi v = (if v < lo then lo else if v > hi then hi else v)"

lemma clamp_offset: "lo \<le> hi \<Longrightarrow> clamp lo hi (x + lo) - lo = max 0 (min x (hi - lo))"
  by (simp add: clamp_def)

lemma set_xy_eq:
  "swim_set_xy win x y = win\<lparr>xvpos := clamp (xpvmin win) (xpvmax win) (s32 (x + xpvmin win)),
     yvpos := clamp (ypvmin win) (ypvmax win) (s32 (y + ypvmin win))\<rparr>"
  by (simp add: swim_set_xy_def clamp_def Let_def)

text \<open>
  swim_set_xy followed by swim_get_xy returns the position asked for when it is inside the draw
  area, and the nearest position inside it otherwise; only the text position of the window changes.
\<close>
theorem set_xy_clamps:
  assumes "win_ok win" "xpvmin win \<le> xpvmax win" "ypvmin win \<le> ypvmax win"
    and "- 2147483648 \<le> x" "x \<le> 2147450880" "- 2147483648 \<le> y" "y \<le> 2147450880"
  shows "swim_get_xy (swim_set_xy win x y) =
      (max 0 (min x (xpvmax win - xpvmin win)), max 0 (min y (ypvmax win - ypvmin win))) \<and>
    (\<exists>px py. swim_set_xy win x y = win\<lparr>xvpos := px, yvpos := py\<rparr>)"
proof -
  have w: "0 \<le> xpvmin win" "xpvmin win \<le> 32766" "0 \<le> ypvmin win" "ypvmin win \<le> 32766"
    using assms(1-3) by (simp_all add: win_ok_def)
  have "s32 (x + xpvmin win) = x + xpvmin win" by (rule s32_id) (use w assms(4-7) in linarith)+
  moreover have "s32 (y + ypvmin win) = y + ypvmin win" by (rule s32_id) (use w assms(4-7) in linarith)+
  ultimately show ?thesis
    using clamp_offset [OF assms(2), of x] clamp_offset [OF assms(3), of y]
    by (auto simp: set_xy_eq swim_get_xy_def)
qed

text \<open>
  A title shrinks the draw area by the font height and 4 lines but the virtual height by the font
  height less 4: after swim_set_title on a window whose virtual height matched its draw area,
  swim_get_vertical_size reports 8 lines more than there are.
\<close>
theorem set_title_height:
  assumes "swim_set_title win (Some t) col f = Some (win', f')" "font_height (font win) < 4 + yvsize win"
    and "yvsize win = ypvmax win - ypvmin win"
  shows "ypvmin win' = ypvmin win + font_height (font win) + 4 \<and>
    swim_get_vertical_size win' = ypvmax win' - ypvmin win' + 8"
proof -
  define w1 where "w1 = win\<lparr>fill := col, bkg := col, pen := col\<rparr>"
  define w2 where "w2 = w1\<lparr>xvpos := xpvmin w1 + 2, yvpos := ypvmin w1 + 1, pen := pen win,
      fill := fill win, bkg := bkg win, tfont := 0\<rparr>"
  obtain f1 where f1: "swim_put_box w1 0 0 (xvsize w1) (4 + swim_get_font_height w1 - 2) f = Some f1"
    using assms(1,2) by (auto simp: swim_set_title_def swim_get_font_height_def Let_def w1_def bind_eq_Some_conv)
  obtain w3 f3 where t: "swim_put_text w2 t f1 = (w3, f3)" by fastforce
  have geo: "font w3 = font win \<and> ypvmin w3 = ypvmin win \<and> ypvmax w3 = ypvmax win \<and> yvsize w3 = yvsize win"
  proof -
    have "geometry w3 = geometry w2" using put_text_geometry [of w2 t f1] by (simp only: t fst_conv)
    then show ?thesis by (simp add: geometry_def w2_def w1_def)
  qed
  have "\<exists>f4. Some (win', f') = Some (w3\<lparr>tfont := tfont win, ypmin := ypmin w3 + font_height (font w3) + 4,
      ypvmin := ypvmin w3 + font_height (font w3) + 4, yvsize := yvsize w3 - font_height (font w3) + 4,
      xvpos := xpvmin w3, yvpos := ypvmin w3 + font_height (font w3) + 4\<rparr>, f4)"
    using assms(1,2) f1 t
    unfolding swim_set_title_def option.case Let_def w1_def [symmetric] w2_def [symmetric] swim_get_font_height_def
    by (auto simp: bind_eq_Some_conv w1_def [symmetric] w2_def [symmetric])
  with geo assms(3) show ?thesis by (auto simp: swim_get_vertical_size_def)
qed

section \<open>Concrete runs\<close>

lemma win0_text: "text_inv win0"
  by (simp add: text_inv_def font_fits_def win0_ok) (simp add: win0_def font0_def char_width_def)

theorem put_text_in_window_witness:
  "text_inv (fst (swim_put_text win0 [0x48, 0x69, 10, 0x21] fb0))"
  using put_text_in_window [OF win0_text, of "[0x48, 0x69, 10, 0x21]" fb0] by (simp only: case_prod_beta Let_def)

theorem window_scroll_exact_witness:
  "pix (swim_window_scroll (win0\<lparr>yvpos := 300\<rparr>) 16 fb0) (5 + 310 * 240) = 2"
proof -
  have "pix (swim_window_scroll (win0\<lparr>yvpos := 300\<rparr>) 16 fb0) (5 + 310 * xpsize (win0\<lparr>yvpos := 300\<rparr>)) =
    (if \<not> in_draw (win0\<lparr>yvpos := 300\<rparr>) 5 310 then pix fb0 (5 + 310 * xpsize (win0\<lparr>yvpos := 300\<rparr>))
     else if yvpos (win0\<lparr>yvpos := 300\<rparr>) \<le> 310 then bkg (win0\<lparr>yvpos := 300\<rparr>)
     else if 310 + 16 \<le> ypvmax (win0\<lparr>yvpos := 300\<rparr>) then pix fb0 (5 + (310 + 16) * xpsize (win0\<lparr>yvpos := 300\<rparr>))
     else pix fb0 (5 + 310 * xpsize (win0\<lparr>yvpos := 300\<rparr>)))"
    by (rule window_scroll_exact) (simp_all add: win0_ok, simp_all add: win0_def)
  then show ?thesis by (simp add: win0_def in_draw_def)
qed

theorem set_xy_clamps_witness: "swim_get_xy (swim_set_xy win0 15 5000) = (15, 317)"
  using set_xy_clamps [OF win0_ok, of 15 5000] by (simp add: win0_def)

lemma win0_title: "\<exists>win' f'. swim_set_title win0 (Some []) 9 fb0 = Some (win', f')"
  by (simp add: swim_set_title_def swim_get_font_height_def win0_def font0_def Let_def swim_put_box_def
      swim_put_line_raw_def swim_put_line_def line_steps_def swap_le_def clip_low_def clip_high_def s32_id
      del: upto_rec_numeral)

theorem set_title_height_witness:
  "\<exists>win' f'. swim_set_title win0 (Some []) 9 fb0 = Some (win', f') \<and>
     swim_get_vertical_size win' = ypvmax win' - ypvmin win' + 8"
proof -
  obtain win' f' where t: "swim_set_title win0 (Some []) 9 fb0 = Some (win', f')" using win0_title by blast
  have "font_height (font win0) < 4 + yvsize win0" "yvsize win0 = ypvmax win0 - ypvmin win0"
    by (simp_all add: win0_def font0_def)
  from set_title_height [OF t this] t show ?thesis by blast
qed

end
