(* ===== verification/Calib_App.thy ===== *)
theory Calib_App
  imports Lcd_Panel Swim_Font
begin

text \<open>
  The calibration application \<^verbatim>\<open>calib_app.c\<close>: it brings up the display and the touch panel and
  takes the three samples the calibration needs. It composes the LCD driver, the window library and
  the touch driver, which share the SPI port and the I/O bus.

  The fonts, the cursor bitmap and the addresses the code takes of objects are in the environment, as
  are the reads of the delay timer and what is on the stack for \<open>touch_xyz\<close>'s local.
\<close>

section \<open>State\<close>

abbreviation (input) "BLACK \<equiv> (0x0000 :: u16)"
abbreviation (input) "LIGHTGRAY \<equiv> (0x3DEF :: u16)"
abbreviation (input) "WHITE \<equiv> (0x7FFF :: u16)"
abbreviation (input) "RED \<equiv> (0x7C00 :: u16)"
abbreviation (input) "GREEN \<equiv> (0x03E0 :: u16)"
abbreviation (input) "EA2478_LCD_FRAME_BUF \<equiv> (0xA0000000 :: u32)"
abbreviation (input) "LCD_DISPLAY \<equiv> truly_tft_g240320ltsw_118w_e_portrait"

definition bytes :: "string \<Rightarrow> u8 list" where
  "bytes = map of_char"

record app_env =
  lcd_e :: lcd_env
  font_helvr10 :: FONT_T
  font_winfreesys14x16 :: FONT_T
  font_rom8x16 :: FONT_T
  SpiXfer_ptr :: u32
  display_ptr :: u32
  crsr_ptr :: u32
  t0tcr :: "nat \<Rightarrow> u32"
  stack_point :: POINT

text \<open>
  The statics of the file, with the state of the drivers it uses. \<open>dev_lcd\<close> is whether the handle of
  the display is not null.
\<close>

record calib_app =
  win1 :: SWIM_WINDOW_T
  fbmem :: fbuf
  calibPoint :: int
  scr_1 :: tTouchPoint
  scr_2 :: tTouchPoint
  scr_3 :: tTouchPoint
  releaseNeeded :: bool
  touchReleased :: bool
  firstRun :: bool
  touch_st :: touch_state
  lcd_st :: lcd_state
  t0_reads :: nat
  dev_lcd :: bool

definition refPoint1 :: tTouchPoint where
  "refPoint1 = \<lparr>tp_x = 15, tp_y = 300 - 18\<rparr>"

definition refPoint2 :: tTouchPoint where
  "refPoint2 = \<lparr>tp_x = 120, tp_y = 80 - 18\<rparr>"

definition refPoint3 :: tTouchPoint where
  "refPoint3 = \<lparr>tp_x = 220, tp_y = 280 - 18\<rparr>"

definition tp_of :: "int \<Rightarrow> int \<Rightarrow> tTouchPoint" where
  "tp_of x y = \<lparr>tp_x = word_of_int x, tp_y = word_of_int y\<rparr>"

section \<open>Display\<close>

definition drawCalibPoint :: "tTouchPoint \<Rightarrow> calib_app \<Rightarrow> calib_app option" where
  "drawCalibPoint p a = do {
     let x = uint (tp_x p);
     let y = uint (tp_y p);
     f \<leftarrow> swim_put_box (win1 a) (x - 5) (y - 5) (x + 5) (y + 5) (fbmem a);
     Some (a\<lparr>fbmem := f\<rparr>)
   }"

definition put_str_at :: "string \<Rightarrow> calib_app \<Rightarrow> calib_app" where
  "put_str_at str a =
     (let (w, f) = swim_put_text (swim_set_xy (win1 a) 15 30) (bytes str) (fbmem a)
      in a\<lparr>win1 := w, fbmem := f\<rparr>)"

definition init_lcd :: "app_env \<Rightarrow> calib_app \<Rightarrow> calib_app option" where
  "init_lcd E a = do {
     let xs = uint (pixels_per_line LCD_DISPLAY);
     let ys = uint (lines_per_panel LCD_DISPLAY);
     (_, w, f) \<leftarrow> swim_window_open (font_helvr10 E) (win1 a) xs ys EA2478_LCD_FRAME_BUF 0 0 (xs - 1) (ys - 1) 1
        LIGHTGRAY WHITE LIGHTGRAY (fbmem a);
     let (w, f) = swim_set_font w (font_winfreesys14x16 E) f;
     let w = swim_set_pen_color w BLACK;
     (w, f) \<leftarrow> swim_set_title w (Some (bytes ''    -- Touch screen calibration --'')) LIGHTGRAY f;
     let w = swim_set_pen_color w BLACK;
     let (w, f) = swim_set_font w (font_rom8x16 E) f;
     Some (put_str_at ''Calibrating, touch boxes'' (a\<lparr>win1 := w, fbmem := f\<rparr>))
   }"

definition open_lcd :: "app_env \<Rightarrow> lcd_state \<Rightarrow> (u32 \<times> lcd_state) option" where
  "open_lcd E s =
     (let (opened, s) = lcd_open (lcd_e E) LCD_BASE (display_ptr E) s in
      if \<not> opened then Some (- 1, s)
      else do {
        (_, s) \<leftarrow> lcd_ioctl (lcd_e E) 20 (SpiXfer_ptr E) s;
        (_, s) \<leftarrow> lcd_ioctl (lcd_e E) 0 0xA0000000 s;
        (_, s) \<leftarrow> lcd_ioctl (lcd_e E) 3 1 s;
        (_, s) \<leftarrow> lcd_ioctl (lcd_e E) 2 1 s;
        (_, s) \<leftarrow> lcd_ioctl (lcd_e E) 6 0 s;
        (_, s) \<leftarrow> lcd_ioctl (lcd_e E) 5 0 s;
        (_, s) \<leftarrow> lcd_ioctl (lcd_e E) 1 (crsr_ptr E) s;
        (_, s) \<leftarrow> lcd_ioctl (lcd_e E) 4 1 s;
        Some (0, s)
      })"

definition lcd_button :: "app_env \<Rightarrow> int \<Rightarrow> int \<Rightarrow> int \<Rightarrow> int \<Rightarrow> u16 \<Rightarrow> string \<Rightarrow> calib_app \<Rightarrow> calib_app option" where
  "lcd_button E x y w h col lbl a = do {
     let (wn, f) = swim_set_font (win1 a) (font_winfreesys14x16 E) (fbmem a);
     let wn = swim_set_fill_color wn col;
     f \<leftarrow> swim_put_box wn x y (s32 (x + w)) (s32 (y + h)) f;
     let wn = swim_set_font_trasparency wn 0;
     let (wn, f) = swim_put_text_xy wn (bytes lbl) (s32 (x + 100 div 2 - 6 * int (length lbl)))
        (s32 (y + 30 div 2 - 10)) f;
     Some (a\<lparr>win1 := wn, fbmem := f\<rparr>)
   }"

text \<open>The port is the one \<open>touch_init\<close> was given.\<close>

definition touch_read :: "app_env \<Rightarrow> calib_app \<Rightarrow> ((int \<times> int \<times> int) \<times> calib_app) option" where
  "touch_read E a = do {
     (xyz, io) \<leftarrow> touch_xyz (e_fns (lcd_e E) (SpiXfer_ptr E)) (stack_point E) (touch_st a) (lio (lcd_st a));
     Some (xyz, a\<lparr>lcd_st := (lcd_st a)\<lparr>lio := io\<rparr>\<rparr>)
   }"

text \<open>A null handle of the display is undefined behaviour, \<open>None\<close>.\<close>

definition lcd_test :: "app_env \<Rightarrow> calib_app \<Rightarrow> calib_app option" where
  "lcd_test E a = do {
     a \<leftarrow> (if \<not> firstRun a then do {
            let a = a\<lparr>firstRun := True\<rparr>;
            (w, f) \<leftarrow> swim_set_title (win1 a) (Some (bytes ''    -- Press key UP to exit --'')) GREEN (fbmem a);
            a \<leftarrow> lcd_button E 5 260 100 30 RED ''OFF'' (a\<lparr>win1 := w, fbmem := f\<rparr>);
            lcd_button E (240 - 5 - 100) 260 100 30 GREEN ''ON'' a
          } else Some a);
     ((x, y, z), a) \<leftarrow> touch_read E a;
     if \<not> dev_lcd a then None
     else do {
       (_, s) \<leftarrow> lcd_ioctl (lcd_e E) 17 (push_bit 16 (word_of_int y) OR word_of_int x) (lcd_st a);
       Some (a\<lparr>lcd_st := s\<rparr>)
     }
   }"

section \<open>Calibration\<close>

text \<open>
  The tests of the loop before its switch: the sample is dropped (\<open>None\<close>), or the switch is entered
  with the number of the point, which is counted up.
\<close>

definition calib_accept :: "int \<Rightarrow> calib_app \<Rightarrow> int option \<times> calib_app" where
  "calib_accept z a =
     (if z = 0 then (None, a\<lparr>touchReleased := True\<rparr>)
      else if releaseNeeded a \<and> \<not> touchReleased a then (None, a)
      else (Some (calibPoint a), a\<lparr>touchReleased := False, calibPoint := calibPoint a + 1\<rparr>))"

text \<open>The switch; the flag of the result is the local \<open>calibrated\<close>.\<close>

definition calib_switch :: "int \<Rightarrow> int \<Rightarrow> int \<Rightarrow> calib_app \<Rightarrow> (bool \<times> calib_app) option" where
  "calib_switch k x y a =
     (if k = 0 then do {
        a \<leftarrow> drawCalibPoint refPoint2 (a\<lparr>scr_1 := tp_of x y\<rparr>);
        Some (False, a\<lparr>releaseNeeded := True\<rparr>)
      } else if k = 1 then do {
        a \<leftarrow> drawCalibPoint refPoint3 (a\<lparr>scr_2 := tp_of x y\<rparr>);
        Some (False, a\<lparr>releaseNeeded := True\<rparr>)
      } else if k = 2 then
        (let a = a\<lparr>scr_3 := tp_of x y\<rparr>;
             a = a\<lparr>fbmem := swim_clear_screen (win1 a) WHITE (fbmem a)\<rparr>;
             a = put_str_at ''Calibrated !'' a;
             a = a\<lparr>releaseNeeded := True\<rparr>;
             a = a\<lparr>touch_st := touch_calibrate refPoint1 refPoint2 refPoint3 (scr_1 a) (scr_2 a) (scr_3 a) (touch_st a)\<rparr>
         in Some (True, a))
      else Some (False, a))"

definition calib_feed :: "int \<times> int \<times> int \<Rightarrow> calib_app \<Rightarrow> (bool \<times> calib_app) option" where
  "calib_feed = (\<lambda>(x, y, z) a.
     (case calib_accept z a of
        (None, a) \<Rightarrow> Some (False, a)
      | (Some k, a) \<Rightarrow> calib_switch k x y a))"

definition calib_wait :: "app_env \<Rightarrow> calib_app \<Rightarrow> calib_app option" where
  "calib_wait E a = do {
     (n, m) \<leftarrow> delayMs (t0tcr E) (t0_reads a) 100 (sbus (lio (lcd_st a)));
     Some (a\<lparr>t0_reads := n, lcd_st := (lcd_st a)\<lparr>lio := (lio (lcd_st a))\<lparr>sbus := m\<rparr>\<rparr>\<rparr>)
   }"

partial_function (option) calib_loop :: "app_env \<Rightarrow> calib_app \<Rightarrow> calib_app option" where
  "calib_loop E a = do {
     a \<leftarrow> calib_wait E a;
     (xyz, a) \<leftarrow> touch_read E a;
     (calibrated, a) \<leftarrow> calib_feed xyz a;
     if calibrated then Some a else calib_loop E a
   }"

definition set_sbus :: "mmio \<Rightarrow> calib_app \<Rightarrow> calib_app" where
  "set_sbus m a = a\<lparr>lcd_st := (lcd_st a)\<lparr>lio := (lio (lcd_st a))\<lparr>sbus := m\<rparr>\<rparr>\<rparr>"

text \<open>The programs that calibrate differ in their \<open>open_lcd\<close>, the parameter \<open>opn\<close>.\<close>

definition calibrate_with :: "(app_env \<Rightarrow> lcd_state \<Rightarrow> (u32 \<times> lcd_state) option) \<Rightarrow> app_env \<Rightarrow> calib_app \<Rightarrow> calib_app option" where
  "calibrate_with opn E a = do {
     let a = a\<lparr>releaseNeeded := False, calibPoint := 0\<rparr>;
     m \<leftarrow> SPIInit 5000 8 0 1 0 (sbus (lio (lcd_st a)));
     (st, s) \<leftarrow> opn E (lcd_st (set_sbus m a));
     a \<leftarrow> init_lcd E (a\<lparr>lcd_st := s, dev_lcd := (st = 0)\<rparr>);
     m \<leftarrow> SPIInit 2500 8 0 0 0 (sbus (lio (lcd_st a)));
     let a = set_sbus m a;
     let a = a\<lparr>lcd_st := (lcd_st a)\<lparr>lio := touch_init (lio (lcd_st a))\<rparr>\<rparr>;
     a \<leftarrow> drawCalibPoint refPoint1 a;
     (_, a) \<leftarrow> touch_read E a;
     calib_loop E a
   }"

definition calibrateStart :: "app_env \<Rightarrow> calib_app \<Rightarrow> calib_app option" where
  "calibrateStart = calibrate_with open_lcd"

section \<open>Text output\<close>

text \<open>A window without its text position: text output does not change it.\<close>

definition still :: "SWIM_WINDOW_T \<Rightarrow> SWIM_WINDOW_T" where
  "still win = win\<lparr>xvpos := 0, yvpos := 0\<rparr>"

lemma still_pos [simp]: "still (win\<lparr>xvpos := x\<rparr>) = still win" "still (win\<lparr>yvpos := y\<rparr>) = still win"
  by (simp_all add: still_def)

lemma newline_still [simp]: "still (fst (swim_put_newline win f)) = still win"
  by (simp add: swim_put_newline_def newline_loop_eq Let_def)

lemma put_char_still [simp]: "still (fst (swim_put_char win c f)) = still win"
  by (simp add: swim_put_char_def case_prod_beta Let_def)

lemma put_text_still [simp]: "still (fst (swim_put_text win t f)) = still win"
proof (induction t arbitrary: win f)
  case (Cons c t)
  show ?case unfolding swim_put_text.simps Let_def case_prod_beta Cons.IH by simp
qed simp

lemma set_xy_still [simp]: "still (swim_set_xy win x y) = still win"
  by (simp add: set_xy_eq)

lemma set_font_still [simp]: "still (fst (swim_set_font win fnt f)) = still (win\<lparr>font := fnt\<rparr>)"
  by (simp add: swim_set_font_def Let_def)

lemma still_fields:
  assumes "still w = still v"
  shows "xpsize w = xpsize v" "ypsize w = ypsize v" "xpvmin w = xpvmin v" "xpvmax w = xpvmax v" "ypvmin w = ypvmin v"
    "ypvmax w = ypvmax v" "xvsize w = xvsize v" "yvsize w = yvsize v" "font w = font v" "pen w = pen v"
  using arg_cong [OF assms, of xpsize] arg_cong [OF assms, of ypsize] arg_cong [OF assms, of xpvmin]
    arg_cong [OF assms, of xpvmax] arg_cong [OF assms, of ypvmin] arg_cong [OF assms, of ypvmax]
    arg_cong [OF assms, of xvsize] arg_cong [OF assms, of yvsize] arg_cong [OF assms, of font]
    arg_cong [OF assms, of pen]
  by (simp_all add: still_def)

lemma still_win_ok: "still w = still v \<Longrightarrow> win_ok w = win_ok v"
  using still_fields [of w v] by (simp add: win_ok_def)

section \<open>Three touches\<close>

text \<open>Windows in which the three boxes are at least two pixels wide and high.\<close>

definition calib_win :: "SWIM_WINDOW_T \<Rightarrow> bool" where
  "calib_win w \<longleftrightarrow> win_ok w \<and> xpvmin w + 215 < xpvmax w \<and> ypvmin w + 277 < ypvmax w"

lemma put_str_at_keeps:
  "\<exists>w f. put_str_at str a = a\<lparr>win1 := w, fbmem := f\<rparr> \<and> still w = still (win1 a)"
proof -
  let ?r = "swim_put_text (swim_set_xy (win1 a) 15 30) (bytes str) (fbmem a)"
  have "put_str_at str a = a\<lparr>win1 := fst ?r, fbmem := snd ?r\<rparr>" by (simp add: put_str_at_def case_prod_beta Let_def)
  then show ?thesis by (metis put_text_still set_xy_still)
qed

lemma calib_win_still: "still w = still v \<Longrightarrow> calib_win w = calib_win v"
  using still_fields [of w v] still_win_ok [of w v] by (simp add: calib_win_def)

lemma drawCalibPoint_returns:
  assumes "calib_win (win1 a)" "p \<in> {refPoint1, refPoint2, refPoint3}"
  shows "\<exists>f. drawCalibPoint p a = Some (a\<lparr>fbmem := f\<rparr>)"
proof -
  let ?w = "win1 a" and ?x = "uint (tp_x p)" and ?y = "uint (tp_y p)"
  have b: "5 \<le> ?x \<and> ?x \<le> 220 \<and> 5 \<le> ?y \<and> ?y \<le> 282"
    using assms(2) by (auto simp: refPoint1_def refPoint2_def refPoint3_def)
  have w: "win_ok ?w" "xpvmin ?w + 215 < xpvmax ?w" "ypvmin ?w + 277 < ypvmax ?w"
    using assms(1) by (simp_all add: calib_win_def)
  have "\<exists>f4 f'. swim_put_box ?w (?x - 5) (?y - 5) (?x + 5) (?y + 5) (fbmem a) = Some f' \<and> True"
    using put_box_paints [OF w(1), of "?x - 5" "?x + 5" "?y - 5" "?y + 5" "max (xpvmin ?w) (min (?x - 5) (?x + 5) + xpvmin ?w)"
        "min (xpvmax ?w) (max (?x - 5) (?x + 5) + xpvmin ?w)" "max (ypvmin ?w) (min (?y - 5) (?y + 5) + ypvmin ?w)"
        "min (ypvmax ?w) (max (?y - 5) (?y + 5) + ypvmin ?w)" "fbmem a"] b w(2,3) by fastforce
  then show ?thesis by (auto simp: drawCalibPoint_def)
qed

text \<open>The loop body on a list of samples, up to the one that completes the calibration.\<close>

fun feed_all :: "(int \<times> int \<times> int) list \<Rightarrow> calib_app \<Rightarrow> (bool \<times> calib_app) option" where
  "feed_all [] a = Some (False, a)"
| "feed_all (s # ss) a = do {
     (done, a) \<leftarrow> calib_feed s a;
     if done then Some (True, a) else feed_all ss a
   }"

lemma feed_append: "feed_all ss a = Some (False, b) \<Longrightarrow> feed_all (ss @ ts) a = feed_all ts b"
  by (induction ss arbitrary: a) (auto simp: bind_eq_Some_conv split: if_splits)

definition idle :: "(int \<times> int \<times> int) list \<Rightarrow> bool" where
  "idle ss \<longleftrightarrow> list_all (\<lambda>(x, y, z). z = 0) ss"

definition held :: "(int \<times> int \<times> int) list \<Rightarrow> bool" where
  "held ss \<longleftrightarrow> list_all (\<lambda>(x, y, z). z \<noteq> 0) ss"

lemma feed_idle: "idle ss \<Longrightarrow> \<exists>r. feed_all ss a = Some (False, a\<lparr>touchReleased := r\<rparr>) \<and> (ss \<noteq> [] \<longrightarrow> r)"
proof (induction ss arbitrary: a)
  case Nil
  show ?case by (auto intro: exI [of _ "touchReleased a"])
next
  case (Cons s ss)
  obtain x y where s: "s = (x, y, 0)" using Cons.prems by (cases s) (simp add: idle_def)
  have e: "feed_all (s # ss) a = feed_all ss (a\<lparr>touchReleased := True\<rparr>)"
    by (simp add: s calib_feed_def calib_accept_def)
  show ?case
  proof (cases "ss = []")
    case True
    then show ?thesis unfolding e by (intro exI [of _ True]) simp
  next
    case False
    have "idle ss" using Cons.prems by (simp add: idle_def)
    then show ?thesis unfolding e using Cons.IH [of "a\<lparr>touchReleased := True\<rparr>"] False by auto
  qed
qed

lemma feed_held:
  "held ss \<Longrightarrow> releaseNeeded a \<Longrightarrow> \<not> touchReleased a \<Longrightarrow> feed_all ss a = Some (False, a)"
  by (induction ss) (auto simp: held_def calib_feed_def calib_accept_def)

text \<open>A touch is held, then released and idle, then the next touch counts.\<close>

lemma feed_gap:
  assumes "held hs" "idle is" "is \<noteq> []" "releaseNeeded a" "\<not> touchReleased a"
  shows "feed_all (hs @ is @ ts) a = feed_all ts (a\<lparr>touchReleased := True\<rparr>)"
  using feed_append [OF feed_held [OF assms(1,4,5)], of "is @ ts"] feed_idle [OF assms(2), of a] assms(3)
    feed_append [of "is" a "a\<lparr>touchReleased := True\<rparr>" ts] by auto

lemma feed_press:
  assumes "z \<noteq> 0" "releaseNeeded a \<longrightarrow> touchReleased a" "calib_win (win1 a)"
  shows "calibPoint a = 0 \<Longrightarrow> \<exists>f. calib_feed (x, y, z) a = Some (False, a\<lparr>touchReleased := False, calibPoint := 1,
        scr_1 := tp_of x y, fbmem := f, releaseNeeded := True\<rparr>)"
    "calibPoint a = 1 \<Longrightarrow> \<exists>f. calib_feed (x, y, z) a = Some (False, a\<lparr>touchReleased := False, calibPoint := 2,
        scr_2 := tp_of x y, fbmem := f, releaseNeeded := True\<rparr>)"
    "calibPoint a = 2 \<Longrightarrow> \<exists>b. calib_feed (x, y, z) a = Some (True, b) \<and> scr_1 b = scr_1 a \<and> scr_2 b = scr_2 a \<and>
        scr_3 b = tp_of x y \<and> touch_st b = touch_calibrate refPoint1 refPoint2 refPoint3 (scr_1 a) (scr_2 a) (tp_of x y) (touch_st a)"
proof -
  have acc: "calib_accept z a = (Some (calibPoint a), a\<lparr>touchReleased := False, calibPoint := calibPoint a + 1\<rparr>)"
    using assms(1,2) by (auto simp: calib_accept_def)
  show "\<exists>f. calib_feed (x, y, z) a = Some (False, a\<lparr>touchReleased := False, calibPoint := 1,
        scr_1 := tp_of x y, fbmem := f, releaseNeeded := True\<rparr>)" if "calibPoint a = 0"
    using that acc assms(3) drawCalibPoint_returns [of "a\<lparr>touchReleased := False, calibPoint := 1, scr_1 := tp_of x y\<rparr>" refPoint2]
    by (auto simp: calib_feed_def calib_switch_def)
  show "\<exists>f. calib_feed (x, y, z) a = Some (False, a\<lparr>touchReleased := False, calibPoint := 2,
        scr_2 := tp_of x y, fbmem := f, releaseNeeded := True\<rparr>)" if "calibPoint a = 1"
    using that acc assms(3) drawCalibPoint_returns [of "a\<lparr>touchReleased := False, calibPoint := 2, scr_2 := tp_of x y\<rparr>" refPoint3]
    by (auto simp: calib_feed_def calib_switch_def)
  show "\<exists>b. calib_feed (x, y, z) a = Some (True, b) \<and> scr_1 b = scr_1 a \<and> scr_2 b = scr_2 a \<and>
        scr_3 b = tp_of x y \<and> touch_st b = touch_calibrate refPoint1 refPoint2 refPoint3 (scr_1 a) (scr_2 a) (tp_of x y) (touch_st a)"
    if "calibPoint a = 2"
    using that acc by (simp add: calib_feed_def calib_switch_def put_str_at_def case_prod_beta Let_def)
qed

text \<open>The loop body does not look at the timer and the display driver's state.\<close>

abbreviation (input) "with_hw n l a \<equiv> a\<lparr>t0_reads := n, lcd_st := l\<rparr>"

lemma drawCalibPoint_hw: "drawCalibPoint p (with_hw n l a) = map_option (with_hw n l) (drawCalibPoint p a)"
  by (cases "swim_put_box (win1 a) (uint (tp_x p) - 5) (uint (tp_y p) - 5) (uint (tp_x p) + 5) (uint (tp_y p) + 5) (fbmem a)")
    (simp_all add: drawCalibPoint_def)

lemma calib_switch_hw:
  "calib_switch k x y (with_hw n l a) = map_option (\<lambda>(d, b). (d, with_hw n l b)) (calib_switch k x y a)"
proof -
  have 1: "(with_hw n l a)\<lparr>scr_1 := q\<rparr> = with_hw n l (a\<lparr>scr_1 := q\<rparr>)"
    "(with_hw n l a)\<lparr>scr_2 := q\<rparr> = with_hw n l (a\<lparr>scr_2 := q\<rparr>)" for q by simp_all
  show ?thesis
    by (cases "drawCalibPoint refPoint2 (a\<lparr>scr_1 := tp_of x y\<rparr>)"; cases "drawCalibPoint refPoint3 (a\<lparr>scr_2 := tp_of x y\<rparr>)")
      (simp_all add: calib_switch_def 1 drawCalibPoint_hw put_str_at_def case_prod_beta Let_def)
qed

lemma calib_feed_hw: "calib_feed s (with_hw n l a) = map_option (\<lambda>(d, b). (d, with_hw n l b)) (calib_feed s a)"
proof -
  obtain x y z where s: "s = (x, y, z)" by (cases s)
  have 1: "(with_hw n l a)\<lparr>touchReleased := False, calibPoint := k\<rparr> = with_hw n l (a\<lparr>touchReleased := False, calibPoint := k\<rparr>)" for k
    by simp
  show ?thesis by (simp add: s calib_feed_def calib_accept_def 1 calib_switch_hw)
qed

lemma calib_feed_keeps:
  assumes "calib_feed s a = Some (d, b)"
  shows "t0_reads b = t0_reads a" "lcd_st b = lcd_st a" "firstRun b = firstRun a" "dev_lcd b = dev_lcd a"
    "\<not> d \<Longrightarrow> touch_st b = touch_st a"
  using assms
  by (auto simp: calib_feed_def calib_accept_def calib_switch_def drawCalibPoint_def put_str_at_def Let_def
      bind_eq_Some_conv case_prod_beta split: if_splits prod.splits)

lemma put_str_at_still: "still (win1 (put_str_at str a)) = still (win1 a)"
  using put_str_at_keeps [of str a] by auto

lemma calib_feed_still:
  assumes "calib_feed s a = Some (d, b)"
  shows "still (win1 b) = still (win1 a)"
  using assms
  by (auto simp: calib_feed_def calib_accept_def calib_switch_def drawCalibPoint_def put_str_at_still Let_def
      bind_eq_Some_conv split: if_splits prod.splits)

lemma feed_all_keeps:
  assumes "feed_all ss a = Some (d, b)"
  shows "lcd_st b = lcd_st a \<and> firstRun b = firstRun a \<and> dev_lcd b = dev_lcd a \<and>
    still (win1 b) = still (win1 a) \<and> (\<not> d \<longrightarrow> touch_st b = touch_st a)"
  using assms
proof (induction ss arbitrary: a)
  case (Cons s ss)
  then obtain c a' where f: "calib_feed s a = Some (c, a')" by (auto simp: bind_eq_Some_conv)
  note k = calib_feed_keeps [OF f] calib_feed_still [OF f]
  show ?case using Cons.prems Cons.IH [of a'] f k by (cases c) auto
qed simp

lemma feed_all_hw: "feed_all ss (with_hw n l a) = map_option (\<lambda>(d, b). (d, with_hw n l b)) (feed_all ss a)"
proof (induction ss arbitrary: a)
  case (Cons s ss)
  show ?case
  proof (cases "calib_feed s a")
    case None
    then show ?thesis by (simp add: calib_feed_hw)
  next
    case (Some r)
    then show ?thesis using Cons.IH by (cases r) (simp add: calib_feed_hw)
  qed
qed simp

lemma feed_three:
  assumes "calib_win (win1 a)" "calibPoint a = 0" "\<not> releaseNeeded a"
    and "idle i1" "held h1" "idle i2" "i2 \<noteq> []" "held h2" "idle i3" "i3 \<noteq> []" "z1 \<noteq> 0" "z2 \<noteq> 0" "z3 \<noteq> 0"
  shows "\<exists>c b. feed_all (i1 @ (x1, y1, z1) # h1 @ i2 @ (x2, y2, z2) # h2 @ i3) a = Some (False, c) \<and>
    calib_feed (x3, y3, z3) c = Some (True, b) \<and>
    touch_st b = touch_calibrate refPoint1 refPoint2 refPoint3 (tp_of x1 y1) (tp_of x2 y2) (tp_of x3 y3) (touch_st a)"
proof -
  obtain r where 0: "feed_all i1 a = Some (False, a\<lparr>touchReleased := r\<rparr>)" using feed_idle [OF assms(4)] by blast
  obtain f1 where 1: "calib_feed (x1, y1, z1) (a\<lparr>touchReleased := r\<rparr>) = Some (False, a\<lparr>touchReleased := False,
      calibPoint := 1, scr_1 := tp_of x1 y1, fbmem := f1, releaseNeeded := True\<rparr>)" (is "_ = Some (False, ?a1)")
    using feed_press(1) [of z1 "a\<lparr>touchReleased := r\<rparr>" x1 y1] assms by auto
  obtain f2 where 2: "calib_feed (x2, y2, z2) (?a1\<lparr>touchReleased := True\<rparr>) = Some (False, ?a1\<lparr>touchReleased := False,
      calibPoint := 2, scr_2 := tp_of x2 y2, fbmem := f2, releaseNeeded := True\<rparr>)" (is "_ = Some (False, ?a2)")
    using feed_press(2) [of z2 "?a1\<lparr>touchReleased := True\<rparr>" x2 y2] assms by auto
  obtain b where 3: "calib_feed (x3, y3, z3) (?a2\<lparr>touchReleased := True\<rparr>) = Some (True, b)"
    "touch_st b = touch_calibrate refPoint1 refPoint2 refPoint3 (tp_of x1 y1) (tp_of x2 y2) (tp_of x3 y3) (touch_st a)"
    using feed_press(3) [of z3 "?a2\<lparr>touchReleased := True\<rparr>" x3 y3] assms by auto
  have g1: "feed_all (h1 @ i2 @ ts) ?a1 = feed_all ts (?a1\<lparr>touchReleased := True\<rparr>)" for ts
    by (rule feed_gap) (use assms in simp_all)
  have g2: "feed_all (h2 @ i3) ?a2 = Some (False, ?a2\<lparr>touchReleased := True\<rparr>)"
    using feed_gap [of h2 i3 ?a2 "[]"] assms by simp
  have "feed_all (i1 @ (x1, y1, z1) # h1 @ i2 @ (x2, y2, z2) # h2 @ i3) a = Some (False, ?a2\<lparr>touchReleased := True\<rparr>)"
    unfolding feed_append [OF 0] feed_all.simps(2) 1 bind.bind_lunit prod.case if_False g1 2 g2 by (rule refl)
  then show ?thesis using 3 by blast
qed

section \<open>Samples of a port\<close>

text \<open>What \<open>touch_xyz\<close> makes of the words a port answers, from the \<open>d\<close>-th on: four channels of three transfers.\<close>

definition channel_at :: "(nat \<Rightarrow> u16) \<Rightarrow> nat \<Rightarrow> int" where
  "channel_at ans d = uint (push_bit 8 (ucast (ucast (ans (d + 1)) :: u8)) OR ucast (ucast (ans (d + 2)) :: u8) :: u16) div 8"

definition sample_at :: "(nat \<Rightarrow> u16) \<Rightarrow> POINT \<Rightarrow> touch_state \<Rightarrow> nat \<Rightarrow> (int \<times> int \<times> int) option" where
  "sample_at ans junk t d =
     (let ix = channel_at ans d; iy = channel_at ans (d + 3); iz1 = channel_at ans (d + 6); iz2 = channel_at ans (d + 9)
      in if iz1 = 0 then None
         else let z = s32 (ix * iz2 - iz1) sdiv iz1; z = (if z > 40000 then 0 else z)
              in if calibrated t
                 then let (_, p) = getDisplayPoint junk \<lparr>px = ix, py = iy\<rparr> (storedMatrix (storedCalData t))
                      in Some (s32 (px p), s32 (py p), z)
                 else Some (ix, iy, z))"

context spi_port
begin

lemma channel_answer:
  "\<exists>s'. tp_channel xfer c s = (channel_at answer (dr_reads s), s') \<and> dr_reads s' = dr_reads s + 3"
  using spi_read_tp_value [of c s] spi_read_tp_count [of c s]
  by (simp add: tp_channel_def case_prod_beta channel_at_def)

lemma touch_xyz_sample:
  "sample_at answer junk t (dr_reads s) = Some xyz \<Longrightarrow>
   \<exists>s'. touch_xyz xfer junk t s = Some (xyz, s') \<and> dr_reads s' = dr_reads s + 12"
proof -
  assume a: "sample_at answer junk t (dr_reads s) = Some xyz"
  obtain s1 where 1: "tp_channel xfer (0x83 OR 0x50 OR 0x00) s = (channel_at answer (dr_reads s), s1)" "dr_reads s1 = dr_reads s + 3"
    using channel_answer by blast
  obtain s2 where 2: "tp_channel xfer (0x83 OR 0x10 OR 0x00) s1 = (channel_at answer (dr_reads s + 3), s2)" "dr_reads s2 = dr_reads s + 6"
    using channel_answer [of _ s1] 1(2) by fastforce
  obtain s3 where 3: "tp_channel xfer (0x83 OR 0x30 OR 0x00) s2 = (channel_at answer (dr_reads s + 6), s3)" "dr_reads s3 = dr_reads s + 9"
    using channel_answer [of _ s2] 2(2) by fastforce
  obtain s4 where 4: "tp_channel xfer (0x83 OR 0x40 OR 0x00) s3 = (channel_at answer (dr_reads s + 9), s4)" "dr_reads s4 = dr_reads s + 12"
    using channel_answer [of _ s3] 3(2) by fastforce
  have "touch_xyz xfer junk t s = Some (xyz, s4)"
    using a unfolding touch_xyz_def sample_at_def 1 2 3 4 Let_def prod.case
    by (auto split: if_splits prod.splits)
  then show ?thesis using 4(2) by blast
qed

end

text \<open>The port answers \<open>touch_xyz\<close> with the listed samples, from the \<open>d\<close>-th transfer on.\<close>

definition answers :: "(nat \<Rightarrow> u32) \<Rightarrow> POINT \<Rightarrow> touch_state \<Rightarrow> nat \<Rightarrow> (int \<times> int \<times> int) list \<Rightarrow> bool" where
  "answers rxs junk t d ss \<longleftrightarrow>
     (\<forall>k < length ss. sample_at (\<lambda>n. ucast (rxs n)) junk t (d + 12 * k) = Some (ss ! k))"

lemma answers_Nil [simp]: "answers rxs junk t d []"
  by (simp add: answers_def)

lemma answers_Cons [simp]:
  "answers rxs junk t d (s # ss) \<longleftrightarrow>
     sample_at (\<lambda>n. ucast (rxs n)) junk t d = Some s \<and> answers rxs junk t (d + 12) ss"
  unfolding answers_def length_Cons All_less_Suc2 by (simp add: add.assoc)

lemma answers_append [simp]:
  "answers rxs junk t d (ss @ ts) \<longleftrightarrow> answers rxs junk t d ss \<and> answers rxs junk t (d + 12 * length ss) ts"
  by (induction ss arbitrary: d) (simp_all add: add.assoc)

lemma touch_read_sample:
  assumes "e_fns (lcd_e E) (SpiXfer_ptr E) = SpiXfer sts rxs"
    and "sample_at (\<lambda>n. ucast (rxs n)) (stack_point E) (touch_st a) (dr_reads (lio (lcd_st a))) = Some s"
  shows "\<exists>io. touch_read E a = Some (s, a\<lparr>lcd_st := (lcd_st a)\<lparr>lio := io\<rparr>\<rparr>) \<and>
    dr_reads io = dr_reads (lio (lcd_st a)) + 12"
  using sp.touch_xyz_sample [of rxs "stack_point E" "touch_st a" "lio (lcd_st a)" s sts] assms
  by (auto simp: touch_read_def)

section \<open>The loop\<close>

text \<open>One round of the loop on a port that answers with a sample, then all rounds before the last.\<close>

lemma loop_step:
  assumes "e_fns (lcd_e E) (SpiXfer_ptr E) = SpiXfer sts rxs" "ready (\<lambda>v. v AND 0x01 = 0) (t0tcr E)"
    and "sample_at (\<lambda>n. ucast (rxs n)) (stack_point E) (touch_st a) (dr_reads (lio (lcd_st a))) = Some s"
    and "calib_feed s a = Some (d, b)"
  shows "\<exists>n io. calib_loop E a = (if d then Some (with_hw n ((lcd_st a)\<lparr>lio := io\<rparr>) b)
      else calib_loop E (with_hw n ((lcd_st a)\<lparr>lio := io\<rparr>) b)) \<and> dr_reads io = dr_reads (lio (lcd_st a)) + 12"
proof -
  obtain n m where d: "delayMs (t0tcr E) (t0_reads a) 100 (sbus (lio (lcd_st a))) = Some (n, m)"
    using ready_poll [OF assms(2), of "t0_reads a"] by (auto simp: delayMs_def Let_def)
  let ?a = "with_hw n ((lcd_st a)\<lparr>lio := (lio (lcd_st a))\<lparr>sbus := m\<rparr>\<rparr>) a"
  obtain io where t: "touch_read E ?a = Some (s, with_hw n ((lcd_st a)\<lparr>lio := io\<rparr>) a)"
    "dr_reads io = dr_reads (lio (lcd_st a)) + 12"
    using touch_read_sample [OF assms(1), of ?a s] assms(3) by auto
  have "calib_loop E a = (if d then Some (with_hw n ((lcd_st a)\<lparr>lio := io\<rparr>) b)
      else calib_loop E (with_hw n ((lcd_st a)\<lparr>lio := io\<rparr>) b))"
    by (subst calib_loop.simps) (simp add: calib_wait_def d t(1) calib_feed_hw assms(4))
  then show ?thesis using t(2) by blast
qed

lemma loop_feeds:
  assumes "e_fns (lcd_e E) (SpiXfer_ptr E) = SpiXfer sts rxs" "ready (\<lambda>v. v AND 0x01 = 0) (t0tcr E)"
    and "answers rxs (stack_point E) (touch_st a) (dr_reads (lio (lcd_st a))) ss" "feed_all ss a = Some (False, b)"
  shows "\<exists>n io. calib_loop E a = calib_loop E (with_hw n ((lcd_st a)\<lparr>lio := io\<rparr>) b) \<and>
    dr_reads io = dr_reads (lio (lcd_st a)) + 12 * length ss"
  using assms(3,4)
proof (induction ss arbitrary: a b)
  case Nil
  then have "b = with_hw (t0_reads a) ((lcd_st a)\<lparr>lio := lio (lcd_st a)\<rparr>) b" by simp
  with Nil show ?case by (intro exI [of _ "t0_reads a"] exI [of _ "lio (lcd_st a)"]) simp
next
  case (Cons s ss)
  obtain a' where f: "calib_feed s a = Some (False, a')" "feed_all ss a' = Some (False, b)"
    using Cons.prems(2) by (auto simp: bind_eq_Some_conv split: if_splits)
  obtain n io where l: "calib_loop E a = calib_loop E (with_hw n ((lcd_st a)\<lparr>lio := io\<rparr>) a')"
    "dr_reads io = dr_reads (lio (lcd_st a)) + 12"
    using loop_step [OF assms(1,2) _ f(1)] Cons.prems(1) by auto
  let ?a = "with_hw n ((lcd_st a)\<lparr>lio := io\<rparr>) a'"
  have "answers rxs (stack_point E) (touch_st ?a) (dr_reads (lio (lcd_st ?a))) ss"
    using Cons.prems(1) calib_feed_keeps(5) [OF f(1)] l(2) by simp
  moreover have "feed_all ss ?a = Some (False, with_hw n ((lcd_st a)\<lparr>lio := io\<rparr>) b)" using f(2) by (simp add: feed_all_hw)
  ultimately obtain n' io' where "calib_loop E ?a = calib_loop E (with_hw n' ((lcd_st ?a)\<lparr>lio := io'\<rparr>)
      (with_hw n ((lcd_st a)\<lparr>lio := io\<rparr>) b))" "dr_reads io' = dr_reads (lio (lcd_st ?a)) + 12 * length ss"
    using Cons.IH [of ?a] by blast
  then show ?case using l by (intro exI [of _ n'] exI [of _ io']) simp
qed

text \<open>
  Calibration takes three separate touches: if the panel is idle, touched (and held), released,
  touched, released and touched again, the loop of calibrateStart returns after exactly that last
  sample, and the panel is calibrated with the first sample of each touch for the three marked
  points. Of the drivers' state only the port has changed.
\<close>
lemma loop_three_touches:
  assumes "e_fns (lcd_e E) (SpiXfer_ptr E) = SpiXfer sts rxs" "ready (\<lambda>v. v AND 0x01 = 0) (t0tcr E)"
    and "calib_win (win1 a)" "calibPoint a = 0" "\<not> releaseNeeded a"
    and "idle i1" "held h1" "idle i2" "i2 \<noteq> []" "held h2" "idle i3" "i3 \<noteq> []" "z1 \<noteq> 0" "z2 \<noteq> 0" "z3 \<noteq> 0"
    and "ss = i1 @ (x1, y1, z1) # h1 @ i2 @ (x2, y2, z2) # h2 @ i3 @ [(x3, y3, z3)]"
    and "answers rxs (stack_point E) (touch_st a) (dr_reads (lio (lcd_st a))) ss"
  shows "\<exists>b io. calib_loop E a = Some b \<and>
    touch_st b = touch_calibrate refPoint1 refPoint2 refPoint3 (tp_of x1 y1) (tp_of x2 y2) (tp_of x3 y3) (touch_st a) \<and>
    still (win1 b) = still (win1 a) \<and> firstRun b = firstRun a \<and> dev_lcd b = dev_lcd a \<and>
    lcd_st b = (lcd_st a)\<lparr>lio := io\<rparr> \<and> dr_reads io = dr_reads (lio (lcd_st a)) + 12 * length ss"
proof -
  define ps where "ps = i1 @ (x1, y1, z1) # h1 @ i2 @ (x2, y2, z2) # h2 @ i3"
  have ss: "ss = ps @ [(x3, y3, z3)]" by (simp add: ps_def assms(16))
  obtain c b where f: "feed_all ps a = Some (False, c)" "calib_feed (x3, y3, z3) c = Some (True, b)"
    "touch_st b = touch_calibrate refPoint1 refPoint2 refPoint3 (tp_of x1 y1) (tp_of x2 y2) (tp_of x3 y3) (touch_st a)"
    using feed_three [OF assms(3-15)] unfolding ps_def by blast
  obtain n io where l: "calib_loop E a = calib_loop E (with_hw n ((lcd_st a)\<lparr>lio := io\<rparr>) c)"
    "dr_reads io = dr_reads (lio (lcd_st a)) + 12 * length ps"
    using loop_feeds [OF assms(1,2) _ f(1)] assms(17) by (auto simp: ss)
  let ?c = "with_hw n ((lcd_st a)\<lparr>lio := io\<rparr>) c"
  have "calib_feed (x3, y3, z3) ?c = Some (True, with_hw n ((lcd_st a)\<lparr>lio := io\<rparr>) b)"
    using f(2) by (simp add: calib_feed_hw)
  moreover have "sample_at (\<lambda>n. ucast (rxs n)) (stack_point E) (touch_st ?c) (dr_reads (lio (lcd_st ?c))) = Some (x3, y3, z3)"
    using assms(17) feed_all_keeps [OF f(1)] l(2) by (simp add: ss)
  ultimately obtain n' io' where "calib_loop E ?c = Some (with_hw n' ((lcd_st ?c)\<lparr>lio := io'\<rparr>) (with_hw n ((lcd_st a)\<lparr>lio := io\<rparr>) b))"
    "dr_reads io' = dr_reads (lio (lcd_st ?c)) + 12"
    using loop_step [OF assms(1,2), of ?c] by fastforce
  then show ?thesis
    using l f(3) feed_all_keeps [OF f(1)] calib_feed_keeps [OF f(2)] calib_feed_still [OF f(2)] assms(3)
    by (intro exI [of _ "with_hw n' ((lcd_st ?c)\<lparr>lio := io'\<rparr>) (with_hw n ((lcd_st a)\<lparr>lio := io\<rparr>) b)"] exI [of _ io'])
      (simp add: ss)
qed

end
