(* ===== verification/Calib_Quiet.thy ===== *)
theory Calib_Quiet
  imports Calib_App
begin

text \<open>
  What the calibration of \<open>Calib_App\<close> leaves alone: it prints nothing on the serial port, and once it has
  set up the SPI port for the touch screen it does not change that set-up. The lemmas say so of the
  values stored to three registers, whenever the routines return.
\<close>

definition kept_regs :: "u32 set" where
  "kept_regs = {U0THR, S0SPCCR, S0SPCR}"

abbreviation kept :: "u32 \<Rightarrow> calib_app \<Rightarrow> u32 list" where
  "kept a s \<equiv> stores_at a (sbus (lio (lcd_st s)))"

lemma kept_wr: "a \<in> kept_regs \<Longrightarrow> b \<notin> kept_regs \<Longrightarrow> stores_at a (wr b v m) = stores_at a m"
  by (auto simp: stores_at_wr)

lemma kept_log: "wlog m' = wlog m @ l \<Longrightarrow> a \<in> kept_regs \<Longrightarrow> \<forall>p \<in> set l. fst p \<notin> kept_regs \<Longrightarrow> stores_at a m' = stores_at a m"
  by (rule stores_at_log) auto

section \<open>The SPI port's users\<close>

context spi_port
begin

lemma tp_channel_kept: "a \<in> kept_regs \<Longrightarrow> stores_at a (sbus (snd (tp_channel xfer c s))) = stores_at a (sbus s)"
  unfolding tp_channel_def case_prod_beta Let_def snd_conv
  by (rule kept_log [OF spi_read_tp_log]) (simp_all add: kept_regs_def)

lemma touch_xyz_kept:
  assumes "touch_xyz xfer j t s = Some (p, s')" "a \<in> kept_regs"
  shows "stores_at a (sbus s') = stores_at a (sbus s)"
  using assms tp_channel_kept
  by (auto simp: touch_xyz_def case_prod_beta Let_def split: if_splits)

lemma write_regs_kept:
  assumes "a \<in> kept_regs"
  shows "stores_at a (sbus (fst (write_regs xfer rs (s, n)))) = stores_at a (sbus s)"
  using assms by (rule kept_log [OF write_regs_log]) (auto simp: frame_def kept_regs_def)

lemma mdelay_kept:
  assumes "mdelay tcr d x = Some y" "a \<in> kept_regs"
  shows "stores_at a (sbus (fst y)) = stores_at a (sbus (fst x))"
proof -
  obtain s n where x: "x = (s, n)" by (cases x)
  have "wlog (sbus (fst y)) = wlog (sbus s) @ timer_log d"
    using assms(1) by (auto simp: x mdelay_def bind_eq_Some_conv mmio_simps timer_log_def Let_def)
  from kept_log [OF this assms(2)] show ?thesis by (simp add: x timer_log_def kept_regs_def)
qed

lemma display_init_kept:
  assumes "lcd_display_init xfer tcr x = Some y" "a \<in> kept_regs"
  shows "stores_at a (sbus (fst y)) = stores_at a (sbus (fst x))"
proof -
  have w: "stores_at a (sbus (fst (write_regs xfer rs z))) = stores_at a (sbus (fst z))" for rs z
    using write_regs_kept [OF assms(2)] by (cases z) simp
  show ?thesis
    using assms(1) mdelay_kept [OF _ assms(2)] w
    unfolding lcd_display_init_def bind_eq_Some_conv by (metis option.inject)
qed

end

section \<open>The display\<close>

lemma cmd_enum:
  "enum_of lcd_cmd_enum 20 = Some LCD_SET_SPIFUNC" "enum_of lcd_cmd_enum 0 = Some LCD_SET_BUFFER"
  "enum_of lcd_cmd_enum 3 = Some LCD_ENABLE" "enum_of lcd_cmd_enum 2 = Some LCD_PWR_ON"
  "enum_of lcd_cmd_enum 6 = Some LCD_CRSR_SIZE" "enum_of lcd_cmd_enum 5 = Some LCD_CRSR_NUM"
  "enum_of lcd_cmd_enum 1 = Some LCD_CRSR_SET_BUFFER" "enum_of lcd_cmd_enum 4 = Some LCD_CRSR_ENABLE"
  "enum_of lcd_cmd_enum 17 = Some LCD_CRSR_XY"
  by (simp_all add: enum_of_def lcd_cmd_enum_def)

lemma kept_let:
  "stores_at a x = S \<Longrightarrow> (\<And>m. stores_at a m = S \<Longrightarrow> stores_at a (h m) = S) \<Longrightarrow> stores_at a (Let x h) = S"
  by (simp add: Let_def)

lemma gpio_kept:
  assumes "a \<in> kept_regs"
  shows "stores_at a (lcd_configure_gpio m) = stores_at a m"
proof -
  consider "a = U0THR" | "a = S0SPCCR" | "a = S0SPCR" using assms by (auto simp: kept_regs_def)
  then show ?thesis
    unfolding lcd_configure_gpio_def
    by cases (intro kept_let; simp add: stores_at_wr wr_or_def)+
qed

lemma lcd_open_kept:
  assumes "lcd_open E b p s = (opened, s')" "a \<in> kept_regs"
  shows "stores_at a (sbus (lio s')) = stores_at a (sbus (lio s))" "opened \<Longrightarrow> lcd_init (lcdcfg s')"
proof -
  have "snd (snd (lcd_initialize c r m)) = wr 0xE01FC1B8 0 (wr_or 0xE01FC0C4 0x00100000 m)" for c r m
    by (simp add: lcd_initialize_def Let_def)
  then have "stores_at a (lcd_configure_gpio (snd (snd (lcd_initialize c r m)))) = stores_at a m" for c r m
    using assms(2) by (auto simp: gpio_kept wr_or_def stores_at_wr kept_regs_def)
  then show "stores_at a (sbus (lio s')) = stores_at a (sbus (lio s))" "opened \<Longrightarrow> lcd_init (lcdcfg s')"
    using assms(1) by (auto simp: lcd_open_def Let_def case_prod_beta split: if_splits)
qed

lemma open_lcd_kept:
  assumes "open_lcd E s = Some (st, s')" "e_fns (lcd_e E) (SpiXfer_ptr E) = SpiXfer sts rxs" "a \<in> kept_regs"
  shows "stores_at a (sbus (lio s')) = stores_at a (sbus (lio s))"
proof -
  obtain op s1 where o: "lcd_open (lcd_e E) LCD_BASE (display_ptr E) s = (op, s1)" by fastforce
  note k = lcd_open_kept [OF o assms(3)]
  show ?thesis
  proof (cases op)
    case True
    then show ?thesis
      using assms(1,2) o k sp.display_init_kept [OF _ assms(3), of sts rxs]
      by (auto simp: open_lcd_def lcd_ioctl_def cmd_enum reg_cmd_def on_off_def pwr_on_def Let_def bind_eq_Some_conv
          split: if_splits)
  qed (use assms(1) o k in \<open>simp add: open_lcd_def\<close>)
qed

section \<open>The calibration\<close>

lemma touch_read_kept:
  assumes "touch_read E s = Some (p, s')" "e_fns (lcd_e E) (SpiXfer_ptr E) = SpiXfer sts rxs" "a \<in> kept_regs"
  shows "kept a s' = kept a s"
  using assms sp.touch_xyz_kept [OF _ assms(3), of sts rxs]
  by (auto simp: touch_read_def bind_eq_Some_conv)

lemma calib_wait_kept:
  assumes "calib_wait E s = Some s'" "a \<in> kept_regs"
  shows "kept a s' = kept a s"
  using assms
  by (auto simp: calib_wait_def delayMs_def Let_def bind_eq_Some_conv stores_at_wr kept_regs_def)

lemma calib_loop_kept:
  assumes "calib_loop E s = Some s'" "e_fns (lcd_e E) (SpiXfer_ptr E) = SpiXfer sts rxs" "a \<in> kept_regs"
  shows "kept a s' = kept a s"
proof -
  have "e_fns (lcd_e E) (SpiXfer_ptr E) = SpiXfer sts rxs \<longrightarrow> kept a s' = kept a s"
    using assms(1)
  proof (rule calib_loop.raw_induct [rotated])
    fix f :: "app_env \<Rightarrow> calib_app \<Rightarrow> calib_app option" and E s s'
    assume IH: "\<And>E s s'. f E s = Some s' \<Longrightarrow> e_fns (lcd_e E) (SpiXfer_ptr E) = SpiXfer sts rxs \<longrightarrow> kept a s' = kept a s"
    assume "do { b \<leftarrow> calib_wait E s; (xyz, b) \<leftarrow> touch_read E b; (calibrated, b) \<leftarrow> calib_feed xyz b;
      if calibrated then Some b else f E b } = Some s'"
    then show "e_fns (lcd_e E) (SpiXfer_ptr E) = SpiXfer sts rxs \<longrightarrow> kept a s' = kept a s"
      using calib_wait_kept [OF _ assms(3)] touch_read_kept [OF _ _ assms(3)] calib_feed_keeps(2) IH
      by (auto simp: bind_eq_Some_conv split: if_splits)
  qed
  then show ?thesis using assms(2) by blast
qed

lemma drawCalibPoint_lcd: "drawCalibPoint p s = Some s' \<Longrightarrow> lcd_st s' = lcd_st s"
  by (auto simp: drawCalibPoint_def Let_def bind_eq_Some_conv)

lemma init_lcd_lcd: "init_lcd E s = Some s' \<Longrightarrow> lcd_st s' = lcd_st s"
  by (auto simp: init_lcd_def put_str_at_def Let_def case_prod_beta bind_eq_Some_conv)

lemma SPIInit_kept:
  "SPIInit w n p q l m = Some m' \<Longrightarrow> stores_at U0THR m' = stores_at U0THR m"
  "SPIInit 2500 8 0 0 0 m = Some m' \<Longrightarrow> stores_at S0SPCCR m' = stores_at S0SPCCR m @ [12] \<and>
     stores_at S0SPCR m' = stores_at S0SPCR m @ [0, 0x820]"
  by (auto simp: SPIInit_def Let_def stores_at_wr wr_or_def spi_divisor_def s16_def split: option.splits)

text \<open>Nothing printed, and the port set up for the touch screen at the end.\<close>

lemma calibrate_kept:
  assumes "calibrate_with opn E s = Some s'" "e_fns (lcd_e E) (SpiXfer_ptr E) = SpiXfer sts rxs"
  shows "(\<And>l st l'. opn E l = Some (st, l') \<Longrightarrow> stores_at U0THR (sbus (lio l')) = stores_at U0THR (sbus (lio l))) \<Longrightarrow>
      kept U0THR s' = kept U0THR s"
    and "last (kept S0SPCCR s') = 12 \<and> last (kept S0SPCR s') = 0x820"
proof -
  let ?s = "s\<lparr>releaseNeeded := False, calibPoint := 0\<rparr>"
  let ?t = "\<lambda>m b. (set_sbus m b)\<lparr>lcd_st := (lcd_st (set_sbus m b))\<lparr>lio := touch_init (lio (lcd_st (set_sbus m b)))\<rparr>\<rparr>"
  obtain m0 st l b m c x y z d where 1: "SPIInit 5000 8 0 1 0 (sbus (lio (lcd_st ?s))) = Some m0"
    "opn E (lcd_st (set_sbus m0 ?s)) = Some (st, l)" "init_lcd E (?s\<lparr>lcd_st := l, dev_lcd := (st = 0)\<rparr>) = Some b"
    "SPIInit 2500 8 0 0 0 (sbus (lio (lcd_st b))) = Some m" "drawCalibPoint refPoint1 (?t m b) = Some c"
    "touch_read E c = Some ((x, y, z), d)" "calib_loop E d = Some s'"
    using assms(1) unfolding calibrate_with_def Let_def bind_eq_Some_conv split_paired_Ex prod.case by blast
  have k: "kept a s' = stores_at a m" if a: "a \<in> kept_regs" for a
  proof -
    have "kept a (?t m b) = stores_at a m"
      using a by (auto simp: touch_init_def set_sbus_def wr_or_def stores_at_wr kept_regs_def)
    then show ?thesis
      using drawCalibPoint_lcd [OF 1(5)] touch_read_kept [OF 1(6) assms(2) a] calib_loop_kept [OF 1(7) assms(2) a]
      by simp
  qed
  show "last (kept S0SPCCR s') = 12 \<and> last (kept S0SPCR s') = 0x820"
    using k [of S0SPCCR] k [of S0SPCR] SPIInit_kept(2) [OF 1(4)] by (simp add: kept_regs_def)
  assume q: "\<And>l st l'. opn E l = Some (st, l') \<Longrightarrow> stores_at U0THR (sbus (lio l')) = stores_at U0THR (sbus (lio l))"
  have "kept U0THR s' = stores_at U0THR (sbus (lio l))"
    using k [of U0THR] SPIInit_kept(1) [OF 1(4)] init_lcd_lcd [OF 1(3)] by (simp add: kept_regs_def)
  then show "kept U0THR s' = kept U0THR s"
    using q [OF 1(2)] SPIInit_kept(1) [OF 1(1)] by (simp add: set_sbus_def)
qed

end
