(* ===== verification/Swim_Lines.thy ===== *)
theory Swim_Lines
  imports Swim
begin

text \<open>
  Properties of the SWIM line routines (clipping, orientation, degenerate lines) and of opening a
  window, over the definitions of \<open>Swim\<close>.
\<close>

section \<open>Clipped lines\<close>

lemma line_loop_clipped:
  "\<exists>l. plog (line_loop win inb line pe x1 y1 xinc yinc f) = plog f @ l \<and>
     (\<forall>(a, c) \<in> set l. c = pen win \<and> (\<exists>x y. inb x y \<and> a = offs win x y))"
proof (induction win inb line pe x1 y1 xinc yinc f rule: line_loop.induct)
  case (1 win inb line pe x1 y1 xinc yinc f)
  let ?x = "x1 sdiv xpsize win" and ?y = "y1 sdiv ypsize win"
  show ?case
  proof (cases "line \<le> pe \<and> inb ?x ?y")
    case True
    let ?f = "pset (offs win ?x ?y) (pen win) f"
    from "1.IH" [of ?x ?y] True obtain l where
      "plog (line_loop win inb (line + 1) pe (s32 (x1 + xinc)) (s32 (y1 + yinc)) xinc yinc ?f) = plog ?f @ l"
      "\<forall>(a, c) \<in> set l. c = pen win \<and> (\<exists>x y. inb x y \<and> a = offs win x y)" by blast
    then show ?thesis using True
      by (subst line_loop.simps)
        (auto simp: Let_def pset_def intro!: exI [of _ "(offs win ?x ?y, pen win) # l"])
  next
    case False
    then show ?thesis by (subst line_loop.simps) (auto simp: Let_def)
  qed
qed

lemma put_line_stores:
  assumes "win_ok win" "(x1, y1) \<noteq> (x2, y2)"
    and "\<forall>v \<in> {x1, x2, y1, y2}. - (2 ^ 30) < v \<and> v < 2 ^ 30"
    and "xpvmin win \<le> 32767" "ypvmin win \<le> 32767"
  shows "\<exists>f' l. swim_put_line win x1 y1 x2 y2 f = Some f' \<and> plog f' = plog f @ l \<and>
    (\<forall>(a, c) \<in> set l. c = pen win \<and>
       a \<in> rect win (xpvmin win) (ypvmin win) (xpvmax win) (ypvmax win))"
proof -
  have w: "0 < xpsize win" "0 < ypsize win" "0 \<le> xpvmin win" "0 \<le> ypvmin win" "ypvmax win < ypsize win"
    using assms(1) by (simp_all add: win_ok_def)
  obtain xa xb ya yb where s: "swap_le x1 x2 = (xa, xb)" "swap_le y1 y2 = (ya, yb)" by fastforce
  have o: "xa \<le> xb" "ya \<le> yb" "(xa, ya) \<noteq> (xb, yb)" "\<forall>v \<in> {xa, xb, ya, yb}. - (2 ^ 30) < v \<and> v < 2 ^ 30"
    using s assms(2,3) by (auto simp: swap_le_def split: if_splits)
  have e: "s32 (v + xpvmin win) = v + xpvmin win" "s32 (v + ypvmin win) = v + ypvmin win"
    if "- (2 ^ 30) < v" "v < 2 ^ 30" for v using that w assms(1,4,5) by (simp_all add: s32_id)
  have dx: "s32 (xb - xa) = xb - xa" "s32 (yb - ya) = yb - ya" using o by (simp_all add: s32_id)
  have "\<exists>f'. line_steps win (in_draw win) (xa + xpvmin win) (ya + ypvmin win) (xb + xpvmin win) (yb + ypvmin win) f = Some f' \<and>
      (\<exists>l. plog f' = plog f @ l \<and> (\<forall>(a, c) \<in> set l. c = pen win \<and> (\<exists>x y. in_draw win x y \<and> a = offs win x y)))"
    using w o dx line_loop_clipped by (auto simp: line_steps_def Let_def)
  then obtain f' l where f': "line_steps win (in_draw win) (xa + xpvmin win) (ya + ypvmin win) (xb + xpvmin win) (yb + ypvmin win) f = Some f'"
    "plog f' = plog f @ l" "\<forall>(a, c) \<in> set l. c = pen win \<and> (\<exists>x y. in_draw win x y \<and> a = offs win x y)" by blast
  have "swim_put_line win x1 y1 x2 y2 f = Some f'"
    using f'(1) o dx by (auto simp: swim_put_line_def s e Let_def)
  moreover have "\<forall>(a, c) \<in> set l. c = pen win \<and> a \<in> rect win (xpvmin win) (ypvmin win) (xpvmax win) (ypvmax win)"
    using f'(3) w by (fastforce simp: rect_def in_draw_def offs_eq [OF assms(1)])
  ultimately show ?thesis using f'(2) by blast
qed

text \<open>
  C28 swim_put_line between two different points with coordinates of a magnitude below 2^30 returns and
  stores only the pen colour, and only inside the window's draw area, wherever the end points are.
\<close>
theorem put_line_clipped:
  assumes "win_ok win" "(x1, y1) \<noteq> (x2, y2)"
    and "\<forall>v \<in> {x1, x2, y1, y2}. - (2 ^ 30) < v \<and> v < 2 ^ 30"
    and "xpvmin win \<le> 32767" "ypvmin win \<le> 32767"
  shows "\<exists>f' l. swim_put_line win x1 y1 x2 y2 f = Some f' \<and> plog f' = plog f @ l \<and>
    (\<forall>(a, c) \<in> set l. c = pen win \<and>
       a \<in> rect win (xpvmin win) (ypvmin win) (xpvmax win) (ypvmax win))"
  by (rule put_line_stores [OF assms])

text \<open>
  Some bound is needed: the difference of the coordinates can wrap around to a value below zero, and
  then the other difference is taken as the divisor even if it is zero.
\<close>
lemma put_line_wraps:
  assumes "0 \<le> xpvmin win" "xpvmin win \<le> 32767"
  shows "swim_put_line win (- 2147483648) y 2147483647 y f = None"
proof -
  have 1: "s32 (- 2147483648 + xpvmin win) = - 2147483648 + xpvmin win" using assms by (simp add: s32_id)
  have "s32 (2147483647 + xpvmin win) = (if xpvmin win = 0 then 2147483647 else - 2147483649 + xpvmin win)"
  proof (cases "xpvmin win = 0")
    case False
    have "s32 (2147483647 + xpvmin win) = s32 (- 2147483649 + xpvmin win)"
      unfolding s32_def by (subst signed_take_bit_eq_iff_take_bit_eq) (simp add: take_bit_eq_mod mod_eq_dvd_iff)
    then show ?thesis using False assms by (simp add: s32_id)
  qed (simp add: s32_id)
  moreover have "s32 4294967295 = - 1" by code_simp
  ultimately have d: "s32 (s32 (2147483647 + xpvmin win) - s32 (- 2147483648 + xpvmin win)) = - 1"
    unfolding 1 by (simp add: s32_id)
  show ?thesis
    using d s32_id [of 0] by (simp add: swim_put_line_def swap_le_def line_steps_def Let_def)
qed

text \<open>
  swim_put_line orders its x and its y coordinates independently, so it cannot draw a line that
  falls from left to right: exchanging the two y coordinates gives the same pixels, and both calls
  draw the rising diagonal.
\<close>
theorem put_line_mirrored:
  "swim_put_line win x1 y2 x2 y1 f = swim_put_line win x1 y1 x2 y2 f \<and>
   swim_put_line_raw win x1 y2 x2 y1 f = swim_put_line_raw win x1 y1 x2 y2 f"
proof -
  have "swap_le y2 y1 = swap_le y1 y2" by (auto simp: swap_le_def)
  then show ?thesis by (simp add: swim_put_line_def swim_put_line_raw_def)
qed

text \<open>
  A box or a frame line that clips to a single pixel divides by zero: swim_put_line_raw has no case
  for equal end points, so it does not return for them, and a box one pixel wide does not return
  either.
\<close>
theorem put_line_raw_point: "swim_put_line_raw win x y x y f = None"
  by (simp add: swim_put_line_raw_def swap_le_def line_steps_def Let_def s32_def)

section \<open>Opening a window\<close>

lemma paints_bind_fold:
  assumes "\<And>x f. x \<in> set xs \<Longrightarrow> \<exists>f'. g x f = Some f' \<and> paints (A x) c f f'"
  shows "\<exists>f'. fold (\<lambda>x fo. Option.bind fo (g x)) xs (Some f) = Some f' \<and> paints (\<Union>x \<in> set xs. A x) c f f'"
  using assms
proof (induction xs arbitrary: f)
  case (Cons x xs)
  obtain f1 where 1: "g x f = Some f1" "paints (A x) c f f1" using Cons.prems by (meson list.set_intros(1))
  obtain f2 where "fold (\<lambda>x fo. Option.bind fo (g x)) xs (Some f1) = Some f2" "paints (\<Union>x \<in> set xs. A x) c f1 f2"
    using Cons.IH [of f1] Cons.prems by auto
  with 1 paints_trans [OF 1(2)] show ?case by auto
qed simp

lemma frames_cover:
  fixes xmin :: int
  assumes "xmin + b \<le> xmax - b" "ymin + b \<le> ymax - b"
  shows "(\<exists>i \<in> {0 .. b - 1}. (xmin + i \<le> x \<and> x \<le> xmax - i \<and> ymin + i \<le> y \<and> y \<le> ymax - i \<and>
       (x = xmin + i \<or> x = xmax - i \<or> y = ymin + i \<or> y = ymax - i))) =
     (xmin \<le> x \<and> x \<le> xmax \<and> ymin \<le> y \<and> y \<le> ymax \<and>
      \<not> (xmin + b \<le> x \<and> x \<le> xmax - b \<and> ymin + b \<le> y \<and> y \<le> ymax - b))" (is "?L = ?R")
proof
  assume ?R
  let ?i = "min (min (x - xmin) (xmax - x)) (min (y - ymin) (ymax - y))"
  show ?L by (rule bexI [of _ ?i]) (use \<open>?R\<close> in \<open>auto simp: min_def split: if_splits\<close>)
qed (use assms in auto)

lemma window_frame_paints:
  assumes "win_ok win" "0 \<le> xmin" "xmax < xpsize win" "0 \<le> ymin" "ymax < ypsize win"
    and "0 \<le> i" "xmin + i < xmax - i" "ymin + i < ymax - i"
  shows "\<exists>f'. window_frame win xmin ymin xmax ymax i f = Some f' \<and>
    paints (edges win (xmin + i) (ymin + i) (xmax - i) (ymax - i)) (pen win) f f'"
proof -
  have r: "0 \<le> xmin + i" "xmax - i < xpsize win" "0 \<le> ymin + i" "ymax - i < ypsize win"
    using assms by linarith+
  show ?thesis
    using put_edges [OF assms(1) r(1) assms(7) r(2,3) assms(8) r(4), of f] by (auto simp: window_frame_def)
qed

lemma window_open_paints:
  assumes "0 \<le> xmin" "xmax < xsize" "0 \<le> ymin" "ymax < ysize" "xsize \<le> 32767" "ysize \<le> 32767"
    and "0 \<le> b" "xmin + b \<le> xmax - b" "ymin + b \<le> ymax - b"
  shows "\<exists>win' f'. swim_window_open helvr win xsize ysize fbaddr xmin ymin xmax ymax b pc bc fc f = Some (True, win', f') \<and>
    win_ok win' \<and> xvpos win' = xmin + b \<and> yvpos win' = ymin + b \<and>
    xvsize win' = xpvmax win' - xpvmin win' \<and> yvsize win' = ypvmax win' - ypvmin win' \<and>
    xpvmin win' = xmin + b \<and> xpvmax win' = xmax - b \<and> ypvmin win' = ymin + b \<and> ypvmax win' = ymax - b \<and>
    (\<forall>x y. 0 \<le> x \<and> x < xsize \<and> 0 \<le> y \<and> y < ysize \<longrightarrow>
       pix f' (x + y * xsize) =
         (if xmin + b \<le> x \<and> x \<le> xmax - b \<and> ymin + b \<le> y \<and> y \<le> ymax - b then bc
          else if xmin \<le> x \<and> x \<le> xmax \<and> ymin \<le> y \<and> y \<le> ymax then pc
          else pix f (x + y * xsize)))"
proof -
  define w where "w = win\<lparr>xpsize := xsize, ypsize := ysize, fb := fbaddr,
      xpmin := xmin, ypmin := ymin, xpmax := xmax, ypmax := ymax,
      pen := pc, bkg := bc, fill := fc, xpvmin := s32 (xmin + b), ypvmin := s32 (ymin + b),
      xpvmax := s32 (xmax - b), ypvmax := s32 (ymax - b), xvsize := s32 (xmax - xmin - 2 * b),
      yvsize := s32 (ymax - ymin - 2 * b)\<rparr>"
  have s: "s32 (xmin + b) = xmin + b" "s32 (ymin + b) = ymin + b" "s32 (xmax - b) = xmax - b" "s32 (ymax - b) = ymax - b"
    "s32 (xmax - xmin - 2 * b) = xmax - xmin - 2 * b" "s32 (ymax - ymin - 2 * b) = ymax - ymin - 2 * b"
    using assms by (simp_all add: s32_small)
  have ok: "win_ok w" and ws: "xpsize w = xsize" "ypsize w = ysize" "pen w = pc" "xpvmin w = xmin + b"
    "ypvmin w = ymin + b" "xpvmax w = xmax - b" "ypvmax w = ymax - b"
    "xvsize w = xmax - b - (xmin + b)" "yvsize w = ymax - b - (ymin + b)"
    using assms s by (simp_all add: w_def win_ok_def)
  let ?E = "\<lambda>i. edges w (xmin + i) (ymin + i) (xmax - i) (ymax - i)"
  have "\<exists>f'. window_frame w xmin ymin xmax ymax i g = Some f' \<and> paints (?E i) pc g f'" if "i \<in> set [0 .. b - 1]" for i g
    using window_frame_paints [OF ok, of xmin xmax ymin ymax i g] that assms ws by auto
  from paints_bind_fold [of "[0 .. b - 1]" "window_frame w xmin ymin xmax ymax" ?E pc f, OF this]
  obtain f1 where f1: "fold (\<lambda>i fo. Option.bind fo (window_frame w xmin ymin xmax ymax i)) [0 .. b - 1] (Some f) = Some f1"
    "paints (\<Union>i \<in> set [0 .. b - 1]. ?E i) pc f f1" by blast
  have c: "paints (rect w (xmin + b) (ymin + b) (xmax - b) (ymax - b)) bc f1 (swim_clear_screen w bc f1)"
    unfolding swim_clear_screen_def using ok paints_rect_cols [OF ok, of "ypvmin w" "ypvmax w" "xpvmin w" "xpvmax w" bc f1]
    by (simp add: ws win_ok_def)
  let ?w = "w\<lparr>font := helvr, xvpos := xpvmin w, yvpos := ypvmin w, tfont := 1\<rparr>"
  have "swim_window_open helvr win xsize ysize fbaddr xmin ymin xmax ymax b pc bc fc f =
      Some (True, ?w, swim_clear_screen w bc f1)"
    using assms f1(1) unfolding swim_window_open_def swim_window_open_p_def Let_def w_def [symmetric] by simp
  moreover have "win_ok ?w" using ok by (simp add: win_ok_def)
  moreover have "pix (swim_clear_screen w bc f1) (x + y * xsize) =
      (if xmin + b \<le> x \<and> x \<le> xmax - b \<and> ymin + b \<le> y \<and> y \<le> ymax - b then bc
       else if xmin \<le> x \<and> x \<le> xmax \<and> ymin \<le> y \<and> y \<le> ymax then pc else pix f (x + y * xsize))"
    if "0 \<le> x" "x < xsize" "0 \<le> y" "y < ysize" for x y
  proof -
    have e: "(x + y * xsize \<in> ?E i) = (xmin + i \<le> x \<and> x \<le> xmax - i \<and> ymin + i \<le> y \<and> y \<le> ymax - i \<and>
        (x = xmin + i \<or> x = xmax - i \<or> y = ymin + i \<or> y = ymax - i))" if "i \<in> {0 .. b - 1}" for i
      using in_edges [of x w "xmin + i" "xmax - i" "ymin + i" "ymax - i" y] that \<open>0 \<le> x\<close> \<open>x < xsize\<close> assms ws by auto
    have "(x + y * xsize \<in> (\<Union>i \<in> set [0 .. b - 1]. ?E i)) = (xmin \<le> x \<and> x \<le> xmax \<and> ymin \<le> y \<and> y \<le> ymax \<and>
        \<not> (xmin + b \<le> x \<and> x \<le> xmax - b \<and> ymin + b \<le> y \<and> y \<le> ymax - b))"
      unfolding frames_cover [OF assms(8,9), of x y, symmetric] using e by auto
    moreover have "(x + y * xsize \<in> rect w (xmin + b) (ymin + b) (xmax - b) (ymax - b)) =
        (xmin + b \<le> x \<and> x \<le> xmax - b \<and> ymin + b \<le> y \<and> y \<le> ymax - b)"
      using in_rect [of x w "xmin + b" "xmax - b" y "ymin + b" "ymax - b"] that assms ws by auto
    ultimately show ?thesis using c f1(2) assms(7) by (auto simp: paints_def)
  qed
  ultimately show ?thesis using ws by auto
qed


text \<open>
  A window that does not fit the display is refused: swim_window_open returns FALSE, marks the
  window unused and stores nothing to the frame buffer.
\<close>
theorem window_open_refused:
  assumes "xmin < 0 \<or> ymin < 0 \<or> xsize \<le> xmax \<or> ysize \<le> ymax"
  shows "swim_window_open helvr win xsize ysize fbaddr xmin ymin xmax ymax b pc bc fc f =
    Some (False, win\<lparr>winused := 0, tfont := 1\<rparr>, f)"
  using assms by (auto simp: swim_window_open_def swim_window_open_p_def)

section \<open>Concrete runs\<close>

theorem put_line_clipped_witness:
  "\<exists>f'. swim_put_line win0 0 0 500 400 fb0 = Some f'"
  using put_line_clipped [OF win0_ok, of 0 0 500 400 fb0] by (auto simp: win0_def)


theorem window_open_refused_witness:
  "swim_window_open font0 win0 240 320 0xA0000000 0 0 240 319 1 5 6 7 fb0 = Some (False, win0\<lparr>winused := 0, tfont := 1\<rparr>, fb0)"
  by (rule window_open_refused) simp

end
