(* ===== verification/Calib_Start.thy ===== *)
theory Calib_Start
  imports Calib_Quiet Swim_Lines
begin

text \<open>
  The calibration program from its start: \<open>calibrateStart\<close> of \<^verbatim>\<open>calib_app.c\<close> brings up the SPI port, the
  display and the window, and its loop then takes the three touches. The definitions are those of
  \<open>Calib_App\<close>; this theory holds the properties of the whole run.
\<close>

section \<open>Titles\<close>

lemma set_title_returns:
  assumes "win_ok win" "0 < font_height (font win)" "xpvmin win < xpvmax win"
    and "ypvmin win + font_height (font win) + 4 < ypvmax win"
    and "xvsize win = xpvmax win - xpvmin win" "font_height (font win) < 4 + yvsize win"
  shows "\<exists>win' f'. swim_set_title win (Some t) c f = Some (win', f') \<and> win_ok win' \<and> font win' = font win \<and>
    xpvmin win' = xpvmin win \<and> xpvmax win' = xpvmax win \<and> ypvmax win' = ypvmax win \<and>
    ypvmin win' = ypvmin win + font_height (font win) + 4 \<and> xpsize win' = xpsize win \<and> ypsize win' = ypsize win \<and>
    xvsize win' = xvsize win \<and> yvsize win' = yvsize win - font_height (font win) + 4 \<and> pen win' = pen win"
proof -
  let ?h = "font_height (font win)"
  have w: "0 \<le> xpvmin win" "xpvmax win \<le> 32766" "0 \<le> ypvmin win" "ypvmax win \<le> 32766"
    using assms(1) by (simp_all add: win_ok_def)
  define w1 where "w1 = win\<lparr>fill := c, bkg := c, pen := c\<rparr>"
  define w2 where "w2 = win\<lparr>xvpos := xpvmin win + 2, yvpos := ypvmin win + 1, tfont := 0\<rparr>"
  have ok1: "win_ok w1" using assms(1) by (simp add: w1_def win_ok_def)
  have v: "xpvmin w1 = xpvmin win" "xpvmax w1 = xpvmax win" "ypvmin w1 = ypvmin win" "ypvmax w1 = ypvmax win"
    by (simp_all add: w1_def)
  obtain f1 where b: "swim_put_box w1 0 0 (xpvmax win - xpvmin win) (4 + ?h - 2) f = Some f1"
  proof -
    have "\<exists>f4 f'. swim_put_box w1 0 0 (xpvmax win - xpvmin win) (4 + ?h - 2) f = Some f' \<and>
        paints (edges w1 (xpvmin win) (ypvmin win) (xpvmax win) (ypvmin win + ?h + 2)) (pen w1) f f4 \<and>
        paints (rect w1 (xpvmin win + 1) (ypvmin win + 1) (xpvmax win - 1) (ypvmin win + ?h + 2 - 1)) (fill w1) f4 f' \<and>
        0 \<le> xpvmin win \<and> xpvmax win < xpsize w1 \<and> 0 \<le> ypvmin win \<and> ypvmin win + ?h + 2 < ypsize w1"
      by (rule put_box_paints [OF ok1]) (use assms(2-4) w in \<open>simp_all add: v\<close>)
    then show thesis using that by blast
  qed
  obtain w3 f3 where t: "swim_put_text w2 t f1 = (w3, f3)" by fastforce
  have st: "still w3 = still w2" using put_text_still [of w2 t f1] t by simp
  note f = still_fields [OF st]
  define w4 where "w4 = w3\<lparr>tfont := tfont win\<rparr>"
  have g: "font w4 = font win" "xpvmin w4 = xpvmin win" "xpvmax w4 = xpvmax win" "ypvmin w4 = ypvmin win" "ypvmax w4 = ypvmax win"
    "xpsize w4 = xpsize win" "ypsize w4 = ypsize win" "xvsize w4 = xvsize win" "yvsize w4 = yvsize win" "pen w4 = pen win"
    by (simp_all add: w4_def f) (simp_all add: w2_def)
  have ok4: "win_ok w4" using assms(1) by (simp add: win_ok_def g)
  have "\<exists>f' l. swim_put_line w4 0 (4 + ?h - 1) (xpvmax w4) (4 + ?h - 1) f3 = Some f' \<and> plog f' = plog f3 @ l \<and>
    (\<forall>(a, c) \<in> set l. c = pen w4 \<and> a \<in> rect w4 (xpvmin w4) (ypvmin w4) (xpvmax w4) (ypvmax w4))"
    by (rule put_line_stores [OF ok4]) (use assms w g in auto)
  then obtain f5 where l: "swim_put_line w4 0 (4 + ?h - 1) (xpvmax w4) (4 + ?h - 1) f3 = Some f5" by blast
  let ?w = "w4\<lparr>ypmin := ypmin w4 + ?h + 4, ypvmin := ypvmin w4 + ?h + 4, yvsize := yvsize w4 - ?h + 4,
      xvpos := xpvmin w4, yvpos := ypvmin w4 + ?h + 4\<rparr>"
  have "swim_set_title win (Some t) c f = Some (?w, f5)"
    using assms b t l g(1)
    by (simp add: swim_set_title_def swim_get_font_height_def Let_def w1_def [symmetric] w2_def [symmetric])
      (simp add: w4_def)
  moreover have "win_ok ?w" using ok4 assms g by (simp add: win_ok_def)
  ultimately show ?thesis using g by auto
qed

section \<open>The display\<close>

text \<open>The window of the whole display with a title, as this program and the clock display open it.\<close>

lemma display_size: "uint (pixels_per_line LCD_DISPLAY) = 240" "uint (lines_per_panel LCD_DISPLAY) = 320"
  by (simp_all add: truly_tft_g240320ltsw_118w_e_portrait_def)

lemma window_open_fields:
  assumes "swim_window_open helvr win xsize ysize fbaddr xmin ymin xmax ymax b pc bc fc f = Some (True, win', f')"
  shows "xpsize win' = xsize" "ypsize win' = ysize"
  using assms by (auto simp: swim_window_open_def swim_window_open_p_def Let_def bind_eq_Some_conv split: if_splits)

lemma titled_window_full:
  assumes "0 < font_height fnt" "font_height fnt \<le> 32"
  obtains w1 f1 w2 f2 w3 f3 where
    "swim_window_open helvr win 240 320 EA2478_LCD_FRAME_BUF 0 0 239 319 1 LIGHTGRAY WHITE LIGHTGRAY f = Some (True, w1, f1)"
    "swim_set_font w1 fnt f1 = (w2, f2)" "swim_set_title (swim_set_pen_color w2 BLACK) (Some t) LIGHTGRAY f2 = Some (w3, f3)"
    "win_ok w3" "xpvmin w3 = 1" "xpvmax w3 = 238" "ypvmax w3 = 318" "ypvmin w3 = font_height fnt + 5"
    "xpsize w3 = 240" "ypsize w3 = 320" "xvsize w3 = 237" "yvsize w3 = 321 - font_height fnt"
proof -
  obtain w1 f1 where 1: "swim_window_open helvr win 240 320 EA2478_LCD_FRAME_BUF 0 0 239 319 1
      LIGHTGRAY WHITE LIGHTGRAY f = Some (True, w1, f1)"
    and g1: "win_ok w1" "xpvmin w1 = 1" "xpvmax w1 = 238" "ypvmin w1 = 1" "ypvmax w1 = 318" "xvsize w1 = 237" "yvsize w1 = 317"
    using window_open_paints [of 0 239 240 0 319 320 1 helvr win EA2478_LCD_FRAME_BUF LIGHTGRAY WHITE LIGHTGRAY f] by auto
  obtain w2 f2 where 2: "swim_set_font w1 fnt f1 = (w2, f2)" by fastforce
  have "still w2 = still (w1\<lparr>font := fnt\<rparr>)" using set_font_still [of w1 fnt f1] 2 by simp
  note g2 = still_fields [OF this] still_win_ok [OF this]
  let ?w = "swim_set_pen_color w2 BLACK"
  have g: "win_ok ?w" "font ?w = fnt" "xpvmin ?w = 1" "xpvmax ?w = 238" "ypvmin ?w = 1" "ypvmax ?w = 318"
    "xvsize ?w = 237" "yvsize ?w = 317" "xpsize ?w = 240" "ypsize ?w = 320"
    using g1 g2 window_open_fields [OF 1] by (simp_all add: swim_set_pen_color_def win_ok_def)
  obtain w3 f3 where 3: "swim_set_title ?w (Some t) LIGHTGRAY f2 = Some (w3, f3)"
    "win_ok w3" "xpvmin w3 = 1" "xpvmax w3 = 238" "ypvmax w3 = 318" "ypvmin w3 = font_height fnt + 5"
    "xpsize w3 = 240" "ypsize w3 = 320" "xvsize w3 = 237" "yvsize w3 = 321 - font_height fnt"
    using set_title_returns [OF g(1), of t LIGHTGRAY f2] assms by (auto simp: g)
  show thesis by (rule that [OF 1 2 3])
qed

lemma titled_window:
  assumes "0 < font_height fnt" "font_height fnt \<le> 32"
  obtains w1 f1 w2 f2 w3 f3 where
    "swim_window_open helvr win 240 320 EA2478_LCD_FRAME_BUF 0 0 239 319 1 LIGHTGRAY WHITE LIGHTGRAY f = Some (True, w1, f1)"
    "swim_set_font w1 fnt f1 = (w2, f2)" "swim_set_title (swim_set_pen_color w2 BLACK) (Some t) LIGHTGRAY f2 = Some (w3, f3)"
    "win_ok w3" "xpvmin w3 = 1" "xpvmax w3 = 238" "ypvmax w3 = 318" "ypvmin w3 = font_height fnt + 5"
  using assms by (rule titled_window_full)

text \<open>The window of the calibration: its draw area starts below the title.\<close>

definition calib_window :: "app_env \<Rightarrow> SWIM_WINDOW_T \<Rightarrow> bool" where
  "calib_window E w \<longleftrightarrow> win_ok w \<and> xpsize w = 240 \<and> ypsize w = 320 \<and> xpvmin w = 1 \<and> xpvmax w = 238 \<and>
     ypvmin w = font_height (font_winfreesys14x16 E) + 5 \<and> ypvmax w = 318 \<and> xvsize w = 237 \<and>
     yvsize w = 321 - font_height (font_winfreesys14x16 E) \<and> font w = font_rom8x16 E \<and> pen w = BLACK"

lemma calib_window_still: "still w = still v \<Longrightarrow> calib_window E w = calib_window E v"
  using still_fields [of w v] still_win_ok [of w v] by (simp add: calib_window_def)

lemma calib_window_win: "calib_window E w \<Longrightarrow> font_height (font_winfreesys14x16 E) \<le> 32 \<Longrightarrow> calib_win w"
  by (simp add: calib_window_def calib_win_def)

lemma init_lcd_returns:
  assumes "0 < font_height (font_winfreesys14x16 E)" "font_height (font_winfreesys14x16 E) \<le> 32"
  shows "\<exists>w f. init_lcd E a = Some (a\<lparr>win1 := w, fbmem := f\<rparr>) \<and> calib_window E w"
proof -
  obtain w1 f1 w2 f2 w3 f3 where 1: "swim_window_open (font_helvr10 E) (win1 a) 240 320 EA2478_LCD_FRAME_BUF 0 0 239 319 1
        LIGHTGRAY WHITE LIGHTGRAY (fbmem a) = Some (True, w1, f1)"
    "swim_set_font w1 (font_winfreesys14x16 E) f1 = (w2, f2)"
    "swim_set_title (swim_set_pen_color w2 BLACK) (Some (bytes ''    -- Touch screen calibration --'')) LIGHTGRAY f2 = Some (w3, f3)"
    and g3: "win_ok w3" "xpvmin w3 = 1" "xpvmax w3 = 238" "ypvmax w3 = 318" "ypvmin w3 = font_height (font_winfreesys14x16 E) + 5"
      "xpsize w3 = 240" "ypsize w3 = 320" "xvsize w3 = 237" "yvsize w3 = 321 - font_height (font_winfreesys14x16 E)"
    using assms by (rule titled_window_full)
  obtain w4 f4 where 4: "swim_set_font (swim_set_pen_color w3 BLACK) (font_rom8x16 E) f3 = (w4, f4)" by fastforce
  have "still w4 = still ((swim_set_pen_color w3 BLACK)\<lparr>font := font_rom8x16 E\<rparr>)"
    using set_font_still [of "swim_set_pen_color w3 BLACK" "font_rom8x16 E" f3] 4 by simp
  note g4 = still_fields [OF this] still_win_ok [OF this]
  have "calib_window E w4" using g3 g4 assms by (simp add: calib_window_def swim_set_pen_color_def win_ok_def)
  moreover obtain w5 f5 where "put_str_at ''Calibrating, touch boxes'' (a\<lparr>win1 := w4, fbmem := f4\<rparr>) = a\<lparr>win1 := w5, fbmem := f5\<rparr>"
    "still w5 = still w4"
    using put_str_at_keeps [of "''Calibrating, touch boxes''" "a\<lparr>win1 := w4, fbmem := f4\<rparr>"] by auto
  ultimately show ?thesis
    using calib_window_still [of w5 w4] by (intro exI [of _ w5] exI [of _ f5]) (simp add: init_lcd_def Let_def display_size 1 4)
qed

context spi_port
begin

lemma writeToReg_count: "dr_reads (writeToReg xfer addr data s) = dr_reads s + 6"
  by (simp add: writeToReg_def Let_def io_wr_def send_def xfer_count)

lemma write_regs_count: "dr_reads (fst (write_regs xfer rs (s, n))) = dr_reads s + 6 * length rs"
proof (induction rs arbitrary: s)
  case (Cons r rs)
  then show ?case by (cases r) (simp add: write_regs_def writeToReg_count)
qed (simp add: write_regs_def)

lemma block_count:
  assumes "ready (\<lambda>v. v AND 0x01 = 0) tcr"
  shows "\<exists>s' n'. mdelay tcr d (write_regs xfer rs (s, n)) = Some (s', n') \<and> dr_reads s' = dr_reads s + 6 * length rs"
proof -
  obtain s1 n1 where w: "write_regs xfer rs (s, n) = (s1, n1)" by fastforce
  have "dr_reads s1 = dr_reads s + 6 * length rs" using write_regs_count [of rs s n] w by simp
  then show ?thesis using mdelay_returns [OF assms, of d s1 n1] w by fastforce
qed

lemma display_init_count:
  assumes "ready (\<lambda>v. v AND 0x01 = 0) tcr"
  shows "\<exists>s' n'. lcd_display_init xfer tcr (s, n) = Some (s', n') \<and> dr_reads s' = dr_reads s + 228"
proof -
  note step = block_count [OF assms]
  obtain s1 n1 where 1: "mdelay tcr 20 (write_regs xfer (display_regs ! 0) (s, n)) = Some (s1, n1)"
    "dr_reads s1 = dr_reads s + 6 * length (display_regs ! 0)" using step [of 20 "display_regs ! 0" s n] by blast
  obtain s2 n2 where 2: "mdelay tcr 50 (write_regs xfer (display_regs ! 1) (s1, n1)) = Some (s2, n2)"
    "dr_reads s2 = dr_reads s1 + 6 * length (display_regs ! 1)" using step [of 50 "display_regs ! 1" s1 n1] by blast
  obtain s3 n3 where 3: "mdelay tcr 50 (write_regs xfer (display_regs ! 2) (s2, n2)) = Some (s3, n3)"
    "dr_reads s3 = dr_reads s2 + 6 * length (display_regs ! 2)" using step [of 50 "display_regs ! 2" s2 n2] by blast
  obtain s4 n4 where 4: "mdelay tcr 50 (write_regs xfer (display_regs ! 3) (s3, n3)) = Some (s4, n4)"
    "dr_reads s4 = dr_reads s3 + 6 * length (display_regs ! 3)" using step [of 50 "display_regs ! 3" s3 n3] by blast
  obtain s5 n5 where 5: "write_regs xfer (display_regs ! 4) (s4, n4) = (s5, n5)" by fastforce
  have l: "length (display_regs ! 0) = 1" "length (display_regs ! Suc 0) = 4" "length (display_regs ! 2) = 7"
    "length (display_regs ! 3) = 21" "length (display_regs ! 4) = 5" by (simp_all add: display_regs_def)
  have "dr_reads s5 = dr_reads s4 + 6 * length (display_regs ! 4)"
    using write_regs_count [of "display_regs ! 4" s4 n4] 5 by simp
  then show ?thesis using 1 2 3 4 5 by (simp add: lcd_display_init_def l)
qed

end

text \<open>The controller shows the frame buffer: base address, controller and panel power.\<close>

definition display_on :: "CLCDC_REGS_T \<Rightarrow> bool" where
  "display_on r \<longleftrightarrow> lcdupbase r = 0xA0000000 \<and> bit (lcdctrl r) 0 \<and> bit (lcdctrl r) 11"

lemma open_lcd_returns:
  assumes "\<not> lcd_init (lcdcfg s)" "display_ptr E \<noteq> 0" "SpiXfer_ptr E \<noteq> 0"
    and "e_fns (lcd_e E) (SpiXfer_ptr E) = SpiXfer sts rxs" "ready (\<lambda>v. v AND 0x01 = 0) (e_tcr (lcd_e E))"
  shows "\<exists>s'. open_lcd E s = Some (0, s') \<and> dr_reads (lio s') = dr_reads (lio s) + 228 \<and> lcd_init (lcdcfg s') \<and>
    display_on (clcdc s') \<and> bit (clcdcrsrctrl (clcdc s')) 0"
proof -
  obtain s1 where 1: "lcd_open (lcd_e E) LCD_BASE (display_ptr E) s = (True, s1)" "lcd_init (lcdcfg s1)"
    "dr_reads (lio s1) = dr_reads (lio s)"
    using assms(1,2) by (auto simp: lcd_open_def Let_def case_prod_beta)
  obtain io n where d: "lcd_display_init (SpiXfer sts rxs) (e_tcr (lcd_e E)) (lio s1, tcr_reads s1) = Some (io, n)"
    "dr_reads io = dr_reads (lio s1) + 228"
    using sp.display_init_count [OF assms(5), of sts rxs "lio s1" "tcr_reads s1"] by blast
  show ?thesis
    using 1 assms(3,4) d
    by (simp add: open_lcd_def lcd_ioctl_def cmd_enum reg_cmd_def on_off_def pwr_on_def Let_def bit_or_iff display_on_def)
qed

section \<open>The whole run\<close>

lemma SPIInit_calib: "SPIInit 5000 8 0 1 0 m \<noteq> None" "SPIInit 2500 8 0 0 0 m \<noteq> None"
  by (simp_all add: SPIInit_def spi_divisor_def Let_def)

text \<open>
  What the calibration relies on when it opens the display: on a port and a timer that answer, a closed
  display is opened and shown, with 38 registers of the panel written over the port (six transfers each).
\<close>

locale lcd_opener =
  fixes opn :: "app_env \<Rightarrow> lcd_state \<Rightarrow> (u32 \<times> lcd_state) option" and shown :: "CLCDC_REGS_T \<Rightarrow> bool"
  assumes opens: "\<not> lcd_init (lcdcfg s) \<Longrightarrow> display_ptr E \<noteq> 0 \<Longrightarrow> SpiXfer_ptr E \<noteq> 0 \<Longrightarrow>
    e_fns (lcd_e E) (SpiXfer_ptr E) = SpiXfer sts rxs \<Longrightarrow> ready (\<lambda>v. v AND 0x01 = 0) (e_tcr (lcd_e E)) \<Longrightarrow>
    \<exists>s'. opn E s = Some (0, s') \<and> dr_reads (lio s') = dr_reads (lio s) + 228 \<and> lcd_init (lcdcfg s') \<and> shown (clcdc s')"
begin

text \<open>
  Up to the loop: the display is open, the first mark is drawn in a window that holds all three, and one
  sample has been read and dropped.
\<close>

lemma calibrate_loop:
  assumes "\<not> lcd_init (lcdcfg (lcd_st a))" "display_ptr E \<noteq> 0" "SpiXfer_ptr E \<noteq> 0"
    and "e_fns (lcd_e E) (SpiXfer_ptr E) = SpiXfer sts rxs" "ready (\<lambda>v. v AND 0x01 = 0) (e_tcr (lcd_e E))"
    and "0 < font_height (font_winfreesys14x16 E)" "font_height (font_winfreesys14x16 E) \<le> 32"
    and "sample_at (\<lambda>n. ucast (rxs n)) (stack_point E) (touch_st a) (dr_reads (lio (lcd_st a)) + 228) = Some s0"
  shows "\<exists>b. calibrate_with opn E a = calib_loop E b \<and> calib_window E (win1 b) \<and> calibPoint b = 0 \<and> \<not> releaseNeeded b \<and>
    touch_st b = touch_st a \<and> dr_reads (lio (lcd_st b)) = dr_reads (lio (lcd_st a)) + 240 \<and>
    firstRun b = firstRun a \<and> dev_lcd b \<and> lcd_init (lcdcfg (lcd_st b)) \<and> shown (clcdc (lcd_st b))"
proof -
  define a0 where "a0 = a\<lparr>releaseNeeded := False, calibPoint := 0\<rparr>"
  obtain m0 where m0: "SPIInit 5000 8 0 1 0 (sbus (lio (lcd_st a0))) = Some m0" using SPIInit_calib(1) by blast
  have "\<not> lcd_init (lcdcfg (lcd_st (set_sbus m0 a0)))" using assms(1) by (simp add: set_sbus_def a0_def)
  from opens [OF this assms(2-5)]
  obtain s where o: "opn E (lcd_st (set_sbus m0 a0)) = Some (0, s)" "dr_reads (lio s) = dr_reads (lio (lcd_st a)) + 228"
    "lcd_init (lcdcfg s)" "shown (clcdc s)"
    by (auto simp: set_sbus_def a0_def)
  obtain w f where i: "init_lcd E (a0\<lparr>lcd_st := s, dev_lcd := True\<rparr>) = Some (a0\<lparr>lcd_st := s, dev_lcd := True, win1 := w, fbmem := f\<rparr>)"
    "calib_window E w"
    using init_lcd_returns [OF assms(6,7), of "a0\<lparr>lcd_st := s, dev_lcd := True\<rparr>"] by auto
  obtain m1 where m1: "SPIInit 2500 8 0 0 0 (sbus (lio s)) = Some m1" using SPIInit_calib(2) by blast
  define a1 where "a1 = (let b = set_sbus m1 (a0\<lparr>lcd_st := s, dev_lcd := True, win1 := w, fbmem := f\<rparr>)
      in b\<lparr>lcd_st := (lcd_st b)\<lparr>lio := touch_init (lio (lcd_st b))\<rparr>\<rparr>)"
  have l1: "lio (lcd_st a1) = touch_init ((lio s)\<lparr>sbus := m1\<rparr>)" "win1 a1 = w" "firstRun a1 = firstRun a" "dev_lcd a1"
    "lcdcfg (lcd_st a1) = lcdcfg s" "clcdc (lcd_st a1) = clcdc s" by (simp_all add: a1_def a0_def Let_def set_sbus_def)
  obtain f' where d: "drawCalibPoint refPoint1 a1 = Some (a1\<lparr>fbmem := f'\<rparr>)"
    using drawCalibPoint_returns [of a1 refPoint1] calib_window_win [OF i(2) assms(7)] l1(2) by auto
  have "sample_at (\<lambda>n. ucast (rxs n)) (stack_point E) (touch_st a) (dr_reads (lio (lcd_st a1))) = Some s0"
    using assms(8) o(2) by (simp add: l1 touch_init_def)
  then obtain io where t: "touch_xyz (SpiXfer sts rxs) (stack_point E) (touch_st a) (lio (lcd_st a1)) = Some (s0, io)"
    "dr_reads io = dr_reads (lio (lcd_st a1)) + 12"
    using sp.touch_xyz_sample [of rxs "stack_point E" "touch_st a" "lio (lcd_st a1)" s0 sts] by auto
  let ?b = "a1\<lparr>fbmem := f', lcd_st := (lcd_st a1)\<lparr>lio := io\<rparr>\<rparr>"
  have k: "touch_st a1 = touch_st a" "calibPoint a1 = 0" "\<not> releaseNeeded a1" by (simp_all add: a1_def Let_def set_sbus_def a0_def)
  then have r: "touch_read E (a1\<lparr>fbmem := f'\<rparr>) = Some (s0, ?b)" using t(1) assms(4) by (simp add: touch_read_def)
  have "calibrate_with opn E a = calib_loop E ?b"
    using m0 o(1) i(1) m1 d r
    unfolding calibrate_with_def a0_def [symmetric] Let_def a1_def by (simp add: a0_def set_sbus_def)
  moreover have "dr_reads io = dr_reads (lio (lcd_st a)) + 240" using t(2) o(2) by (simp add: l1 touch_init_def)
  ultimately show ?thesis using i(2) k l1(2-6) o(3,4) by (intro exI [of _ ?b]) simp
qed

lemma calibrate_returns:
  assumes "\<not> lcd_init (lcdcfg (lcd_st a))" "display_ptr E \<noteq> 0" "SpiXfer_ptr E \<noteq> 0"
    and "e_fns (lcd_e E) (SpiXfer_ptr E) = SpiXfer sts rxs"
    and "ready (\<lambda>v. v AND 0x01 = 0) (e_tcr (lcd_e E))" "ready (\<lambda>v. v AND 0x01 = 0) (t0tcr E)"
    and "0 < font_height (font_winfreesys14x16 E)" "font_height (font_winfreesys14x16 E) \<le> 32"
    and "idle i1" "held h1" "idle i2" "i2 \<noteq> []" "held h2" "idle i3" "i3 \<noteq> []" "z1 \<noteq> 0" "z2 \<noteq> 0" "z3 \<noteq> 0"
    and "ss = s0 # i1 @ (x1, y1, z1) # h1 @ i2 @ (x2, y2, z2) # h2 @ i3 @ [(x3, y3, z3)]"
    and "answers rxs (stack_point E) (touch_st a) (dr_reads (lio (lcd_st a)) + 228) ss"
  shows "\<exists>b. calibrate_with opn E a = Some b \<and>
    touch_st b = touch_calibrate refPoint1 refPoint2 refPoint3 (tp_of x1 y1) (tp_of x2 y2) (tp_of x3 y3) (touch_st a) \<and>
    calib_window E (win1 b) \<and> firstRun b = firstRun a \<and> dev_lcd b \<and> lcd_init (lcdcfg (lcd_st b)) \<and> shown (clcdc (lcd_st b)) \<and>
    dr_reads (lio (lcd_st b)) = dr_reads (lio (lcd_st a)) + 228 + 12 * length ss"
proof -
  define l where "l = i1 @ (x1, y1, z1) # h1 @ i2 @ (x2, y2, z2) # h2 @ i3 @ [(x3, y3, z3)]"
  have ss: "ss = s0 # l" by (simp add: l_def assms(19))
  have "sample_at (\<lambda>n. ucast (rxs n)) (stack_point E) (touch_st a) (dr_reads (lio (lcd_st a)) + 228) = Some s0"
    using assms(20) by (simp add: ss)
  from calibrate_loop [OF assms(1-5,7,8) this]
  obtain b where b: "calibrate_with opn E a = calib_loop E b" "calib_window E (win1 b)" "calibPoint b = 0" "\<not> releaseNeeded b"
    "touch_st b = touch_st a" "dr_reads (lio (lcd_st b)) = dr_reads (lio (lcd_st a)) + 240"
    "firstRun b = firstRun a" "dev_lcd b" "lcd_init (lcdcfg (lcd_st b))" "shown (clcdc (lcd_st b))" by blast
  have "answers rxs (stack_point E) (touch_st b) (dr_reads (lio (lcd_st b))) l"
    using assms(20) by (simp add: ss b(5,6) add.assoc)
  from loop_three_touches [OF assms(4,6) calib_window_win [OF b(2) assms(8)] b(3,4) assms(9-18) l_def this] obtain c io where c: "calib_loop E b = Some c"
    "touch_st c = touch_calibrate refPoint1 refPoint2 refPoint3 (tp_of x1 y1) (tp_of x2 y2) (tp_of x3 y3) (touch_st a)"
    "still (win1 c) = still (win1 b)" "firstRun c = firstRun b" "dev_lcd c = dev_lcd b" "lcd_st c = (lcd_st b)\<lparr>lio := io\<rparr>"
    "dr_reads io = dr_reads (lio (lcd_st b)) + 12 * length l"
    unfolding b(5) by blast
  then show ?thesis using b calib_window_still [OF c(3)] by (intro exI [of _ c]) (simp add: ss)
qed

end

interpretation cal: lcd_opener open_lcd "\<lambda>r. display_on r \<and> bit (clcdcrsrctrl r) 0"
  by unfold_locales (use open_lcd_returns in blast)

text \<open>
  C7 The calibration program works as a whole. Started with the display closed, on a panel whose answers
  to its transfers are samples that show three separate touches (each possibly held, with at least one
  idle sample in between), and with a title font at most 32 pixels high, calibrateStart returns. The
  display is then open, its controller and panel switched on with the frame buffer as base address and
  the cursor on; the window covers the display, with a draw area below the title, the text font and a
  black pen; the SPI port is left set up for the touch screen (divisor 12, 8 bits, master); and the panel
  is calibrated with the first sample of each touch for the three marked points. If these samples are not
  on a line, every later touch at one of their raw positions is reported at the marked point, unless its
  pressure reading is zero. The first sample is dropped.
\<close>
theorem calibrateStart_calibrates:
  assumes "\<not> lcd_init (lcdcfg (lcd_st a))" "display_ptr E \<noteq> 0" "SpiXfer_ptr E \<noteq> 0"
    and "e_fns (lcd_e E) (SpiXfer_ptr E) = SpiXfer sts rxs"
    and "ready (\<lambda>v. v AND 0x01 = 0) (e_tcr (lcd_e E))" "ready (\<lambda>v. v AND 0x01 = 0) (t0tcr E)"
    and "0 < font_height (font_winfreesys14x16 E)" "font_height (font_winfreesys14x16 E) \<le> 32"
    and "idle i1" "held h1" "idle i2" "i2 \<noteq> []" "held h2" "idle i3" "i3 \<noteq> []" "z1 \<noteq> 0" "z2 \<noteq> 0" "z3 \<noteq> 0"
    and "ss = s0 # i1 @ (x1, y1, z1) # h1 @ i2 @ (x2, y2, z2) # h2 @ i3 @ [(x3, y3, z3)]"
    and "\<forall>k < length ss. sample_at (\<lambda>n. ucast (rxs n)) (stack_point E) (touch_st a)
      (dr_reads (lio (lcd_st a)) + 228 + 12 * k) = Some (ss ! k)"
  shows "\<exists>b. calibrateStart E a = Some b \<and>
    touch_st b = touch_calibrate refPoint1 refPoint2 refPoint3 (tp_of x1 y1) (tp_of x2 y2) (tp_of x3 y3) (touch_st a) \<and>
    dev_lcd b \<and> lcd_init (lcdcfg (lcd_st b)) \<and> lcdupbase (clcdc (lcd_st b)) = 0xA0000000 \<and>
    bit (lcdctrl (clcdc (lcd_st b))) 0 \<and> bit (lcdctrl (clcdc (lcd_st b))) 11 \<and> bit (clcdcrsrctrl (clcdc (lcd_st b))) 0 \<and>
    calib_window E (win1 b) \<and>
    last (stores_at S0SPCCR (sbus (lio (lcd_st b)))) = 12 \<and> last (stores_at S0SPCR (sbus (lio (lcd_st b)))) = 0x820 \<and>
    (cal_det (to_point (tp_of x1 y1)) (to_point (tp_of x2 y2)) (to_point (tp_of x3 y3)) \<noteq> 0 \<longrightarrow>
     (\<forall>scr ref f junk s. (scr, ref) \<in> {(tp_of x1 y1, refPoint1), (tp_of x2 y2, refPoint2), (tp_of x3 y3, refPoint3)} \<longrightarrow>
        raw_xy f s = (uint (tp_x scr), uint (tp_y scr)) \<longrightarrow> (let r = touch_xyz f junk (touch_st b) s in
        if raw_z1 f s = 0 then r = None else \<exists>z s'. r = Some ((uint (tp_x ref), uint (tp_y ref), z), s'))))"
proof -
  have "answers rxs (stack_point E) (touch_st a) (dr_reads (lio (lcd_st a)) + 228) ss"
    using assms(20) by (simp add: answers_def)
  from cal.calibrate_returns [OF assms(1-19) this] obtain c where c: "calibrateStart E a = Some c"
    "touch_st c = touch_calibrate refPoint1 refPoint2 refPoint3 (tp_of x1 y1) (tp_of x2 y2) (tp_of x3 y3) (touch_st a)"
    "dev_lcd c" "lcd_init (lcdcfg (lcd_st c))" "display_on (clcdc (lcd_st c))" "bit (clcdcrsrctrl (clcdc (lcd_st c))) 0"
    "calib_window E (win1 c)"
    unfolding calibrateStart_def by blast
  note spi = calibrate_kept(2) [OF c(1) [unfolded calibrateStart_def] assms(4)]
  show ?thesis
    by (rule exI [of _ c], simp only: c c(5) [unfolded display_on_def] spi simp_thms)
      (intro impI allI, rule touch_calibrate_returns)
qed

section \<open>Concrete run\<close>

text \<open>
  A panel that is idle during the first sample, then touched, released, touched, released and touched: the
  low byte of each channel, after the 228 transfers that initialise the display.
\<close>

definition touches :: "nat list list" where
  "touches = [[1, 1, 1, 1], [2, 2, 2, 2], [1, 1, 1, 1], [5, 3, 1, 1], [1, 1, 1, 1], [3, 7, 1, 1]]"

definition touch_bytes :: "nat \<Rightarrow> u32" where
  "touch_bytes n = (let k = n - 228 in if k mod 3 = 2 then 8 * of_nat (touches ! (k div 12) ! (k mod 12 div 3)) else 0)"

definition app_env0 :: app_env where
  "app_env0 = \<lparr>lcd_e = lcd_env0\<lparr>e_fns := (\<lambda>_. SpiXfer (\<lambda>_. 0x80) touch_bytes)\<rparr>, font_helvr10 = font0,
     font_winfreesys14x16 = font0, font_rom8x16 = font0, SpiXfer_ptr = 0x4000, display_ptr = 0x8000,
     crsr_ptr = 0x9000, t0tcr = (\<lambda>_. 0), stack_point = \<lparr>px = 0, py = 0\<rparr>\<rparr>"

definition app0 :: calib_app where
  "app0 = \<lparr>win1 = win0, fbmem = fb0, calibPoint = 0, scr_1 = tp_of 0 0, scr_2 = tp_of 0 0, scr_3 = tp_of 0 0,
     releaseNeeded = False, touchReleased = False, firstRun = False, touch_st = touch0, lcd_st = lcd_closed, t0_reads = 0,
     dev_lcd = False\<rparr>"

lemma app0_samples:
  "\<forall>k < length ((1, 1, 0) # [] @ (2, 2, 1) # [] @ [(1, 1, 0)] @ (5, 3, 4) # [] @ [(1, 1, 0)] @ [(3, 7, 2)]).
     sample_at (\<lambda>n. ucast (touch_bytes n)) (stack_point app_env0) (touch_st app0) (dr_reads (lio (lcd_st app0)) + 228 + 12 * k) =
     Some (((1, 1, 0) # [] @ (2, 2, 1) # [] @ [(1, 1, 0)] @ (5, 3, 4) # [] @ [(1, 1, 0)] @ [(3, 7, 2)]) ! k)"
  by code_simp

theorem calibrateStart_calibrates_witness:
  "\<exists>b. calibrateStart app_env0 app0 = Some b \<and>
     touch_st b = touch_calibrate refPoint1 refPoint2 refPoint3 (tp_of 2 2) (tp_of 5 3) (tp_of 3 7) touch0"
proof -
  have e: "\<not> lcd_init (lcdcfg (lcd_st app0))" "display_ptr app_env0 \<noteq> 0" "SpiXfer_ptr app_env0 \<noteq> 0"
    "e_fns (lcd_e app_env0) (SpiXfer_ptr app_env0) = SpiXfer (\<lambda>_. 0x80) touch_bytes" "touch_st app0 = touch0"
    by (simp_all add: app0_def app_env0_def lcd_closed_def)
  have r: "ready (\<lambda>v. v AND 0x01 = 0) (e_tcr (lcd_e app_env0))" "ready (\<lambda>v. v AND 0x01 = 0) (t0tcr app_env0)"
    "0 < font_height (font_winfreesys14x16 app_env0)" "font_height (font_winfreesys14x16 app_env0) \<le> 32"
    by (simp_all add: app_env0_def lcd_env0_def ready_const) (simp_all add: font0_def)
  show ?thesis
    using calibrateStart_calibrates [OF e(1-4) r _ _ _ _ _ _ _ _ _ _ refl app0_samples]
    by (auto simp: idle_def held_def e(5))
qed

end
