(* ===== verification/Colorbars.thy ===== *)
theory Colorbars
  imports Rprintf Calib_Start
begin

text \<open>
  The clock display of \<^verbatim>\<open>drivers/lcd/lcd_colorbars.c\<close>: decimal strings (\<open>make_number_str\<close>), the window with its
  title (\<open>lcd_colorbars\<close>) and one line of text per call (\<open>print_time\<close>). A caller's character array is a
  memory from the pointer on; a store past the end of a local array is \<open>None\<close>.
\<close>

section \<open>Definitions\<close>

function number_loop :: "int \<Rightarrow> u8 list \<Rightarrow> u8 list" where
  "number_loop iteration tmp =
     (if iteration > 0 then
        let dvv1 = iteration div 10; dvv2 = dvv1 * 10; dvv1 = iteration - dvv2
        in number_loop (iteration div 10) (tmp @ [word_of_int dvv1])
      else tmp)"
  by pat_completeness auto
termination by (relation "measure (\<lambda>(iteration, tmp). nat iteration)") auto

declare number_loop.simps [simp del]

definition make_number_str :: "(nat \<Rightarrow> u8) \<Rightarrow> int \<Rightarrow> nat \<Rightarrow> u8" where
  "make_number_str str iteration =
     (let str = str(0 := 0x30);
          tmp = number_loop iteration [];
          cnt = length tmp;
          str = fold (\<lambda>dvv1 str. str(dvv1 := 0x30 + tmp ! (cnt - (dvv1 + 1)))) [0 ..< cnt] str
      in str(cnt + 1 := 0))"

abbreviation (input) "DARKGRAY \<equiv> (0x1CE7 :: u16)"
abbreviation (input) "BLUE \<equiv> (0x001F :: u16)"

record bars_state =
  bwin :: SWIM_WINDOW_T
  bfb :: fbuf
  ypos :: u16
  screen_no :: int

definition lcd_colorbars :: "app_env \<Rightarrow> bars_state \<Rightarrow> bars_state option" where
  "lcd_colorbars E s = do {
     let xs = uint (pixels_per_line LCD_DISPLAY);
     let ys = uint (lines_per_panel LCD_DISPLAY);
     (_, w, f) \<leftarrow> swim_window_open (font_helvr10 E) (bwin s) xs ys EA2478_LCD_FRAME_BUF 0 0 (xs - 1) (ys - 1) 1
        LIGHTGRAY WHITE LIGHTGRAY (bfb s);
     let (w, f) = swim_set_font w (font_winfreesys14x16 E) f;
     let w = swim_set_pen_color w BLACK;
     (w, f) \<leftarrow> swim_set_title w (Some (bytes ''    -- 249 Euro watch --'')) LIGHTGRAY f;
     let w = swim_set_xy w 60 160;
     let w = swim_set_pen_color w DARKGRAY;
     let (w, f) = swim_set_font w (font_rom8x16 E) f;
     Some (s\<lparr>bwin := w, bfb := f\<rparr>)
   }"

text \<open>The conversion \<open>%02d\<close> of the library's \<open>sprintf\<close>.\<close>

definition fmt_02d :: "int \<Rightarrow> u8 list" where
  "fmt_02d v = (if v < 0 then 0x2D # map digit_char (digits_of 10 (nat (- v)))
     else (if v < 10 then [0x30] else []) @ map digit_char (digits_of 10 (nat v)))"

definition time_str :: "RTCTime \<Rightarrow> u8 list" where
  "time_str tm = bytes ''Time:'' @ fmt_02d (RTC_Hour tm) @ [0x3A] @ fmt_02d (RTC_Min tm) @ [0x3A] @ fmt_02d (RTC_Sec tm)"

definition print_time :: "RTCTime \<Rightarrow> bars_state \<Rightarrow> bars_state option" where
  "print_time tm s = do {
     let s = (if ypos s > 280 then
                let s = s\<lparr>ypos := 0\<rparr> in
                if screen_no s = 0
                then s\<lparr>screen_no := 1, bwin := swim_set_pen_color (bwin s) DARKGRAY\<rparr>
                else s\<lparr>screen_no := 0, bwin := swim_set_pen_color (bwin s) BLUE\<rparr>
              else s);
     let str = time_str tm;
     if length str + 1 > 32 then None
     else do {
       let (w, f) = swim_put_text (swim_set_xy (bwin s) 0 (uint (ypos s))) str (bfb s);
       Some (s\<lparr>bwin := w, bfb := f, ypos := ypos s + 20\<rparr>)
     }
   }"

section \<open>Decimal strings\<close>

lemma number_loop_digits:
  "0 < n \<Longrightarrow> number_loop (int n) tmp = tmp @ map of_nat (rev (digits_of 10 n))"
proof (induction n arbitrary: tmp rule: less_induct)
  case (less n)
  have d: "int n div 10 = int (n div 10)" "int n - int (n div 10) * 10 = int (n mod 10)"
    by (simp_all add: zdiv_int minus_div_mult_eq_mod zmod_int)
  show ?case
  proof (cases "n < 10")
    case True
    then show ?thesis using less.prems d
      by (simp add: number_loop.simps [of "int n"] number_loop.simps [of 0] digits_of.simps [of 10 n] Let_def)
  next
    case False
    then have "number_loop (int n) tmp = number_loop (int (n div 10)) (tmp @ [of_nat (n mod 10)])"
      using less.prems unfolding number_loop.simps [of "int n"] Let_def d by simp
    also have "\<dots> = tmp @ [of_nat (n mod 10)] @ map of_nat (rev (digits_of 10 (n div 10)))"
      using False by (subst less.IH) simp_all
    finally show ?thesis using False by (simp add: digits_of.simps [of 10 n])
  qed
qed

lemma fold_store:
  "fold (\<lambda>i str. str(i := g i)) [0 ..< n] str = (\<lambda>i. if i < n then g i else str i)" for str :: "nat \<Rightarrow> u8"
  by (induction n) auto

lemma digit_char_dec: "d < 10 \<Longrightarrow> 0x30 + of_nat d = digit_char d"
proof -
  assume "d < 10"
  then have "d \<in> {0, 1, 2, 3, 4, 5, 6, 7, 8, 9}" by auto
  then show ?thesis by (auto simp: digit_char_def hexchar_def HexChars_def)
qed

text \<open>
  make_number_str leaves one character too many: for a positive number it stores its decimal digits and
  puts the terminating zero one place too far, so whatever the caller's array had after the digits
  stays in the string.
\<close>
theorem make_number_str_stale:
  assumes "0 < n"
  shows "map (make_number_str str (int n)) [0 ..< length (digits_of 10 n) + 2] =
    map digit_char (digits_of 10 n) @ [str (length (digits_of 10 n)), 0]"
proof -
  let ?ds = "digits_of 10 n" and ?s = "make_number_str str (int n)"
  have t: "number_loop (int n) [] = map of_nat (rev ?ds)" using number_loop_digits [OF assms] by simp
  have ne: "?ds \<noteq> []" by (subst digits_of.simps) simp
  have d: "?s k = digit_char (?ds ! k)" if "k < length ?ds" for k
  proof -
    have "?ds ! k < 10" using digits_of_bound [OF _ nth_mem [OF that]] by simp
    then show ?thesis using that by (simp add: make_number_str_def Let_def t fold_store rev_nth digit_char_dec)
  qed
  have e: "?s (length ?ds) = str (length ?ds)" "?s (Suc (length ?ds)) = 0"
    using ne by (simp_all add: make_number_str_def Let_def t fold_store)
  have "map ?s [0 ..< length ?ds] = map digit_char ?ds" by (rule nth_equalityI) (simp_all add: d)
  moreover have "[0 ..< length ?ds + 2] = [0 ..< length ?ds] @ [length ?ds, Suc (length ?ds)]" by simp
  ultimately show ?thesis using e by (simp only: map_append list.map)
qed

section \<open>Lines of the clock\<close>

fun print_times :: "RTCTime list \<Rightarrow> bars_state \<Rightarrow> bars_state option" where
  "print_times [] s = Some s"
| "print_times (tm # tms) s = Option.bind (print_time tm s) (print_times tms)"

definition clock_ok :: "RTCTime \<Rightarrow> bool" where
  "clock_ok tm \<longleftrightarrow> RTC_Hour tm \<in> {0 .. 23} \<and> RTC_Min tm \<in> {0 .. 59} \<and> RTC_Sec tm \<in> {0 .. 59}"

lemma fmt_02d_length: "0 \<le> v \<Longrightarrow> v < 100 \<Longrightarrow> length (fmt_02d v) = 2"
proof -
  assume v: "0 \<le> v" "v < 100"
  show ?thesis
  proof (cases "v < 10")
    case True
    then show ?thesis using v by (simp add: fmt_02d_def digits_of.simps [of 10])
  next
    case False
    have "nat v div 10 < 10" using v by linarith
    then show ?thesis using v False by (simp add: fmt_02d_def digits_of.simps [of 10 "nat v"] digits_of.simps [of 10 "nat v div 10"])
  qed
qed

lemma time_str_length: "clock_ok tm \<Longrightarrow> length (time_str tm) = 13"
  by (simp add: clock_ok_def time_str_def fmt_02d_length bytes_def)

text \<open>\<open>print_time\<close> draws its line at the row of \<open>line_of\<close>, and \<open>lines_ok n\<close> is where \<open>n\<close> lines leave the display.\<close>

definition line_of :: "bars_state \<Rightarrow> int" where
  "line_of s = (if ypos s > 280 then 0 else uint (ypos s))"

definition lines_ok :: "nat \<Rightarrow> bars_state \<Rightarrow> bool" where
  "lines_ok n s \<longleftrightarrow> uint (ypos s) = (if n = 0 then 0 else 20 * (int ((n - 1) mod 15) + 1)) \<and>
     screen_no s = (if n = 0 then 0 else int ((n - 1) div 15 mod 2))"

lemma print_time_line:
  assumes "clock_ok tm" "lines_ok n s"
  shows "\<exists>s'. print_time tm s = Some s' \<and> lines_ok (Suc n) s' \<and> line_of s = 20 * int (n mod 15)"
proof -
  let ?k = "(n - 1) mod 15"
  have k: "?k < 15" by simp
  have y: "uint (ypos s) \<le> 300" using assms(2) k by (auto simp: lines_ok_def)
  have y20: "uint (ypos s + 20) = uint (ypos s) + 20" using y by (subst uint_add_lem [THEN iffD1]) simp_all
  have gt: "(280 < ypos s) = (n \<noteq> 0 \<and> n mod 15 = 0)"
  proof (cases n)
    case (Suc j)
    have "(280 < uint (ypos s)) = (j mod 15 = 14)" using assms(2) Suc by (auto simp: lines_ok_def)
    moreover have "(Suc j mod 15 = 0) = (j mod 15 = 14)" by presburger
    ultimately show ?thesis using Suc by (simp add: word_less_def)
  qed (use assms(2) in \<open>simp add: lines_ok_def word_less_def\<close>)
  have r: "\<exists>s'. print_time tm s = Some s' \<and> ypos s' = (if 280 < ypos s then 0 else ypos s) + 20 \<and>
      screen_no s' = (if 280 < ypos s then if screen_no s = 0 then 1 else 0 else screen_no s)"
    using time_str_length [OF assms(1)] by (simp add: print_time_def case_prod_beta Let_def)
  show ?thesis
  proof (cases n)
    case 0
    then show ?thesis using r gt assms(2) y20 by (auto simp: lines_ok_def line_of_def)
  next
    case (Suc j)
    have j: "Suc j mod 15 = (if j mod 15 = 14 then 0 else Suc (j mod 15))" "Suc j div 15 = (if j mod 15 = 14 then Suc (j div 15) else j div 15)"
      by (simp_all add: mod_Suc div_Suc)
    show ?thesis
      using r gt assms(2) y20 Suc j by (auto simp: lines_ok_def line_of_def mod_Suc split: if_splits)
  qed
qed

text \<open>
  The clock fills the screen line by line: for valid times print_time always returns, the n-th line (from 0)
  is drawn 20 pixels below the one before, after 15 lines from the top again, and the pen colour changes
  with each screen.
\<close>
theorem print_time_cycles:
  assumes "\<forall>tm \<in> set tms. clock_ok tm" "ypos s = 0" "screen_no s = 0"
  shows "\<exists>s'. print_times tms s = Some s' \<and> line_of s' = 20 * int (length tms mod 15) \<and>
    screen_no s' = int ((length tms - 1) div 15 mod 2)"
proof -
  have "\<exists>s'. print_times tms s = Some s' \<and> lines_ok (n + length tms) s'" if "\<forall>tm \<in> set tms. clock_ok tm" "lines_ok n s" for tms n s
    using that
  proof (induction tms arbitrary: n s)
    case (Cons tm tms)
    obtain s1 where "print_time tm s = Some s1" "lines_ok (Suc n) s1" using print_time_line [OF _ Cons.prems(2)] Cons.prems(1) by auto
    then show ?case using Cons.IH [of "Suc n" s1] Cons.prems(1) by simp
  qed simp
  from this [OF assms(1), of 0 s] obtain s' where s': "print_times tms s = Some s'" "lines_ok (length tms) s'"
    using assms(2,3) by (auto simp: lines_ok_def)
  have "clock_ok \<lparr>RTC_Sec = 0, RTC_Min = 0, RTC_Hour = 0, RTC_Mday = 1, RTC_Mon = 1, RTC_Year = 0, RTC_Wday = 0, RTC_Yday = 1\<rparr>"
    by (simp add: clock_ok_def)
  from print_time_line [OF this s'(2)] s' show ?thesis by (auto simp: lines_ok_def split: if_splits)
qed

section \<open>The window\<close>

lemma lcd_colorbars_returns:
  assumes "0 < font_height (font_winfreesys14x16 E)" "font_height (font_winfreesys14x16 E) \<le> 32"
  shows "\<exists>w f. lcd_colorbars E s = Some (s\<lparr>bwin := w, bfb := f\<rparr>) \<and> win_ok w \<and> pen w = DARKGRAY \<and> font w = font_rom8x16 E \<and>
    xpvmin w = 1 \<and> xpvmax w = 238 \<and> ypvmin w = font_height (font_winfreesys14x16 E) + 5 \<and> ypvmax w = 318"
proof -
  obtain w1 f1 w2 f2 w3 f3 where 1: "swim_window_open (font_helvr10 E) (bwin s) 240 320 EA2478_LCD_FRAME_BUF 0 0 239 319 1
        LIGHTGRAY WHITE LIGHTGRAY (bfb s) = Some (True, w1, f1)"
    "swim_set_font w1 (font_winfreesys14x16 E) f1 = (w2, f2)"
    "swim_set_title (swim_set_pen_color w2 BLACK) (Some (bytes ''    -- 249 Euro watch --'')) LIGHTGRAY f2 = Some (w3, f3)"
    and g3: "win_ok w3" "xpvmin w3 = 1" "xpvmax w3 = 238" "ypvmax w3 = 318" "ypvmin w3 = font_height (font_winfreesys14x16 E) + 5"
    using assms by (rule titled_window)
  let ?w = "swim_set_pen_color (swim_set_xy w3 60 160) DARKGRAY"
  obtain w4 f4 where 4: "swim_set_font ?w (font_rom8x16 E) f3 = (w4, f4)" by fastforce
  have st: "still w4 = still (?w\<lparr>font := font_rom8x16 E\<rparr>)" using set_font_still [of ?w "font_rom8x16 E" f3] 4 by simp
  note g4 = still_fields [OF st] still_win_ok [OF st]
  have "pen w4 = DARKGRAY" using arg_cong [OF st, of pen] by (simp add: still_def swim_set_pen_color_def)
  moreover have "lcd_colorbars E s = Some (s\<lparr>bwin := w4, bfb := f4\<rparr>)"
    by (simp add: lcd_colorbars_def Let_def display_size 1 4)
  moreover have "win_ok w4" "font w4 = font_rom8x16 E" "xpvmin w4 = 1" "xpvmax w4 = 238" "ypvmax w4 = 318"
    "ypvmin w4 = font_height (font_winfreesys14x16 E) + 5"
    using g3 g4 by (simp_all add: swim_set_pen_color_def set_xy_eq win_ok_def)
  ultimately show ?thesis by auto
qed

section \<open>Witnesses\<close>

theorem make_number_str_stale_witness:
  "map (make_number_str (\<lambda>_. 0x78) 42) [0 ..< 4] = [0x34, 0x32, 0x78, 0]"
proof -
  have "digits_of 10 42 = [4, 2]" by code_simp
  then show ?thesis
    using make_number_str_stale [of 42 "\<lambda>_. 0x78"] by (simp add: digit_char_def hexchar_def HexChars_def upt_rec)
qed

definition noon :: RTCTime where
  "noon = \<lparr>RTC_Sec = 5, RTC_Min = 30, RTC_Hour = 12, RTC_Mday = 1, RTC_Mon = 1, RTC_Year = 2010, RTC_Wday = 5, RTC_Yday = 1\<rparr>"

theorem print_time_cycles_witness:
  "\<exists>s'. print_times (replicate 16 noon) \<lparr>bwin = win0, bfb = fb0, ypos = 0, screen_no = 0\<rparr> = Some s' \<and> line_of s' = 20 \<and> screen_no s' = 1"
  using print_time_cycles [of "replicate 16 noon" "\<lparr>bwin = win0, bfb = fb0, ypos = 0, screen_no = 0\<rparr>"]
  by (auto simp: clock_ok_def noon_def)

end
