(* ===== verification/Backlight.thy ===== *)
theory Backlight
  imports Irq Platform
begin

text \<open>
  The backlight program \<^verbatim>\<open>src/lpc2478_pwm_backlight\<close>: hardware and soft timers (\<^verbatim>\<open>timer.c\<close>), the pulse
  width modulator (\<^verbatim>\<open>pwm.c\<close>), the joystick (\<^verbatim>\<open>keys.c\<close>) and a main loop (\<^verbatim>\<open>main.c\<close>) that polls the keys every
  200 ms and sets the duty cycle. Its \<^verbatim>\<open>irq.c\<close>, \<^verbatim>\<open>VIClowlevel.c\<close> and \<^verbatim>\<open>framework.c\<close> are the files of the CAN
  project, modelled in \<open>Irq\<close> and \<open>Platform\<close>.

  The timer interrupt may come between any two statements of the main loop; an execution is a list of
  events, of which a tick is one. An index outside an array and a missing return value are \<open>None\<close>.
\<close>

section \<open>Timers\<close>

abbreviation (input) "T0IR \<equiv> (0xE0004000 :: u32)"
abbreviation (input) "T0TCR \<equiv> (0xE0004004 :: u32)"
abbreviation (input) "T0PR \<equiv> (0xE000400C :: u32)"
abbreviation (input) "T0MCR \<equiv> (0xE0004014 :: u32)"
abbreviation (input) "T0MR0 \<equiv> (0xE0004018 :: u32)"
abbreviation (input) "T1IR \<equiv> (0xE0008000 :: u32)"
abbreviation (input) "T1TCR \<equiv> (0xE0008004 :: u32)"
abbreviation (input) "T1PR \<equiv> (0xE000800C :: u32)"
abbreviation (input) "T1MCR \<equiv> (0xE0008014 :: u32)"
abbreviation (input) "T1MR0 \<equiv> (0xE0008018 :: u32)"
abbreviation (input) "TIMER0_INT \<equiv> (4 :: int)"
abbreviation (input) "TIMER1_INT \<equiv> (5 :: int)"
abbreviation (input) "Fpclk \<equiv> (28800000 :: int)"
abbreviation (input) "RUN \<equiv> (0 :: int)"
abbreviation (input) "RESET \<equiv> (1 :: int)"

text \<open>The statics of \<^verbatim>\<open>timer.c\<close>, two, two and ten entries long, and the I/O bus.\<close>

record tmr_state =
  tmrTicks :: "int list"
  tmrResolutionMs :: "int list"
  timers :: "int list"
  tbus :: mmio

definition TMR0_Handler :: "tmr_state \<Rightarrow> tmr_state" where
  "TMR0_Handler t = t\<lparr>tmrTicks := (tmrTicks t)[0 := s32 (tmrTicks t ! 0 + 1)],
     tbus := wr VICVectAddr 0 (wr T0IR 0xff (tbus t))\<rparr>"

definition TMR1_Handler :: "tmr_state \<Rightarrow> tmr_state" where
  "TMR1_Handler t = t\<lparr>tmrTicks := (tmrTicks t)[1 := s32 (tmrTicks t ! 1 + 1)],
     tbus := wr VICVectAddr 0 (wr T1IR 0xff (tbus t))\<rparr>"

text \<open>\<open>h0\<close> and \<open>h1\<close> are the addresses of the two handlers.\<close>

definition initTimer :: "u32 \<Rightarrow> u32 \<Rightarrow> int \<Rightarrow> int \<Rightarrow> tmr_state \<Rightarrow> int \<times> tmr_state" where
  "initTimer h0 h1 TimerNum IntervalMs t =
     (if TimerNum = 0 then
        let m = wrs [(T0TCR, 0x02), (T0PR, 0x00), (T0MR0, word_of_int (IntervalMs * (Fpclk div (1000 - 1)))),
                     (T0IR, 0xff), (T0MCR, 0x03)] (tbus t);
            t = t\<lparr>tmrResolutionMs := (tmrResolutionMs t)[0 := IntervalMs]\<rparr>;
            (ok, m) = install_irq TIMER0_INT h0 HIGHEST_PRIORITY m
        in (if ok then 0 else - 1, t\<lparr>tbus := m\<rparr>)
      else if TimerNum = 1 then
        let m = wrs [(T1TCR, 0x02), (T1PR, 0x00), (T1MR0, word_of_int (IntervalMs * (Fpclk div (1000 - 1)))),
                     (T1IR, 0xff), (T1MCR, 0x03)] (tbus t);
            t = t\<lparr>tmrResolutionMs := (tmrResolutionMs t)[1 := IntervalMs]\<rparr>;
            (ok, m) = install_irq TIMER1_INT h1 HIGHEST_PRIORITY m
        in (if ok then 0 else - 1, t\<lparr>tbus := m\<rparr>)
      else (- 1, t))"

definition enableTimer :: "int \<Rightarrow> tmr_state \<Rightarrow> tmr_state" where
  "enableTimer timerNum t =
     (if timerNum = 0 then t\<lparr>tbus := wr T0TCR 1 (tbus t)\<rparr>
      else if timerNum = 1 then t\<lparr>tbus := wr T1TCR 1 (tbus t)\<rparr> else t)"

definition disableTimer :: "int \<Rightarrow> tmr_state \<Rightarrow> tmr_state" where
  "disableTimer timerNum t =
     (if timerNum = 0 then t\<lparr>tbus := wr T0TCR 0 (tbus t)\<rparr>
      else if timerNum = 1 then t\<lparr>tbus := wr T1TCR 0 (tbus t)\<rparr> else t)"

definition getTimerTicks :: "int \<Rightarrow> tmr_state \<Rightarrow> int option" where
  "getTimerTicks timerNum t =
     (if timerNum = 0 then Some (tmrTicks t ! 0)
      else if timerNum = 1 then Some (tmrTicks t ! 1) else None)"

definition getTimerResolution :: "int \<Rightarrow> tmr_state \<Rightarrow> int option" where
  "getTimerResolution timerNum t =
     (if timerNum = 0 then Some (tmrResolutionMs t ! 0)
      else if timerNum = 1 then Some (tmrResolutionMs t ! 1) else None)"

definition timer :: "int \<Rightarrow> int \<Rightarrow> tmr_state \<Rightarrow> (int \<times> tmr_state) option" where
  "timer timerNum clear t =
     (if timerNum < 11 then do {
        r \<leftarrow> getTimerResolution 0 t;
        n \<leftarrow> getTimerTicks 0 t;
        let now = s32 (r * n);
        if timerNum < 0 \<or> timerNum \<ge> int (length (timers t)) then None
        else if clear \<noteq> 0 then Some (0, t\<lparr>timers := (timers t)[nat timerNum := now]\<rparr>)
        else Some (s32 (now - timers t ! nat timerNum), t)
      } else None)"

section \<open>Pulse width modulator and keys\<close>

abbreviation (input) "PINSEL3 \<equiv> (0xE002C00C :: u32)"
abbreviation (input) "PWM1TCR \<equiv> (0xE0018004 :: u32)"
abbreviation (input) "PWM1PR \<equiv> (0xE001800C :: u32)"
abbreviation (input) "PWM1MCR \<equiv> (0xE0018014 :: u32)"
abbreviation (input) "PWM1MR0 \<equiv> (0xE0018018 :: u32)"
abbreviation (input) "PWM1MR1 \<equiv> (0xE001801C :: u32)"
abbreviation (input) "PWM1PCR \<equiv> (0xE001804C :: u32)"
abbreviation (input) "PWM1LER \<equiv> (0xE0018050 :: u32)"

definition initPwm :: "int \<Rightarrow> int \<Rightarrow> int \<Rightarrow> mmio \<Rightarrow> int \<times> mmio" where
  "initPwm period pwm_num output m =
     (if pwm_num = 0 then (- 1, m)
      else if pwm_num = 1 then
        if output = 1 then
          let m = wr_and PINSEL3 0xFFFFFFCF m;
              m = wr_or PINSEL3 0x00000020 m;
              m = wrs [(PWM1LER, 0x03), (PWM1PCR, 0x0200), (PWM1MCR, 0x02), (PWM1MR0, word_of_int period),
                       (PWM1MR1, 0x0000)] m
          in (0, wrs [(PWM1PR, 0x00), (PWM1TCR, 0x09)] m)
        else (- 1, m)
      else (- 1, m))"

definition setPwmDc :: "int \<Rightarrow> int \<Rightarrow> int \<Rightarrow> mmio \<Rightarrow> int \<times> mmio" where
  "setPwmDc dc pwm_num output m =
     (if pwm_num = 1 \<and> output = 1 then
        (0, wrs [(PWM1MR1, rd PWM1MR0 m * word_of_int (100 - dc) div 100), (PWM1LER, 0x02)] m)
      else (- 1, m))"

abbreviation (input) "CENTER \<equiv> (0x00400000 :: u32)"
abbreviation (input) "LEFT \<equiv> (0x00800000 :: u32)"
abbreviation (input) "RIGHT \<equiv> (0x04000000 :: u32)"
abbreviation (input) "UP \<equiv> (0x02000000 :: u32)"
abbreviation (input) "DOWN \<equiv> (0x08000000 :: u32)"

text \<open>The argument is the value read from the port register.\<close>

definition readKeys :: "u32 \<Rightarrow> u32" where
  "readKeys FIO2PIN = NOT FIO2PIN AND (CENTER OR LEFT OR RIGHT OR UP OR DOWN)"

section \<open>The main loop\<close>

text \<open>
  The locals of \<open>main\<close>, where it stands, and the state it works on. \<open>Idle\<close> is before the test of the soft
  timer, \<open>Due\<close> after it has succeeded, \<open>Serve\<close> after the soft timer has been reset.
\<close>

datatype bl_phase = Idle | Due | Serve

record bl_state =
  tmr :: tmr_state
  dc :: u8
  cpsr :: u32
  phase :: bl_phase

text \<open>Up to the loop. The local \<open>dc\<close> is an unsigned \<open>char\<close> on this target.\<close>

definition bl_init :: "(nat \<Rightarrow> u32) \<Rightarrow> (nat \<Rightarrow> u32) \<Rightarrow> u32 \<Rightarrow> u32 \<Rightarrow> u32 \<Rightarrow> tmr_state \<Rightarrow> bl_state option" where
  "bl_init scs pllstat h0 h1 psr t = do {
     m \<leftarrow> lowLevelInit scs pllstat (tbus t);
     let m = init_VIC m;
     let (_, m) = initPwm 0x3000 1 1 m;
     let (_, t) = initTimer h0 h1 0 10 (t\<lparr>tbus := m\<rparr>);
     let (_, psr) = enableIRQ psr;
     let t = enableTimer 0 t;
     (_, t) \<leftarrow> timer 0 RESET t;
     (_, t) \<leftarrow> timer 1 RESET t;
     Some \<lparr>tmr = t, dc = 0, cpsr = psr, phase = Idle\<rparr>
   }"

definition bl_test :: "bl_state \<Rightarrow> bl_state option" where
  "bl_test b = do {
     (v, _) \<leftarrow> timer 0 RUN (tmr b);
     Some (b\<lparr>phase := if v > 200 then Due else Idle\<rparr>)
   }"

definition bl_reset :: "bl_state \<Rightarrow> bl_state option" where
  "bl_reset b = do {
     (_, t) \<leftarrow> timer 0 RESET (tmr b);
     Some (b\<lparr>tmr := t, phase := Serve\<rparr>)
   }"

definition set_dc :: "u8 \<Rightarrow> bl_state \<Rightarrow> bl_state" where
  "set_dc d b = b\<lparr>dc := d, tmr := (tmr b)\<lparr>tbus := snd (setPwmDc (uint d) 1 1 (tbus (tmr b)))\<rparr>\<rparr>"

definition bl_serve :: "u32 \<Rightarrow> bl_state \<Rightarrow> bl_state" where
  "bl_serve pins b =
     (let key = readKeys pins;
          b = (if key = UP then set_dc (if dc b < 100 then dc b + 5 else dc b) b
               else if key = DOWN then set_dc (if dc b > 0 then dc b - 5 else dc b) b
               else b)
      in b\<lparr>phase := Idle\<rparr>)"

text \<open>An event is a timer interrupt or the next part of the main loop, with the port it reads.\<close>

datatype bl_event = Tick | Main u32

definition bl_step :: "bl_event \<Rightarrow> bl_state \<Rightarrow> bl_state option" where
  "bl_step e b = (case e of
     Tick \<Rightarrow> Some (b\<lparr>tmr := TMR0_Handler (tmr b)\<rparr>)
   | Main pins \<Rightarrow> (case phase b of Idle \<Rightarrow> bl_test b | Due \<Rightarrow> bl_reset b | Serve \<Rightarrow> Some (bl_serve pins b)))"

fun bl_run :: "bl_event list \<Rightarrow> bl_state \<Rightarrow> bl_state option" where
  "bl_run [] b = Some b"
| "bl_run (e # es) b = Option.bind (bl_step e b) (bl_run es)"

section \<open>Soft timers\<close>

lemma s32_cong: "a mod 4294967296 = b mod 4294967296 \<Longrightarrow> s32 a = s32 b"
  by (simp add: s32_def signed_take_bit_eq_iff_take_bit_eq take_bit_eq_mod)

lemma s32_mod: "s32 a mod 4294967296 = a mod 4294967296"
proof -
  have "take_bit 32 (signed_take_bit 31 a) = take_bit 32 a" by (simp add: take_bit_signed_take_bit)
  then show ?thesis by (simp add: s32_def take_bit_eq_mod)
qed

lemma s32_mult_left: "s32 (a * s32 b) = s32 (a * b)"
  by (rule s32_cong) (metis mod_mult_right_eq s32_mod)

lemma s32_diff_left: "s32 (s32 a - b) = s32 (a - b)"
  by (rule s32_cong) (metis mod_diff_left_eq s32_mod)

lemma s32_add_left: "s32 (s32 a + b) = s32 (a + b)"
  by (rule s32_cong) (metis mod_add_left_eq s32_mod)

text \<open>
  \<open>since g k t\<close>: the hardware timer has ticked \<open>g\<close> times (up to wrap-around) since soft timer \<open>k\<close> was reset.
\<close>

definition tmr_ok :: "tmr_state \<Rightarrow> bool" where
  "tmr_ok t \<longleftrightarrow> length (tmrTicks t) = 2 \<and> length (tmrResolutionMs t) = 2 \<and> length (timers t) = 10"

definition since :: "nat \<Rightarrow> nat \<Rightarrow> tmr_state \<Rightarrow> bool" where
  "since g k t \<longleftrightarrow> s32 (s32 (tmrResolutionMs t ! 0 * tmrTicks t ! 0) - timers t ! k) = s32 (tmrResolutionMs t ! 0 * int g)"

lemma tmr_ok_handler [simp]: "tmr_ok (TMR0_Handler t) = tmr_ok t"
  by (simp add: tmr_ok_def TMR0_Handler_def)

lemma since_handler: "tmr_ok t \<Longrightarrow> since g k t \<Longrightarrow> since (Suc g) k (TMR0_Handler t)"
proof -
  assume "tmr_ok t" "since g k t"
  let ?r = "tmrResolutionMs t ! 0" and ?n = "tmrTicks t ! 0" and ?c = "timers t ! k"
  have "s32 (s32 (?r * s32 (?n + 1)) - ?c) = s32 (?r * ?n - ?c + ?r)"
    by (simp add: s32_mult_left s32_diff_left algebra_simps)
  also have "\<dots> = s32 (s32 (?r * ?n - ?c) + ?r)" by (simp only: s32_add_left)
  also have "s32 (?r * ?n - ?c) = s32 (?r * int g)" using \<open>since g k t\<close> by (simp add: since_def s32_diff_left)
  also have "s32 (s32 (?r * int g) + ?r) = s32 (?r * int g + ?r)" by (rule s32_add_left)
  finally show ?thesis using \<open>tmr_ok t\<close> by (simp add: since_def TMR0_Handler_def tmr_ok_def algebra_simps)
qed

lemma since_handlers: "tmr_ok t \<Longrightarrow> since g k t \<Longrightarrow> tmr_ok ((TMR0_Handler ^^ n) t) \<and> since (g + n) k ((TMR0_Handler ^^ n) t)"
  by (induction n) (auto intro: since_handler)

lemma timer_run:
  assumes "tmr_ok t" "k < 10" "since g k t"
  shows "timer (int k) RUN t = Some (s32 (tmrResolutionMs t ! 0 * int g), t)"
  using assms by (simp add: timer_def getTimerResolution_def getTimerTicks_def tmr_ok_def since_def)

lemma timer_reset:
  assumes "tmr_ok t" "k < 10"
  shows "\<exists>c. timer (int k) RESET t = Some (0, t\<lparr>timers := (timers t)[k := c]\<rparr>) \<and> since 0 k (t\<lparr>timers := (timers t)[k := c]\<rparr>)"
  using assms
  by (intro exI [of _ "s32 (tmrResolutionMs t ! 0 * tmrTicks t ! 0)"])
    (simp add: timer_def getTimerResolution_def getTimerTicks_def tmr_ok_def since_def)

lemma handlers_resolution [simp]: "tmrResolutionMs ((TMR0_Handler ^^ n) t) = tmrResolutionMs t"
  by (induction n) (simp_all add: TMR0_Handler_def)

text \<open>
  A soft timer measures the time since its reset: after n ticks of the hardware timer it reads n times
  the interval, whatever the tick counter was at the reset and although the counter and its product
  with the interval wrap around, as long as the elapsed time itself is in range. Resetting one soft
  timer leaves the others alone.
\<close>
theorem timer_elapsed:
  assumes "tmr_ok t" "k < 10" "0 \<le> tmrResolutionMs t ! 0 * int n" "tmrResolutionMs t ! 0 * int n < 2147483648"
  shows "\<exists>t'. timer (int k) RESET t = Some (0, t') \<and> (\<forall>j. j \<noteq> k \<longrightarrow> timers t' ! j = timers t ! j) \<and>
    timer (int k) RUN ((TMR0_Handler ^^ n) t') = Some (tmrResolutionMs t ! 0 * int n, (TMR0_Handler ^^ n) t')"
proof -
  obtain c where c: "timer (int k) RESET t = Some (0, t\<lparr>timers := (timers t)[k := c]\<rparr>)"
    "since 0 k (t\<lparr>timers := (timers t)[k := c]\<rparr>)" using timer_reset [OF assms(1,2)] by blast
  let ?t = "t\<lparr>timers := (timers t)[k := c]\<rparr>"
  have "tmr_ok ?t" using assms(1) by (simp add: tmr_ok_def)
  from since_handlers [OF this c(2), of n] have "timer (int k) RUN ((TMR0_Handler ^^ n) ?t) =
      Some (s32 (tmrResolutionMs t ! 0 * int n), (TMR0_Handler ^^ n) ?t)"
    using timer_run [OF _ assms(2), of "(TMR0_Handler ^^ n) ?t" n] by simp
  then show ?thesis using c(1) assms(3,4) by (intro exI [of _ ?t]) (simp add: s32_id)
qed

section \<open>Duty cycle\<close>

definition duty :: "u8 \<Rightarrow> u32" where
  "duty d = 0x3000 * word_of_int (100 - uint d) div 100"

lemma duty_value: "unat d \<le> 100 \<Longrightarrow> unat (duty d) = 12288 * (100 - unat d) div 100"
proof -
  assume d: "unat d \<le> 100"
  have n: "100 - uint d = int (100 - unat d)" using d by simp
  have "unat (word_of_int (100 - uint d) :: u32) = 100 - unat d"
    unfolding n of_int_of_nat_eq using d by (simp add: unsigned_of_nat take_bit_nat_eq_self del: of_nat_diff)
  then have "unat (0x3000 * word_of_int (100 - uint d) :: u32) = 12288 * (100 - unat d)"
    by (subst unat_mult_lem [THEN iffD1]) simp_all
  then show ?thesis by (simp add: duty_def unat_div)
qed

text \<open>What holds in every state of the main loop; \<open>h0\<close> is the address of the timer's handler.\<close>

definition bl_inv :: "u32 \<Rightarrow> bl_state \<Rightarrow> bool" where
  "bl_inv h0 b \<longleftrightarrow> tmr_ok (tmr b) \<and> tmrResolutionMs (tmr b) ! 0 = 10 \<and> unat (dc b) \<le> 100 \<and> 5 dvd unat (dc b) \<and>
     (let m = tbus (tmr b) in rd PWM1MR0 m = 0x3000 \<and> (rd PWM1MR1 m = 0 \<and> dc b = 0 \<or> rd PWM1MR1 m = duty (dc b)) \<and>
        rd T0TCR m = 1 \<and> rd (vect_addr TIMER0_INT) m = h0)"

definition bl_since :: "u32 \<Rightarrow> nat \<Rightarrow> bl_state \<Rightarrow> bool" where
  "bl_since h0 g b \<longleftrightarrow> bl_inv h0 b \<and> since g 0 (tmr b) \<and> (phase b = Due \<longrightarrow> 21 \<le> g)"

lemma vect_addr_4: "vect_addr TIMER0_INT = 0xFFFFF110"
  by (simp add: vect_addr_def)

lemma since_timers: "timers t' = timers t \<Longrightarrow> tmrTicks t' = tmrTicks t \<Longrightarrow> tmrResolutionMs t' = tmrResolutionMs t \<Longrightarrow>
    since g k t' = since g k t"
  by (simp add: since_def)

lemma set_dc_inv:
  assumes "bl_since h0 g b" "unat d \<le> 100" "5 dvd unat d"
  shows "bl_since h0 g (set_dc d b)"
  using assms
  by (auto simp: bl_since_def bl_inv_def set_dc_def setPwmDc_def Let_def mmio_simps duty_def vect_addr_4 tmr_ok_def since_def)

lemma dc_up:
  assumes "unat (d :: u8) \<le> 100" "5 dvd unat d" "d < 100"
  shows "unat (d + 5) = unat d + 5 \<and> unat d + 5 \<le> 100 \<and> 5 dvd unat d + 5"
proof -
  have "unat d < 100" using assms(3) by (simp add: word_less_nat_alt)
  moreover have "unat (d + 5) = unat d + 5" using assms(1) by (subst unat_add_lem [THEN iffD1]) simp_all
  ultimately show ?thesis using assms(2) by (auto elim!: dvdE)
qed

lemma dc_down:
  assumes "5 dvd unat (d :: u8)" "0 < d"
  shows "unat (d - 5) = unat d - 5 \<and> 5 \<le> unat d \<and> 5 dvd unat d - 5"
proof -
  have "0 < unat d" using assms(2) by (simp add: word_less_nat_alt)
  then have g: "5 \<le> unat d" using assms(1) by (auto elim!: dvdE)
  then have "unat (d - 5) = unat d - 5" by (subst unat_sub) (simp_all add: word_le_nat_alt)
  then show ?thesis using assms(1) g by simp
qed

lemma dc_up_sat:
  assumes "unat (d :: u8) \<le> 100" "5 dvd unat d"
  shows "uint (if d < 100 then d + 5 else d) = min 100 (uint d + 5)"
proof (cases "d < 100")
  case True
  then show ?thesis using dc_up [OF assms True] by (simp add: uint_nat del: of_nat_unat)
next
  case False
  then have "unat d = 100" using assms(1) by (simp add: word_less_nat_alt)
  then show ?thesis using False by (simp add: uint_nat del: of_nat_unat)
qed

lemma dc_down_sat:
  assumes "5 dvd unat (d :: u8)"
  shows "uint (if d > 0 then d - 5 else d) = max 0 (uint d - 5)"
proof (cases "0 < d")
  case True
  then show ?thesis using dc_down [OF assms True] by (simp add: uint_nat del: of_nat_unat)
next
  case False
  then have "d = 0" by (simp add: word_greater_zero_iff)
  then show ?thesis by simp
qed

lemma serve_effect:
  "phase (bl_serve p b) = Idle" "since g 0 (tmr (bl_serve p b)) = since g 0 (tmr b)"
  "dc (bl_serve p b) = (if readKeys p = UP then if dc b < 100 then dc b + 5 else dc b
     else if readKeys p = DOWN then if dc b > 0 then dc b - 5 else dc b else dc b)"
  by (simp_all add: bl_serve_def set_dc_def Let_def since_def)

lemma serve_inv: "bl_since h0 g b \<Longrightarrow> bl_since h0 g (bl_serve pins b)"
proof -
  assume i: "bl_since h0 g b"
  then have d: "unat (dc b) \<le> 100" "5 dvd unat (dc b)" by (simp_all add: bl_since_def bl_inv_def)
  have "bl_since h0 g (set_dc (if dc b < 100 then dc b + 5 else dc b) b)"
    "bl_since h0 g (set_dc (if dc b > 0 then dc b - 5 else dc b) b)"
    using set_dc_inv [OF i] dc_up [OF d] dc_down [OF d(2)] d by auto
  then have "bl_since h0 g c" if "c = (if readKeys pins = UP then set_dc (if dc b < 100 then dc b + 5 else dc b) b
      else if readKeys pins = DOWN then set_dc (if dc b > 0 then dc b - 5 else dc b) b else b)" for c
    using i that by simp
  moreover have "bl_since h0 g c \<Longrightarrow> bl_since h0 g (c\<lparr>phase := Idle\<rparr>)" for c
    by (simp add: bl_since_def bl_inv_def)
  ultimately show ?thesis by (simp add: bl_serve_def Let_def)
qed

lemma elapsed_due: "200 < s32 (10 * int g) \<Longrightarrow> 21 \<le> g"
  by (rule ccontr) (simp add: s32_id)

lemma reset_since:
  assumes "bl_since h0 g b" "phase b = Due"
  shows "\<exists>b'. bl_step (Main p) b = Some b' \<and> phase b' = Serve \<and> bl_since h0 0 b'"
proof -
  have "tmr_ok (tmr b)" using assms(1) by (simp add: bl_since_def bl_inv_def)
  then obtain c where c: "timer 0 RESET (tmr b) = Some (0, (tmr b)\<lparr>timers := (timers (tmr b))[0 := c]\<rparr>)"
    "since 0 0 ((tmr b)\<lparr>timers := (timers (tmr b))[0 := c]\<rparr>)" using timer_reset [of "tmr b" 0] by auto
  have "bl_since h0 0 (b\<lparr>tmr := (tmr b)\<lparr>timers := (timers (tmr b))[0 := c]\<rparr>, phase := Serve\<rparr>)"
    using assms(1) c(2) by (simp add: bl_since_def bl_inv_def tmr_ok_def)
  then show ?thesis using assms(2) c(1) by (simp add: bl_step_def bl_reset_def)
qed

lemma step_inv:
  assumes "bl_since h0 g b"
  shows "\<exists>b' g'. bl_step e b = Some b' \<and> bl_since h0 g' b' \<and> g' \<le> g + (if e = Tick then 1 else 0)"
proof (cases e)
  case Tick
  have "since (Suc g) 0 (TMR0_Handler (tmr b))" using assms by (intro since_handler) (simp_all add: bl_since_def bl_inv_def)
  then have "bl_since h0 (Suc g) (b\<lparr>tmr := TMR0_Handler (tmr b)\<rparr>)"
    using assms by (simp add: bl_since_def bl_inv_def Let_def) (auto simp: TMR0_Handler_def mmio_simps vect_addr_4)
  then show ?thesis using Tick by (auto simp: bl_step_def)
next
  case (Main pins)
  have ok: "tmr_ok (tmr b)" "since g 0 (tmr b)" "tmrResolutionMs (tmr b) ! 0 = 10" using assms by (simp_all add: bl_since_def bl_inv_def)
  show ?thesis
  proof (cases "phase b")
    case Idle
    have "timer 0 RUN (tmr b) = Some (s32 (10 * int g), tmr b)" using timer_run [OF ok(1) _ ok(2)] ok(3) by simp
    then have s: "bl_step e b = Some (b\<lparr>phase := if s32 (10 * int g) > 200 then Due else Idle\<rparr>)"
      using Main Idle by (simp add: bl_step_def bl_test_def)
    have "bl_since h0 g (b\<lparr>phase := if s32 (10 * int g) > 200 then Due else Idle\<rparr>)"
      using assms elapsed_due [of g] by (simp add: bl_since_def bl_inv_def)
    then show ?thesis using s Main by auto
  next
    case Due
    then show ?thesis using Main reset_since [OF assms Due, of pins] by auto
  next
    case Serve
    then show ?thesis using Main serve_inv [OF assms] by (auto simp: bl_step_def)
  qed
qed

lemma run_inv:
  "bl_since h0 g b \<Longrightarrow> \<exists>b' g'. bl_run es b = Some b' \<and> bl_since h0 g' b' \<and> g' \<le> g + count_list es Tick"
proof (induction es arbitrary: g b)
  case (Cons e es)
  obtain b1 g1 where 1: "bl_step e b = Some b1" "bl_since h0 g1 b1" "g1 \<le> g + (if e = Tick then 1 else 0)"
    using step_inv [OF Cons.prems] by blast
  obtain b' g' where "bl_run es b1 = Some b'" "bl_since h0 g' b'" "g' \<le> g1 + count_list es Tick" using Cons.IH [OF 1(2)] by blast
  then show ?case using 1 by (intro exI [of _ b'] exI [of _ g']) (auto split: if_splits)
qed auto

section \<open>The program\<close>

abbreviation (input) "pll_locks scs pllstat \<equiv> ready (\<lambda>v. v AND 0x40 \<noteq> 0) scs \<and>
  ready (\<lambda>v. v AND push_bit 26 1 \<noteq> 0) pllstat \<and> ready (\<lambda>v. v AND push_bit 25 1 \<noteq> 0) pllstat \<and>
  (\<forall>k. pllstat k AND 0x7FFF = PLL_MValue)"

lemma lowLevelInit_returns:
  assumes "pll_locks scs pllstat"
  shows "\<exists>m'. lowLevelInit scs pllstat m = Some m'"
proof -
  have p: "\<And>k. pllstat k AND 0x7FFF = PLL_MValue" using assms by simp
  let ?m = "wr_or SYS_PCONP 0x80000000 (wr MEMMAP 1 (wr 0xE002C004 0x00000000 (wr 0xE002C000 0x00000000 m)))"
  obtain m' where "ConfigurePLL scs pllstat ?m = Some m'"
    using ConfigurePLL_sequence [where scs = scs and pllstat = pllstat and m = ?m, OF _ _ _ p] assms by blast
  then show ?thesis by (simp add: lowLevelInit_def Let_def)
qed

lemma bl_init_since:
  assumes "pll_locks scs pllstat" "tmr_ok t"
  shows "\<exists>b. bl_init scs pllstat h0 h1 psr t = Some b \<and> bl_since h0 0 b \<and> phase b = Idle \<and> dc b = 0"
proof -
  obtain m where m: "lowLevelInit scs pllstat (tbus t) = Some m" using lowLevelInit_returns [OF assms(1)] by blast
  define t1 where "t1 = enableTimer 0 (snd (initTimer h0 h1 0 10 (t\<lparr>tbus := snd (initPwm 0x3000 1 1 (init_VIC m))\<rparr>)))"
  have ok: "tmr_ok t1" using assms(2) by (simp add: t1_def tmr_ok_def enableTimer_def initTimer_def case_prod_beta Let_def)
  have r: "tmrResolutionMs t1 ! 0 = 10" "rd PWM1MR0 (tbus t1) = 0x3000" "rd PWM1MR1 (tbus t1) = 0" "rd T0TCR (tbus t1) = 1"
    "rd (vect_addr TIMER0_INT) (tbus t1) = h0"
    using assms(2) by (simp_all add: t1_def tmr_ok_def enableTimer_def initTimer_def initPwm_def install_irq_def Let_def mmio_simps vect_addr_def vect_cntl_def)
  obtain c where c: "timer 0 RESET t1 = Some (0, t1\<lparr>timers := (timers t1)[0 := c]\<rparr>)" "since 0 0 (t1\<lparr>timers := (timers t1)[0 := c]\<rparr>)"
    using timer_reset [OF ok, of 0] by auto
  let ?t2 = "t1\<lparr>timers := (timers t1)[0 := c]\<rparr>"
  have ok2: "tmr_ok ?t2" using ok by (simp add: tmr_ok_def)
  obtain d where d: "timer 1 RESET ?t2 = Some (0, ?t2\<lparr>timers := (timers ?t2)[1 := d]\<rparr>)" using timer_reset [OF ok2, of 1] by auto
  let ?t3 = "?t2\<lparr>timers := (timers ?t2)[1 := d]\<rparr>"
  have "bl_init scs pllstat h0 h1 psr t = Some \<lparr>tmr = ?t3, dc = 0, cpsr = snd (enableIRQ psr), phase = Idle\<rparr>"
    using c(1) d by (simp add: bl_init_def m Let_def case_prod_beta t1_def [symmetric])
  moreover have "since 0 0 ?t3" using c(2) by (simp add: since_def)
  moreover have "tmr_ok ?t3" using ok by (simp add: tmr_ok_def)
  ultimately show ?thesis using r by (auto simp: bl_since_def bl_inv_def Let_def)
qed

text \<open>
  C12 The backlight program keeps its invariant: from the zeroed statics, with a PLL that locks, it reaches
  its main loop, and whatever the keys are and whenever the timer interrupts, it never gets stuck; the
  duty cycle is a multiple of 5 from 0 to 100, the period register keeps its value, the match register
  holds the part of the period that the duty cycle leaves (0 before the first key), and the timer
  stays enabled with its handler in the vector slot.
\<close>
theorem backlight_invariant:
  assumes "pll_locks scs pllstat" "tmr_ok t"
  shows "\<exists>b0. bl_init scs pllstat h0 h1 psr t = Some b0 \<and> (\<forall>es. \<exists>b. bl_run es b0 = Some b \<and>
    unat (dc b) \<le> 100 \<and> 5 dvd unat (dc b) \<and>
    (let m = tbus (tmr b) in rd PWM1MR0 m = 0x3000 \<and> rd T0TCR m = 1 \<and> rd (vect_addr 4) m = h0 \<and>
       (rd PWM1MR1 m = 0 \<and> dc b = 0 \<or> unat (rd PWM1MR1 m) = 0x3000 * (100 - unat (dc b)) div 100)))"
proof -
  obtain b0 where b0: "bl_init scs pllstat h0 h1 psr t = Some b0" "bl_since h0 0 b0" using bl_init_since [OF assms] by blast
  have "\<exists>b. bl_run es b0 = Some b \<and> bl_inv h0 b" for es using run_inv [OF b0(2), of es] by (auto simp: bl_since_def)
  then show ?thesis using b0(1) duty_value by (fastforce simp: bl_inv_def Let_def)
qed

text \<open>
  C13 The key task is rate limited: between two times the main loop finds its soft timer expired, at least
  21 timer interrupts (210 ms) pass, in every interleaving and across wrap-around of the counters.
\<close>
theorem backlight_rate_limit:
  assumes "pll_locks scs pllstat" "tmr_ok t" "bl_init scs pllstat h0 h1 psr t = Some b0"
    and "bl_run es1 b0 = Some b1" "phase b1 = Due" "bl_run (Main pins # es2) b1 = Some b2" "phase b2 = Due"
  shows "21 \<le> count_list es2 Tick"
proof -
  obtain g1 where g1: "bl_since h0 g1 b1"
    using bl_init_since [OF assms(1,2), of h0 h1 psr] run_inv [of h0 0 b0 es1] assms(3,4) by auto
  obtain b where "bl_step (Main pins) b1 = Some b" "bl_since h0 0 b" using reset_since [OF g1 assms(5)] by blast
  then obtain g where "bl_since h0 g b2" "g \<le> count_list es2 Tick" using run_inv [of h0 0 b es2] assms(6) by auto
  then show ?thesis using assms(7) by (simp add: bl_since_def)
qed

lemma run_append: "bl_run (es @ fs) b = Option.bind (bl_run es b) (bl_run fs)"
proof (induction es arbitrary: b)
  case (Cons e es)
  then show ?case by (cases "bl_step e b") simp_all
qed simp

lemma run_ticks: "bl_run (replicate n Tick) b = Some (b\<lparr>tmr := (TMR0_Handler ^^ n) (tmr b)\<rparr>)"
  by (induction n arbitrary: b) (simp_all add: bl_step_def funpow_swap1)

lemma due_after:
  assumes "bl_since h0 0 b" "phase b = Idle" "20 < n" "n \<le> 214748364"
  shows "\<exists>b'. bl_run (replicate n Tick @ [Main p]) b = Some b' \<and> phase b' = Due \<and> bl_since h0 n b'"
proof -
  have ok: "tmr_ok (tmr b)" "tmrResolutionMs (tmr b) ! 0 = 10" "since 0 0 (tmr b)" using assms(1) by (simp_all add: bl_since_def bl_inv_def)
  let ?t = "(TMR0_Handler ^^ n) (tmr b)"
  have t: "tmr_ok ?t" "since n 0 ?t" using since_handlers [OF ok(1,3), of n] by simp_all
  have "s32 (10 * int n) = 10 * int n" using assms(4) by (intro s32_id) simp_all
  then have "timer 0 RUN ?t = Some (10 * int n, ?t)" using timer_run [OF t(1) _ t(2)] ok(2) by simp
  then have "bl_run (replicate n Tick @ [Main p]) b = Some (b\<lparr>tmr := ?t, phase := Due\<rparr>)"
    using assms(2,3) by (simp add: run_append run_ticks bl_step_def bl_test_def)
  moreover have "bl_since h0 n (b\<lparr>tmr := ?t, phase := Due\<rparr>)"
  proof -
    obtain b1 g1 where r: "bl_run (replicate n Tick) b = Some b1" "bl_since h0 g1 b1" using run_inv [OF assms(1)] by blast
    then have "bl_inv h0 (b\<lparr>tmr := ?t\<rparr>)" by (simp add: run_ticks bl_since_def)
    then show ?thesis using t(2) assms(3) by (simp add: bl_since_def bl_inv_def)
  qed
  ultimately show ?thesis by auto
qed

lemma served_after:
  assumes "bl_since h0 g b" "phase b = Due"
  shows "\<exists>b'. bl_run [Main p, Main q] b = Some b' \<and> phase b' = Idle \<and> bl_since h0 0 b'"
proof -
  obtain b1 where 1: "bl_step (Main p) b = Some b1" "phase b1 = Serve" "bl_since h0 0 b1" using reset_since [OF assms] by blast
  then show ?thesis using serve_inv [OF 1(3)] by (simp add: bl_step_def [of "Main q"] serve_effect)
qed

text \<open>
  The key task is served in time: n timer interrupts after the last reset, a pass of the main loop leaves
  everything as it is if n is at most 20; if n is larger (and the elapsed time in range), it restarts
  the soft timer and moves the duty cycle by 5 in the direction of the key, stopping at 0 and 100.
\<close>
theorem backlight_serves:
  assumes "bl_inv h0 b" "since 0 0 (tmr b)" "phase b = Idle" "n \<le> 214748364"
  shows "\<exists>b'. bl_run (replicate n Tick @ [Main p1, Main p2, Main p3]) b = Some b' \<and> phase b' = Idle \<and>
    (if n \<le> 20 then dc b' = dc b \<and> tbus (tmr b') = tbus ((TMR0_Handler ^^ n) (tmr b)) \<and> since n 0 (tmr b')
     else since 0 0 (tmr b') \<and>
       uint (dc b') = (if readKeys p3 = UP then min 100 (uint (dc b) + 5)
                       else if readKeys p3 = DOWN then max 0 (uint (dc b) - 5) else uint (dc b)))"
proof -
  have ok: "tmr_ok (tmr b)" "tmrResolutionMs (tmr b) ! 0 = 10" "unat (dc b) \<le> 100" "5 dvd unat (dc b)"
    using assms(1) by (simp_all add: bl_inv_def)
  let ?t = "(TMR0_Handler ^^ n) (tmr b)"
  have t: "tmr_ok ?t" "since n 0 ?t" using since_handlers [OF ok(1) assms(2), of n] by simp_all
  have "s32 (10 * int n) = 10 * int n" using assms(4) by (intro s32_id) simp_all
  then have v: "timer 0 RUN ?t = Some (10 * int n, ?t)" using timer_run [OF t(1) _ t(2)] ok(2) by simp
  show ?thesis
  proof (cases "n \<le> 20")
    case True
    then show ?thesis using v t assms(3) by (simp add: run_append run_ticks bl_step_def bl_test_def)
  next
    case False
    obtain c where c: "timer 0 RESET ?t = Some (0, ?t\<lparr>timers := (timers ?t)[0 := c]\<rparr>)" "since 0 0 (?t\<lparr>timers := (timers ?t)[0 := c]\<rparr>)"
      using timer_reset [OF t(1), of 0] by auto
    let ?b = "b\<lparr>tmr := ?t\<lparr>timers := (timers ?t)[0 := c]\<rparr>, phase := Serve\<rparr>"
    have r: "bl_run (replicate n Tick @ [Main p1, Main p2, Main p3]) b = Some (bl_serve p3 ?b)"
      using v c(1) assms(3) False by (simp add: run_append run_ticks bl_step_def bl_test_def bl_reset_def)
    then show ?thesis
      using False c(2) dc_up_sat [OF ok(3,4)] dc_down_sat [OF ok(4)] by (simp add: serve_effect split: if_splits)
  qed
qed

section \<open>Witnesses\<close>

definition tmr0 :: tmr_state where
  "tmr0 = \<lparr>tmrTicks = [0, 0], tmrResolutionMs = [0, 0], timers = replicate 10 0, tbus = mmio0\<rparr>"

lemma tmr0_ok: "tmr_ok tmr0"
  by (simp add: tmr0_def tmr_ok_def)

lemma pll0: "pll_locks (\<lambda>_. 0x40) (\<lambda>_. 0x0600000B)"
  by (intro conjI allI; (rule ready_const)?; simp)

theorem timer_elapsed_witness:
  "\<exists>t'. timer 3 RESET (tmr0\<lparr>tmrTicks := [2147483647, 0], tmrResolutionMs := [10, 0]\<rparr>) = Some (0, t') \<and>
     timer 3 RUN ((TMR0_Handler ^^ 25) t') = Some (250, (TMR0_Handler ^^ 25) t')"
  using timer_elapsed [of "tmr0\<lparr>tmrTicks := [2147483647, 0], tmrResolutionMs := [10, 0]\<rparr>" 3 25]
  by (auto simp: tmr_ok_def tmr0_def)

theorem backlight_invariant_witness:
  "\<exists>b0. bl_init (\<lambda>_. 0x40) (\<lambda>_. 0x0600000B) 0x4000 0x5000 0x80 tmr0 = Some b0 \<and>
     (\<forall>es. \<exists>b. bl_run es b0 = Some b \<and> unat (dc b) \<le> 100)"
  using backlight_invariant [OF pll0 tmr0_ok, of "0x4000" "0x5000" "0x80"] by blast

lemma tmr0_started:
  "\<exists>b. bl_init (\<lambda>_. 0x40) (\<lambda>_. 0x0600000B) 0x4000 0x5000 0x80 tmr0 = Some b \<and> bl_inv 0x4000 b \<and> since 0 0 (tmr b) \<and>
     phase b = Idle \<and> dc b = 0"
  using bl_init_since [OF pll0 tmr0_ok, of "0x4000" "0x5000" "0x80"] by (auto simp: bl_since_def)

theorem backlight_serves_witness:
  "\<exists>b b'. bl_init (\<lambda>_. 0x40) (\<lambda>_. 0x0600000B) 0x4000 0x5000 0x80 tmr0 = Some b \<and>
     bl_run (replicate 30 Tick @ [Main 0, Main 0, Main 0xFDFFFFFF]) b = Some b' \<and> uint (dc b') = 5"
proof -
  obtain b where b: "bl_init (\<lambda>_. 0x40) (\<lambda>_. 0x0600000B) 0x4000 0x5000 0x80 tmr0 = Some b" "bl_inv 0x4000 b"
    "since 0 0 (tmr b)" "phase b = Idle" "dc b = 0" using tmr0_started by blast
  have "readKeys 0xFDFFFFFF = UP" by (simp add: readKeys_def)
  then show ?thesis using backlight_serves [OF b(2-4), of 30 0 0 "0xFDFFFFFF"] b(1,5) by auto
qed

theorem backlight_rate_limit_witness:
  "\<exists>b0 b1 b2. bl_init (\<lambda>_. 0x40) (\<lambda>_. 0x0600000B) 0x4000 0x5000 0x80 tmr0 = Some b0 \<and>
     bl_run (replicate 30 Tick @ [Main 0]) b0 = Some b1 \<and> phase b1 = Due \<and>
     bl_run (Main 0 # Main 0 # replicate 25 Tick @ [Main 0]) b1 = Some b2 \<and> phase b2 = Due \<and>
     21 \<le> count_list (Main 0 # replicate 25 Tick @ [Main 0]) Tick"
proof -
  obtain b0 where b0: "bl_init (\<lambda>_. 0x40) (\<lambda>_. 0x0600000B) 0x4000 0x5000 0x80 tmr0 = Some b0" "bl_since 0x4000 0 b0" "phase b0 = Idle"
    using bl_init_since [OF pll0 tmr0_ok, of "0x4000" "0x5000" "0x80"] by blast
  obtain b1 where b1: "bl_run (replicate 30 Tick @ [Main 0]) b0 = Some b1" "phase b1 = Due" "bl_since 0x4000 30 b1"
    using due_after [OF b0(2,3), of 30 0] by auto
  obtain b where b: "bl_run [Main 0, Main 0] b1 = Some b" "phase b = Idle" "bl_since 0x4000 0 b"
    using served_after [OF b1(3,2)] by blast
  obtain b2 where b2: "bl_run (replicate 25 Tick @ [Main 0]) b = Some b2" "phase b2 = Due"
    using due_after [OF b(3,2), of 25 0] by auto
  have r: "bl_run (Main 0 # Main 0 # replicate 25 Tick @ [Main 0]) b1 = Some b2"
    using run_append [of "[Main 0, Main 0]" "replicate 25 Tick @ [Main 0]" b1] b2(1)
    unfolding b(1) append_Cons append_Nil bind.bind_lunit by (rule trans)
  show ?thesis using backlight_rate_limit [OF pll0 tmr0_ok b0(1) b1(1,2) r b2(2)] b0(1) b1(1,2) r b2(2) by blast
qed

end
