(* ===== verification/Oocan.thy ===== *)
theory Oocan
  imports Irq
begin

text \<open>
  The message oriented CAN driver \<^verbatim>\<open>drivers/oocan.c\<close> with \<^verbatim>\<open>drivers/oocan.h\<close>: one receive buffer per controller,
  transmission through the first free transmit buffer of controller 1, and the acceptance filter with
  its table in the filter's memory. The controllers' registers are words of the I/O bus; a register
  that the hardware sets holds what the hardware put there. Names that the buffered driver has too
  carry the suffix \<open>_oo\<close>; the offset \<open>VECT_PRIO_INDEX\<close> of the priority registers, which no header of the
  project defines, is a parameter.
\<close>

section \<open>Definitions\<close>

record CAN_MSG =
  Frame :: u32
  MsgID_oo :: u32
  DataA :: u32
  DataB :: u32

text \<open>The globals the driver works on, with the I/O bus.\<close>

record oocan_state =
  MsgBuf_RX1 :: CAN_MSG
  MsgBuf_RX2 :: CAN_MSG
  CAN1RxDone :: bool
  CAN2RxDone :: bool
  CANStatus :: u32
  CAN1RxCount :: int
  CAN2RxCount :: int
  CAN1ErrCount :: u32
  CAN2ErrCount :: u32
  cbus :: mmio

abbreviation (input) "CAN_MEM_BASE \<equiv> (0xE0038000 :: u32)"
abbreviation (input) "CAN_AFMR \<equiv> (0xE003C000 :: u32)"
abbreviation (input) "CAN_SFF_SA \<equiv> (0xE003C004 :: u32)"
abbreviation (input) "CAN_SFF_GRP_SA \<equiv> (0xE003C008 :: u32)"
abbreviation (input) "CAN_EFF_SA \<equiv> (0xE003C00C :: u32)"
abbreviation (input) "CAN_EFF_GRP_SA \<equiv> (0xE003C010 :: u32)"
abbreviation (input) "CAN_EOT \<equiv> (0xE003C014 :: u32)"
abbreviation (input) "CAN_RX_SR \<equiv> (0xE0040004 :: u32)"
abbreviation (input) "CAN1B \<equiv> (0xE0044000 :: u32)"
abbreviation (input) "CAN2B \<equiv> (0xE0048000 :: u32)"
abbreviation (input) "ACCF_ON \<equiv> (0x00 :: u32)"
abbreviation (input) "ACCF_OFF \<equiv> (0x01 :: u32)"
abbreviation (input) "ACCF_BYPASS \<equiv> (0x02 :: u32)"
abbreviation (input) "ACCF_FULLCAN \<equiv> (0x04 :: u32)"
abbreviation (input) "EXP_STD_ID \<equiv> (0x100 :: u32)"
abbreviation (input) "GRP_STD_ID \<equiv> (0x200 :: u32)"
abbreviation (input) "EXP_EXT_ID \<equiv> (0x100000 :: u32)"
abbreviation (input) "GRP_EXT_ID \<equiv> (0x200000 :: u32)"

definition install_irq_oo :: "u32 \<Rightarrow> int \<Rightarrow> u32 \<Rightarrow> u32 \<Rightarrow> mmio \<Rightarrow> bool \<times> mmio" where
  "install_irq_oo VECT_PRIO_INDEX IntNumber HandlerAddr Priority m =
     (let m = wr VICIntEnClr (arm_lsl 1 IntNumber) m
      in if IntNumber \<ge> VIC_SIZE then (False, m)
         else
           let m = wr (VIC_BASE_ADDR + VECT_ADDR_INDEX + word_of_int (IntNumber * 4)) HandlerAddr m;
               m = wr (VIC_BASE_ADDR + VECT_PRIO_INDEX + word_of_int (IntNumber * 4)) Priority m;
               m = wr VICIntEnable (arm_lsl 1 IntNumber) m
           in (True, m))"

definition rx_msg :: "u32 \<Rightarrow> mmio \<Rightarrow> CAN_MSG" where
  "rx_msg base m = \<lparr>Frame = rd (base + 0x20) m, MsgID_oo = rd (base + 0x24) m, DataA = rd (base + 0x28) m,
     DataB = rd (base + 0x2C) m\<rparr>"

definition CAN_ISR_Rx1 :: "oocan_state \<Rightarrow> oocan_state" where
  "CAN_ISR_Rx1 s = s\<lparr>MsgBuf_RX1 := rx_msg CAN1B (cbus s), CAN1RxDone := True, cbus := wr (CAN1B + 0x04) 0x04 (cbus s)\<rparr>"

definition CAN_ISR_Rx2 :: "oocan_state \<Rightarrow> oocan_state" where
  "CAN_ISR_Rx2 s = s\<lparr>MsgBuf_RX2 := rx_msg CAN2B (cbus s), CAN2RxDone := True, cbus := wr (CAN2B + 0x04) 0x04 (cbus s)\<rparr>"

definition CAN_Handler_oo :: "oocan_state \<Rightarrow> oocan_state" where
  "CAN_Handler_oo s =
     (let s = s\<lparr>CANStatus := rd CAN_RX_SR (cbus s)\<rparr>;
          s = (if CANStatus s AND push_bit 8 1 \<noteq> 0 then CAN_ISR_Rx1 (s\<lparr>CAN1RxCount := s32 (CAN1RxCount s + 1)\<rparr>) else s);
          s = (if CANStatus s AND push_bit 9 1 \<noteq> 0 then CAN_ISR_Rx2 (s\<lparr>CAN2RxCount := s32 (CAN2RxCount s + 1)\<rparr>) else s);
          s = (if rd (CAN1B + 0x08) (cbus s) AND push_bit 6 1 \<noteq> 0
               then s\<lparr>CAN1ErrCount := drop_bit 16 (rd (CAN1B + 0x08) (cbus s))\<rparr> else s);
          s = (if rd (CAN2B + 0x08) (cbus s) AND push_bit 6 1 \<noteq> 0
               then s\<lparr>CAN2ErrCount := drop_bit 16 (rd (CAN2B + 0x08) (cbus s))\<rparr> else s)
      in s\<lparr>cbus := wr VICVectAddr 0 (cbus s)\<rparr>)"

text \<open>A chained assignment stores into its right-hand register first.\<close>

definition wr_both :: "u32 \<Rightarrow> u32 \<Rightarrow> mmio \<Rightarrow> mmio" where
  "wr_both off v m = wr (CAN1B + off) v (wr (CAN2B + off) v m)"

definition CAN_Init :: "u32 \<Rightarrow> u32 \<Rightarrow> u32 \<Rightarrow> oocan_state \<Rightarrow> bool \<times> oocan_state" where
  "CAN_Init VECT_PRIO_INDEX hnd can_btr s =
     (let s = s\<lparr>CAN1RxDone := False, CAN2RxDone := False\<rparr>;
          m = wr_or 0xE01FC0C4 (push_bit 13 1 OR push_bit 14 1) (cbus s);
          m = wr_and 0xE002C000 (NOT 0x00000F0F) m;
          m = wr_or 0xE002C000 0x0000A05 m;
          m = wr_both 0x00 1 m;
          m = wr_both 0x10 0 m;
          m = wr_both 0x08 0 m;
          m = wr_both 0x14 can_btr m;
          m = wr_both 0x00 0 m;
          (_, m) = install_irq_oo VECT_PRIO_INDEX 23 hnd HIGHEST_PRIORITY m;
          m = wr_both 0x10 0x01 m
      in (True, s\<lparr>cbus := m\<rparr>))"

section \<open>Acceptance filter\<close>

text \<open>Two standard identifiers share a word of the table; an extended identifier has one of its own.\<close>

fun std_loop :: "u32 \<Rightarrow> u32 list \<Rightarrow> u32 \<times> mmio \<Rightarrow> u32 \<times> mmio" where
  "std_loop ID [] am = am"
| "std_loop ID (i # is) (address, m) =
     (let ID_low = push_bit 29 i OR push_bit 16 ID;
          ID_high = push_bit 13 (i + 1) OR push_bit 0 ID
      in std_loop ID is (address + 4, wr (CAN_MEM_BASE + address) (ID_low OR ID_high) m))"

fun ext_loop :: "u32 \<Rightarrow> u32 list \<Rightarrow> u32 \<times> mmio \<Rightarrow> u32 \<times> mmio" where
  "ext_loop ID [] am = am"
| "ext_loop ID (i # is) (address, m) =
     (let ID_low = push_bit 29 i OR push_bit 0 ID
      in ext_loop ID is (address + 4, wr (CAN_MEM_BASE + address) ID_low m))"

definition CAN_SetACCF_Lookup :: "mmio \<Rightarrow> mmio" where
  "CAN_SetACCF_Lookup m =
     (let address = 0;
          m = wr CAN_SFF_SA address m;
          (address, m) = std_loop EXP_STD_ID [0, 2] (address, m);
          m = wr CAN_SFF_GRP_SA address m;
          (address, m) = std_loop GRP_STD_ID [0, 2] (address, m);
          m = wr CAN_EFF_SA address m;
          (address, m) = ext_loop EXP_EXT_ID [0, 1, 2, 3] (address, m);
          m = wr CAN_EFF_GRP_SA address m;
          (address, m) = ext_loop GRP_EXT_ID [0, 1, 2, 3] (address, m)
      in wr CAN_EOT address m)"

definition CAN_SetACCF :: "u32 \<Rightarrow> mmio \<Rightarrow> mmio" where
  "CAN_SetACCF ACCFMode m =
     (if ACCFMode = ACCF_OFF then
        let m = wr CAN_AFMR ACCFMode m; m = wr_both 0x00 1 m; m = wr_both 0x10 0 m in wr_both 0x08 0 m
      else if ACCFMode = ACCF_BYPASS then wr CAN_AFMR ACCFMode m
      else if ACCFMode = ACCF_ON \<or> ACCFMode = ACCF_FULLCAN then
        wr CAN_AFMR ACCFMode (CAN_SetACCF_Lookup (wr CAN_AFMR ACCF_OFF m))
      else m)"

section \<open>Transmission\<close>

definition load_tx :: "u32 \<Rightarrow> u32 \<Rightarrow> CAN_MSG \<Rightarrow> mmio \<Rightarrow> mmio" where
  "load_tx off cmd pTxBuf m = wrs [(CAN1B + off, Frame pTxBuf AND 0xC00F0000), (CAN1B + off + 4, MsgID_oo pTxBuf),
     (CAN1B + off + 8, DataA pTxBuf), (CAN1B + off + 0xC, DataB pTxBuf), (CAN1B + 0x04, cmd)] m"

definition CAN1_SendMessage :: "CAN_MSG \<Rightarrow> mmio \<Rightarrow> bool \<times> mmio" where
  "CAN1_SendMessage pTxBuf m =
     (let status = rd (CAN1B + 0x1C) m in
      if status AND 0x00000004 \<noteq> 0 then (True, load_tx 0x30 0x21 pTxBuf m)
      else if status AND 0x00000400 \<noteq> 0 then (True, load_tx 0x40 0x41 pTxBuf m)
      else if status AND 0x00040000 \<noteq> 0 then (True, load_tx 0x50 0x81 pTxBuf m)
      else (False, m))"

section \<open>Properties\<close>

text \<open>
  The acceptance filter is switched off while its table is written: switching it on stores only
  between a store that turns the filter off and the one that turns it on, the five section addresses
  ascend without a gap, and the table holds for each of the four controller numbers the explicit and
  the group identifier, standard (two to a word) and extended (one to a word), in ascending order.
\<close>
theorem oocan_filter_table:
  assumes "ACCFMode = ACCF_ON \<or> ACCFMode = ACCF_FULLCAN"
  shows "\<exists>l. wlog (CAN_SetACCF ACCFMode m) = wlog m @ [(CAN_AFMR, ACCF_OFF)] @ l @ [(CAN_AFMR, ACCFMode)] \<and>
    CAN_AFMR \<notin> fst ` set l \<and> (let m' = CAN_SetACCF ACCFMode m in
     map (\<lambda>a. rd a m') [CAN_SFF_SA, CAN_SFF_GRP_SA, CAN_EFF_SA, CAN_EFF_GRP_SA, CAN_EOT] = [0, 8, 16, 32, 48] \<and>
     (\<forall>i < 2. let w = rd (CAN_MEM_BASE + 4 * of_nat i) m'; v = rd (CAN_MEM_BASE + 8 + 4 * of_nat i) m' in
        unat (drop_bit 29 w) = 2 * i \<and> take_bit 13 (drop_bit 16 w) = EXP_STD_ID \<and>
        unat (take_bit 3 (drop_bit 13 w)) = 2 * i + 1 \<and> take_bit 13 w = EXP_STD_ID \<and>
        unat (drop_bit 29 v) = 2 * i \<and> take_bit 13 (drop_bit 16 v) = GRP_STD_ID \<and>
        unat (take_bit 3 (drop_bit 13 v)) = 2 * i + 1 \<and> take_bit 13 v = GRP_STD_ID) \<and>
     (\<forall>i < 4. let w = rd (CAN_MEM_BASE + 16 + 4 * of_nat i) m'; v = rd (CAN_MEM_BASE + 32 + 4 * of_nat i) m' in
        unat (drop_bit 29 w) = i \<and> take_bit 29 w = EXP_EXT_ID \<and> unat (drop_bit 29 v) = i \<and> take_bit 29 v = GRP_EXT_ID))"
proof -
  have m: "CAN_SetACCF ACCFMode m = wr CAN_AFMR ACCFMode (CAN_SetACCF_Lookup (wr CAN_AFMR ACCF_OFF m))"
    using assms by (auto simp: CAN_SetACCF_def)
  have two: "(\<forall>i < 2. P i) = (P 0 \<and> P (Suc 0))" "(\<forall>i < 4. P i) = (P 0 \<and> P (Suc 0) \<and> P 2 \<and> P 3)" for P :: "nat \<Rightarrow> bool"
    by (auto simp: numeral_eq_Suc All_less_Suc)
  have "map (\<lambda>a. rd a (CAN_SetACCF ACCFMode m)) [CAN_SFF_SA, CAN_SFF_GRP_SA, CAN_EFF_SA, CAN_EFF_GRP_SA, CAN_EOT] = [0, 8, 16, 32, 48]"
    by (simp add: m CAN_SetACCF_Lookup_def mmio_simps)
  moreover have "\<forall>i < 2. let w = rd (CAN_MEM_BASE + 4 * of_nat i) (CAN_SetACCF ACCFMode m);
        v = rd (CAN_MEM_BASE + 8 + 4 * of_nat i) (CAN_SetACCF ACCFMode m) in
        unat (drop_bit 29 w) = 2 * i \<and> take_bit 13 (drop_bit 16 w) = EXP_STD_ID \<and>
        unat (take_bit 3 (drop_bit 13 w)) = 2 * i + 1 \<and> take_bit 13 w = EXP_STD_ID \<and>
        unat (drop_bit 29 v) = 2 * i \<and> take_bit 13 (drop_bit 16 v) = GRP_STD_ID \<and>
        unat (take_bit 3 (drop_bit 13 v)) = 2 * i + 1 \<and> take_bit 13 v = GRP_STD_ID"
    unfolding two by (simp add: m CAN_SetACCF_Lookup_def mmio_simps Let_def)
  moreover have "\<forall>i < 4. let w = rd (CAN_MEM_BASE + 16 + 4 * of_nat i) (CAN_SetACCF ACCFMode m);
        v = rd (CAN_MEM_BASE + 32 + 4 * of_nat i) (CAN_SetACCF ACCFMode m) in
        unat (drop_bit 29 w) = i \<and> take_bit 29 w = EXP_EXT_ID \<and> unat (drop_bit 29 v) = i \<and> take_bit 29 v = GRP_EXT_ID"
    unfolding two by (simp add: m CAN_SetACCF_Lookup_def mmio_simps Let_def)
  moreover have "\<exists>l. wlog (CAN_SetACCF ACCFMode m) = wlog m @ [(CAN_AFMR, ACCF_OFF)] @ l @ [(CAN_AFMR, ACCFMode)] \<and>
    CAN_AFMR \<notin> fst ` set l"
    by (simp add: m CAN_SetACCF_Lookup_def mmio_simps)
  ultimately show ?thesis by (auto simp: Let_def)
qed

lemma and_bit: "(v AND 0x4 = 0) = (\<not> bit v 2)" "(v AND 0x40 = 0) = (\<not> bit v 6)" "(v AND 0x100 = 0) = (\<not> bit v 8)"
  "(v AND 0x200 = 0) = (\<not> bit v 9)" "(v AND 0x400 = 0) = (\<not> bit v 10)" "(v AND 0x40000 = 0) = (\<not> bit v 18)" for v :: u32
  using and_exp_eq_0_iff_not_bit [of v 2] and_exp_eq_0_iff_not_bit [of v 6] and_exp_eq_0_iff_not_bit [of v 8]
    and_exp_eq_0_iff_not_bit [of v 9] and_exp_eq_0_iff_not_bit [of v 10] and_exp_eq_0_iff_not_bit [of v 18] by simp_all

text \<open>The four registers of transmit buffer \<open>k\<close>.\<close>

definition tx_buffer :: "nat \<Rightarrow> mmio \<Rightarrow> u32 list" where
  "tx_buffer k m = map (\<lambda>j. rd (CAN1B + 0x30 + 0x10 * of_nat k + 4 * of_nat j) m) [0 ..< 4]"

text \<open>
  CAN1_SendMessage uses the first transmit buffer the status register shows free: it loads that buffer
  with the message, leaves the other two alone and requests its transmission; when all three are busy
  it returns FALSE and stores nothing.
\<close>
theorem oocan_send_first_free:
  fixes m defines "free \<equiv> \<lambda>k. bit (rd (CAN1B + 0x1C) m) (2 + 8 * k)"
  shows "(\<forall>k < 3. \<not> free k) \<and> CAN1_SendMessage msg m = (False, m) \<or>
    (\<exists>k m'. k < 3 \<and> free k \<and> (\<forall>j < k. \<not> free j) \<and> CAN1_SendMessage msg m = (True, m') \<and>
       tx_buffer k m' = [Frame msg AND 0xC00F0000, MsgID_oo msg, DataA msg, DataB msg] \<and>
       (\<forall>j < 3. j \<noteq> k \<longrightarrow> tx_buffer j m' = tx_buffer j m) \<and> rd (CAN1B + 0x04) m' = 1 OR push_bit (5 + k) 1)"
proof -
  have three: "(\<forall>j < 3. P j) = (P 0 \<and> P (Suc 0) \<and> P 2)" for P :: "nat \<Rightarrow> bool" by (auto simp: numeral_eq_Suc All_less_Suc)
  have l: "[0 ..< 4] = [0, Suc 0, 2, 3]" by (simp add: upt_rec numeral_eq_Suc)
  let ?s = "rd (CAN1B + 0x1C) m"
  consider "bit ?s 2" | "\<not> bit ?s 2" "bit ?s 10" | "\<not> bit ?s 2" "\<not> bit ?s 10" "bit ?s 18" | "\<not> bit ?s 2" "\<not> bit ?s 10" "\<not> bit ?s 18"
    by blast
  then show ?thesis
  proof cases
    case 1
    then show ?thesis
      by (intro disjI2 exI [of _ 0]) (simp add: numeral_2_eq_2 [symmetric] CAN1_SendMessage_def Let_def and_bit free_def load_tx_def three tx_buffer_def l mmio_simps)
  next
    case 2
    then show ?thesis
      by (intro disjI2 exI [of _ "Suc 0"]) (simp add: numeral_2_eq_2 [symmetric] CAN1_SendMessage_def Let_def and_bit free_def load_tx_def three tx_buffer_def l mmio_simps)
  next
    case 3
    then show ?thesis
      by (intro disjI2 exI [of _ 2]) (auto simp: numeral_2_eq_2 [symmetric] CAN1_SendMessage_def Let_def and_bit free_def load_tx_def three tx_buffer_def l mmio_simps less_2_cases_iff)
  next
    case 4
    then show ?thesis by (simp add: numeral_2_eq_2 [symmetric] CAN1_SendMessage_def Let_def and_bit free_def three)
  qed
qed

text \<open>
  The interrupt handler takes the received frame of each controller the status register names: the frame,
  identifier and data registers go to that controller's buffer, its count and its flag are set and its
  receive buffer is released; a controller not named keeps its buffer and count; the interrupt is
  acknowledged by the last store.
\<close>
theorem oocan_handler_receives:
  fixes s defines "s' \<equiv> CAN_Handler_oo s" and "m \<equiv> cbus s"
  shows "MsgBuf_RX1 s' = (if bit (rd CAN_RX_SR m) 8
      then \<lparr>Frame = rd 0xE0044020 m, MsgID_oo = rd 0xE0044024 m, DataA = rd 0xE0044028 m, DataB = rd 0xE004402C m\<rparr> else MsgBuf_RX1 s) \<and>
    MsgBuf_RX2 s' = (if bit (rd CAN_RX_SR m) 9
      then \<lparr>Frame = rd 0xE0048020 m, MsgID_oo = rd 0xE0048024 m, DataA = rd 0xE0048028 m, DataB = rd 0xE004802C m\<rparr> else MsgBuf_RX2 s) \<and>
    CAN1RxDone s' = (bit (rd CAN_RX_SR m) 8 \<or> CAN1RxDone s) \<and> CAN2RxDone s' = (bit (rd CAN_RX_SR m) 9 \<or> CAN2RxDone s) \<and>
    CAN1RxCount s' = (if bit (rd CAN_RX_SR m) 8 then s32 (CAN1RxCount s + 1) else CAN1RxCount s) \<and>
    CAN2RxCount s' = (if bit (rd CAN_RX_SR m) 9 then s32 (CAN2RxCount s + 1) else CAN2RxCount s) \<and>
    CAN1ErrCount s' = (if bit (rd 0xE0044008 m) 6 then drop_bit 16 (rd 0xE0044008 m) else CAN1ErrCount s) \<and>
    wlog (cbus s') = wlog m @ (if bit (rd CAN_RX_SR m) 8 then [(0xE0044004, 4)] else []) @
      (if bit (rd CAN_RX_SR m) 9 then [(0xE0048004, 4)] else []) @ [(VICVectAddr, 0)]"
  by (simp add: s'_def m_def CAN_Handler_oo_def and_bit Let_def CAN_ISR_Rx1_def CAN_ISR_Rx2_def rx_msg_def mmio_simps)

theorem oocan_filter_table_witness:
  "rd 0xE0038000 (CAN_SetACCF 0 mmio0) AND 0x1FFF = 0x100"
  using oocan_filter_table [of 0 mmio0]
  by (auto simp: Let_def take_bit_eq_mask mask_eq_exp_minus_1 dest!: spec [of _ 0])

text \<open>Buffer 1 busy, buffer 2 free.\<close>

theorem oocan_send_first_free_witness:
  "\<exists>m'. CAN1_SendMessage \<lparr>Frame = 0x80000, MsgID_oo = 5, DataA = 1, DataB = 2\<rparr> (wr 0xE004401C 0x400 mmio0) = (True, m') \<and>
     tx_buffer 1 m' = [0x80000, 5, 1, 2]"
proof -
  let ?m = "wr 0xE004401C 0x400 mmio0"
  have f: "bit (rd (CAN1B + 0x1C) ?m) (2 + 8 * k) = (k = 1)" for k
  proof -
    have "bit (0x400 :: u32) j = (j = 10)" for j using bit_exp_iff [of 10 j, where 'a = "32 word"] by auto
    moreover have "rd (CAN1B + 0x1C) ?m = 0x400" by (simp add: mmio_simps)
    ultimately show ?thesis by (simp only:) presburger
  qed
  from oocan_send_first_free [of ?m "\<lparr>Frame = 0x80000, MsgID_oo = 5, DataA = 1, DataB = 2\<rparr>"]
  show ?thesis unfolding f by (auto dest: spec [of _ "Suc 0"])
qed

end
