(* ===== verification/Codesign.thy ===== *)
theory Codesign
  imports Backlight Spi Rprintf
begin

text \<open>
  The FPGA codesign application \<^verbatim>\<open>src/Codesign_FPGA_IP/App\<close>: timers with a callback (\<^verbatim>\<open>timer.c\<close>), the
  analogue input (\<^verbatim>\<open>adc.c\<close>), the SPI port (\<^verbatim>\<open>spi.c\<close>), the joystick (\<^verbatim>\<open>keys.c\<close>), the memory interface
  to the FPGA (\<^verbatim>\<open>framework.c\<close>) and a main loop (\<^verbatim>\<open>main.c\<close>) that counts key presses and writes two
  16-bit registers of the FPGA. \<^verbatim>\<open>irq.c\<close> and \<^verbatim>\<open>VIClowlevel.c\<close> are the files modelled in \<open>Irq\<close>, \<^verbatim>\<open>uart.c\<close> and
  \<^verbatim>\<open>rprintf.c\<close> those modelled in \<open>Platform\<close> and \<open>Rprintf\<close>; the clock part of \<open>lowLevelInit\<close> is that of
  \<open>Platform\<close>. The definitions whose name another project uses carry the prefix \<open>cs_\<close>.
\<close>

section \<open>Start-up\<close>

abbreviation (input) "AD0CR \<equiv> (0xE0034000 :: u32)"
abbreviation (input) "AD0INTEN \<equiv> (0xE003400C :: u32)"
abbreviation (input) "PINSEL1 \<equiv> (0xE002C004 :: u32)"
abbreviation (input) "PINMODE1 \<equiv> (0xE002C044 :: u32)"
abbreviation (input) "T0MR1 \<equiv> (0xE000401C :: u32)"
abbreviation (input) "IODIR0 \<equiv> (0xE0028008 :: u32)"
abbreviation (input) "IOSET0 \<equiv> (0xE0028004 :: u32)"

text \<open>After the clock, the pins and timing of the static memory bank the FPGA is attached to.\<close>

definition cs_lowLevelInit :: "(nat \<Rightarrow> u32) \<Rightarrow> (nat \<Rightarrow> u32) \<Rightarrow> mmio \<Rightarrow> mmio option" where
  "cs_lowLevelInit scs pllstat m = do {
     m \<leftarrow> lowLevelInit scs pllstat m;
     let m = wr 0xFFE08000 0x00000001 m;
     let m = wr_or SYS_PCONP 0x00000800 m;
     let m = wrs [(0xE002C010, 0x10000000), (0xE002C018, 0x55555555), (0xE002C020, 0x55555555),
                  (0xE002C024, 0x50555555)] m;
     Some (wrs [(0xFFE08240, 0x00000081), (0xFFE08248, 0), (0xFFE0824C, 8), (0xFFE08244, 0),
                (0xFFE08254, 0x8), (0xFFE08250, 0x1f), (0xFFE08258, 0xf)] m)
   }"

section \<open>Timers\<close>

text \<open>
  The statics of \<^verbatim>\<open>timer.c\<close>: those of the backlight program and the callbacks, a null pointer or a
  routine on the I/O registers, which may not return.
\<close>

record cs_timer_state =
  cs_tmr :: tmr_state
  callbacks :: "(mmio \<Rightarrow> mmio option) option list"

definition cs_TMR0_Handler :: "cs_timer_state \<Rightarrow> cs_timer_state option" where
  "cs_TMR0_Handler c = do {
     let t = cs_tmr c;
     let t = t\<lparr>tmrTicks := (tmrTicks t)[0 := s32 (tmrTicks t ! 0 + 1)]\<rparr>;
     m \<leftarrow> (case callbacks c ! 0 of None \<Rightarrow> Some (tbus t) | Some f \<Rightarrow> f (tbus t));
     Some (c\<lparr>cs_tmr := t\<lparr>tbus := wr VICVectAddr 0 (wr T0IR 0xff m)\<rparr>\<rparr>)
   }"

definition cs_TMR1_Handler :: "cs_timer_state \<Rightarrow> cs_timer_state" where
  "cs_TMR1_Handler c = c\<lparr>cs_tmr := TMR1_Handler (cs_tmr c)\<rparr>"

text \<open>
  Programming a timer for a match value and a resolution; timer 0 uses match register 1, timer 1
  match register 0. \<open>h0\<close> and \<open>h1\<close> are the addresses of the two handlers.
\<close>

definition cs_setup :: "u32 \<Rightarrow> u32 \<Rightarrow> int \<Rightarrow> u32 \<Rightarrow> int \<Rightarrow> cs_timer_state \<Rightarrow> int \<times> cs_timer_state" where
  "cs_setup h0 h1 TimerNum match resolution c =
     (let t = cs_tmr c in
      if TimerNum = 0 then
        let m = wrs [(T0TCR, 0x02), (T0PR, 0x00), (T0MR1, match), (T0IR, 0xff), (T0MCR, 0x18)] (tbus t);
            t = t\<lparr>tmrResolutionMs := (tmrResolutionMs t)[0 := resolution]\<rparr>;
            (ok, m) = install_irq TIMER0_INT h0 HIGHEST_PRIORITY m
        in (if ok then 0 else - 1, c\<lparr>cs_tmr := t\<lparr>tbus := m\<rparr>\<rparr>)
      else if TimerNum = 1 then
        let m = wrs [(T1TCR, 0x02), (T1PR, 0x00), (T1MR0, match), (T1IR, 0xff), (T1MCR, 0x03)] (tbus t);
            t = t\<lparr>tmrResolutionMs := (tmrResolutionMs t)[1 := resolution]\<rparr>;
            (ok, m) = install_irq TIMER1_INT h1 HIGHEST_PRIORITY m
        in (if ok then 0 else - 1, c\<lparr>cs_tmr := t\<lparr>tbus := m\<rparr>\<rparr>)
      else (- 1, c))"

definition initTimerTicks :: "u32 \<Rightarrow> u32 \<Rightarrow> int \<Rightarrow> int \<Rightarrow> (mmio \<Rightarrow> mmio option) option \<Rightarrow> cs_timer_state \<Rightarrow>
    int \<times> cs_timer_state" where
  "initTimerTicks h0 h1 TimerNum ticks cb c =
     cs_setup h0 h1 TimerNum (word_of_int ticks) ticks
       (if TimerNum = 0 then c\<lparr>callbacks := (callbacks c)[0 := cb]\<rparr> else c)"

definition cs_initTimer :: "u32 \<Rightarrow> u32 \<Rightarrow> int \<Rightarrow> int \<Rightarrow> cs_timer_state \<Rightarrow> int \<times> cs_timer_state" where
  "cs_initTimer h0 h1 TimerNum IntervalMs c =
     cs_setup h0 h1 TimerNum (word_of_int (IntervalMs * (28800000 div (1000 - 1)))) IntervalMs c"

definition cs_enableTimer :: "int \<Rightarrow> cs_timer_state \<Rightarrow> cs_timer_state" where
  "cs_enableTimer timerNum c = c\<lparr>cs_tmr := enableTimer timerNum (cs_tmr c)\<rparr>"

definition cs_disableTimer :: "int \<Rightarrow> cs_timer_state \<Rightarrow> cs_timer_state" where
  "cs_disableTimer timerNum c = c\<lparr>cs_tmr := disableTimer timerNum (cs_tmr c)\<rparr>"

text \<open>Unlike in the backlight program, an unknown timer has resolution -1 and a soft timer above 10 returns -1.\<close>

definition cs_getTimerTicks :: "int \<Rightarrow> cs_timer_state \<Rightarrow> int option" where
  "cs_getTimerTicks timerNum c = getTimerTicks timerNum (cs_tmr c)"

definition cs_getTimerResolution :: "int \<Rightarrow> cs_timer_state \<Rightarrow> int" where
  "cs_getTimerResolution timerNum c =
     (if timerNum = 0 then tmrResolutionMs (cs_tmr c) ! 0
      else if timerNum = 1 then tmrResolutionMs (cs_tmr c) ! 1 else - 1)"

definition cs_timer :: "int \<Rightarrow> int \<Rightarrow> cs_timer_state \<Rightarrow> (int \<times> cs_timer_state) option" where
  "cs_timer timerNum clear c =
     (if timerNum < 11 then do {
        n \<leftarrow> cs_getTimerTicks 0 c;
        let now = s32 (cs_getTimerResolution 0 c * n);
        let t = cs_tmr c;
        if timerNum < 0 \<or> timerNum \<ge> int (length (timers t)) then None
        else if clear \<noteq> 0 then Some (0, c\<lparr>cs_tmr := t\<lparr>timers := (timers t)[nat timerNum := now]\<rparr>\<rparr>)
        else Some (s32 (now - timers t ! nat timerNum), c)
      } else Some (- 1, c))"

section \<open>Analogue input\<close>

abbreviation (input) "ADC_TIMED_START \<equiv> (0x4 OR 0x600 OR push_bit 21 1 OR push_bit 26 1 :: u32)"
abbreviation (input) "ADC_INIT_MASK \<equiv> (0x4 OR 0x600 OR push_bit 21 1 OR push_bit 24 1 :: u32)"

definition initAdc :: "int \<Rightarrow> mmio \<Rightarrow> int \<times> mmio" where
  "initAdc channel m =
     (if channel \<noteq> 2 then (- 1, m)
      else
        let m = wr AD0CR 0 m;
            m = wr_or SYS_PCONP (push_bit 12 1) m;
            m = wr_and PCLKSEL0 (NOT (push_bit 25 1 OR push_bit 24 1)) m;
            m = wr_or PCLKSEL0 (push_bit 24 1) m;
            m = wr_and PINSEL1 (NOT (push_bit 19 1 OR push_bit 18 1)) m;
            m = wr_or PINSEL1 (push_bit 18 1) m;
            m = wr_and PINMODE1 (NOT (push_bit 19 1 OR push_bit 18 1)) m;
            m = wr_or PINMODE1 (push_bit 19 1) m;
            m = (if rd T0MCR m AND 0x18 \<noteq> 0 then wr AD0CR ADC_TIMED_START m else wr AD0CR ADC_INIT_MASK m)
        in (0, wr AD0INTEN 0x1FF m))"

text \<open>\<open>gdr\<close> are the reads of the global data register from read \<open>n\<close> on; the result has the next index.\<close>

definition readAdc :: "(nat \<Rightarrow> u32) \<Rightarrow> nat \<Rightarrow> int \<Rightarrow> mmio \<Rightarrow> (int \<times> nat \<times> mmio) option" where
  "readAdc gdr n channel m = do {
     k \<leftarrow> poll (\<lambda>v. v AND 0x80000000 \<noteq> 0) gdr n;
     let stat = gdr k;
     let m = wr AD0CR ADC_TIMED_START m;
     Some (uint (signed_drop_bit 6 stat AND 0x3FF), Suc k, m)
   }"

section \<open>SPI port and keys\<close>

definition cs_SPIInit :: "int \<Rightarrow> u8 \<Rightarrow> u8 \<Rightarrow> u8 \<Rightarrow> mmio \<Rightarrow> mmio option" where
  "cs_SPIInit wClock bCPHA bCPOL bLSBF m =
     (case spi_divisor wClock of
        None \<Rightarrow> None
      | Some wTempClock \<Rightarrow>
          let m = wr S0SPCCR (word_of_int wTempClock) m;
              m = wr S0SPCR 0x00 m;
              m = wr_or SPI_PINSEL0 0xc0000000 m;
              m = wr_or SPI_PINSEL1 0x0000003c m;
              m = wr_or IODIR0 (push_bit 20 1) m;
              m = wr IOSET0 (push_bit 20 1) m
          in Some (wr_or S0SPCR (push_bit 3 (ucast bCPHA) OR push_bit 4 (ucast bCPOL) OR 0x20 OR
                                 push_bit 6 (ucast bLSBF)) m))"

definition SPIWrite :: "(nat \<Rightarrow> u32) \<Rightarrow> u8 \<Rightarrow> spi_io \<Rightarrow> spi_io" where
  "SPIWrite sts nData s =
     (let s = s\<lparr>sbus := wr S0SPDR (ucast nData) (sbus s)\<rparr>;
          s = s\<lparr>sts_reads := sts_reads s + spi_wait sts (sts_reads s) 0\<rparr>
      in snd (SPIError sts s))"

definition SPIRead :: "(nat \<Rightarrow> u32) \<Rightarrow> (nat \<Rightarrow> u32) \<Rightarrow> spi_io \<Rightarrow> u8 \<times> spi_io" where
  "SPIRead sts rxs s =
     (let (_, s) = SPIError sts s
      in (ucast (rxs (dr_reads s)), s\<lparr>dr_reads := dr_reads s + 1\<rparr>))"

definition cs_SpiXfer :: "(nat \<Rightarrow> u32) \<Rightarrow> (nat \<Rightarrow> u32) \<Rightarrow> u8 \<Rightarrow> spi_io \<Rightarrow> u8 \<times> spi_io" where
  "cs_SpiXfer sts rxs nData s =
     (let s = s\<lparr>sbus := wr S0SPDR (ucast nData) (sbus s)\<rparr>;
          s = s\<lparr>sts_reads := sts_reads s + spi_wait sts (sts_reads s) 0\<rparr>;
          (_, s) = SPIError sts s
      in (ucast (rxs (dr_reads s)), s\<lparr>dr_reads := dr_reads s + 1\<rparr>))"

definition initKeys :: "mmio \<Rightarrow> mmio" where
  "initKeys m = wr_and FIO2DIR (NOT (CENTER OR LEFT OR RIGHT OR UP OR DOWN)) m"

section \<open>The main program\<close>

abbreviation (input) "WBO_REG1 \<equiv> (0x82000000 :: u32)"
abbreviation (input) "WBO_REG2 \<equiv> (0x82000002 :: u32)"
abbreviation (input) "FPGA_RESET \<equiv> (0x80000 :: u32)"
abbreviation (input) "CNT_UP \<equiv> (0 :: int)"
abbreviation (input) "CNT_DWN \<equiv> (1 :: int)"
abbreviation (input) "PWM_UP \<equiv> (2 :: int)"
abbreviation (input) "PWM_DWN \<equiv> (3 :: int)"

text \<open>
  The callback of \<^verbatim>\<open>main.c\<close>; its local \<open>i\<close> has no initial value, which is a parameter. The program
  that would install it is compiled out.
\<close>

definition myCallback :: "int \<Rightarrow> (nat \<Rightarrow> u32) \<Rightarrow> nat \<Rightarrow> mmio \<Rightarrow> mmio option" where
  "myCallback i gdr n m = do {
     let i = s32 (i + 1);
     let m = (if i smod 2 \<noteq> 0 then wr FIO2CLR (push_bit 10 1) m else wr FIO2SET (push_bit 10 1) m);
     (_, _, m) \<leftarrow> readAdc gdr n 2 m;
     Some m
   }"

text \<open>
  The locals of \<open>main\<close> and the I/O bus with the number of serial status reads. \<open>count\<close> and \<open>pwm\<close> are
  16-bit; \<open>pressed\<close>, \<open>released\<close> and \<open>cmd\<close> have no initial value in the source.
\<close>

record cs_state =
  io :: "nat \<times> mmio"
  count :: int
  pwm :: int
  pressed :: int
  released :: int
  cmd :: int

definition cs_init :: "(nat \<Rightarrow> u32) \<Rightarrow> (nat \<Rightarrow> u32) \<Rightarrow> (nat \<Rightarrow> u32) \<Rightarrow> int \<Rightarrow> int \<Rightarrow> int \<Rightarrow> mmio \<Rightarrow> cs_state option" where
  "cs_init scs pllstat lsr pressed0 released0 cmd0 m = do {
     m \<leftarrow> cs_lowLevelInit scs pllstat m;
     let m = initUart0 (UART_BPS 28800000 115200) UART_8N1 m;
     let m = wr_or FIO2DIR FPGA_RESET m;
     let m = wr_or FIO2DIR (push_bit 10 1) m;
     let m = wr FIO2SET FPGA_RESET m;
     u \<leftarrow> rprintf1RamRom (uart_put lsr) ([13, 10] @ text_of ''Welcome to FPGA + ARM7 test program!'' @ [13, 10]) [] (0, m);
     (n, m) \<leftarrow> rprintf1RamRom (uart_put lsr) ([13, 10] @ text_of ''Push joystick '' @ [13, 10] @
        text_of '' UP/DOWN/RIGHT/LEFT '' @ [13, 10] @ text_of '' to light an LED on the Spartan 3A board'') [] u;
     let m = wr FIO2CLR FPGA_RESET m;
     let (_, m) = initAdc 2 m;
     Some \<lparr>io = (n, m), count = 0, pwm = - 0x8000, pressed = pressed0, released = released0, cmd = cmd0\<rparr>
   }"

definition cs_print :: "(nat \<Rightarrow> u32) \<Rightarrow> string \<Rightarrow> int \<Rightarrow> cs_state \<Rightarrow> cs_state option" where
  "cs_print lsr ws v s = do {
     u \<leftarrow> rprintf1RamRom (uart_put lsr) ([13, 10] @ text_of ws @ [0x25, 0x64, 0x3A]) [v] (io s);
     Some (s\<lparr>io := u\<rparr>)
   }"

definition cs_eval :: "(nat \<Rightarrow> u32) \<Rightarrow> cs_state \<Rightarrow> cs_state option" where
  "cs_eval lsr s =
     (if pressed s AND released s \<noteq> 0 then do {
        s \<leftarrow> (if cmd s = CNT_UP then
                let s = s\<lparr>count := s16 (count s + 1)\<rparr> in cs_print lsr '' Count is '' (count s) s
              else if cmd s = CNT_DWN then
                let s = s\<lparr>count := s16 (count s - 1)\<rparr> in cs_print lsr '' Count is '' (count s) s
              else if cmd s = PWM_UP then
                let s = s\<lparr>pwm := s16 (pwm s + 0x1000)\<rparr> in cs_print lsr '' PWM is '' (pwm s) s
              else if cmd s = PWM_DWN then
                let s = s\<lparr>pwm := s16 (pwm s - 0x1000)\<rparr> in cs_print lsr '' PWM is '' (pwm s) s
              else Some s);
        Some (s\<lparr>pressed := 0, released := 0\<rparr>)
      } else Some s)"

text \<open>A store of a \<open>short\<close> to one of the 16-bit registers of the FPGA.\<close>

definition wbo :: "u32 \<Rightarrow> int \<Rightarrow> cs_state \<Rightarrow> cs_state" where
  "wbo reg v s = s\<lparr>io := (fst (io s), wr reg (ucast (word_of_int v :: u16)) (snd (io s)))\<rparr>"

definition cs_keys :: "u32 \<Rightarrow> cs_state \<Rightarrow> cs_state" where
  "cs_keys FIO2PIN s =
     (let key = readKeys FIO2PIN in
      if key = UP then (wbo WBO_REG1 (count s) s)\<lparr>cmd := CNT_UP, pressed := 1\<rparr>
      else if key = DOWN then (wbo WBO_REG1 (count s) s)\<lparr>cmd := CNT_DWN, pressed := 1\<rparr>
      else if key = LEFT then (wbo WBO_REG2 (pwm s) s)\<lparr>cmd := PWM_UP, pressed := 1\<rparr>
      else if key = RIGHT then (wbo WBO_REG2 (pwm s) s)\<lparr>cmd := PWM_DWN, pressed := 1\<rparr>
      else if key = CENTER then wbo WBO_REG2 0x8000 (wbo WBO_REG1 0 s)
      else s\<lparr>released := 1\<rparr>)"

text \<open>Rounds of the endless loop, with the port read in each.\<close>

fun cs_loop :: "(nat \<Rightarrow> u32) \<Rightarrow> u32 list \<Rightarrow> cs_state \<Rightarrow> cs_state option" where
  "cs_loop lsr [] s = Some s"
| "cs_loop lsr (p # ps) s = do { s \<leftarrow> cs_eval lsr s; cs_loop lsr ps (cs_keys p s) }"

section \<open>Properties\<close>

subsection \<open>Printing always returns\<close>

lemma s16_range: "- 32768 \<le> s16 x" "s16 x \<le> 32767"
  using signed_take_bit_int_greater_eq_minus_exp [of 15 x] signed_take_bit_int_less_exp [of 15 x]
  by (simp_all add: s16_def)

lemma cs_print_returns:
  assumes "uart_ready lsr" "ws = '' Count is '' \<or> ws = '' PWM is ''" "- 32768 \<le> v" "v \<le> 32767"
  shows "\<exists>u. cs_print lsr ws v s = Some (s\<lparr>io := u\<rparr>)"
proof -
  have "\<bar>v\<bar> < 100000" using assms(3,4) by simp
  then obtain bs where f: "format_spec ([13, 10] @ text_of ws @ [0x25, 0x64, 0x3A]) [v] = Some bs"
    using assms(2) by (cases "ws = '' Count is ''") (simp_all add: text_of_def)
  obtain n m where u: "io s = (n, m)" by (cases "io s")
  obtain n' m' where "rprintf1RamRom (uart_put lsr) ([13, 10] @ text_of ws @ [0x25, 0x64, 0x3A]) [v] (n, m) = Some (n', m')"
    using uart_emits [OF us.format_emits [OF f] assms(1), of n m] by blast
  then show ?thesis unfolding cs_print_def u by auto
qed

subsection \<open>Counting key presses\<close>

lemma wbo_simps [simp]:
  "count (wbo r v s) = count s" "pwm (wbo r v s) = pwm s" "pressed (wbo r v s) = pressed s"
  "released (wbo r v s) = released s" "cmd (wbo r v s) = cmd s"
  by (simp_all add: wbo_def)

text \<open>
  What the loop sees of the serial port and the bus does not steer it; \<open>sel\<close> keeps the variables
  that do. Evaluating a command adds to the variable it selects.
\<close>

definition sel :: "cs_state \<Rightarrow> int \<times> int \<times> int \<times> int \<times> int" where
  "sel s = (count s, pwm s, pressed s, released s, cmd s)"

definition key_cmd :: "u32 \<Rightarrow> int option" where
  "key_cmd k = (if k = UP then Some CNT_UP else if k = DOWN then Some CNT_DWN
     else if k = LEFT then Some PWM_UP else if k = RIGHT then Some PWM_DWN else None)"

definition bump :: "int \<Rightarrow> int \<times> int \<Rightarrow> int \<times> int" where
  "bump c = (\<lambda>(n, p).
     if c = CNT_UP then (s16 (n + 1), p) else if c = CNT_DWN then (s16 (n - 1), p)
     else if c = PWM_UP then (n, s16 (p + 0x1000)) else if c = PWM_DWN then (n, s16 (p - 0x1000)) else (n, p))"

lemma cs_eval_returns:
  assumes "uart_ready lsr"
  shows "\<exists>s'. cs_eval lsr s = Some s' \<and> cmd s' = cmd s \<and>
    (if pressed s AND released s \<noteq> 0
     then (count s', pwm s') = bump (cmd s) (count s, pwm s) \<and> pressed s' = 0 \<and> released s' = 0
     else s' = s)"
proof -
  have p: "\<exists>u. cs_print lsr '' Count is '' (s16 v) s' = Some (s'\<lparr>io := u\<rparr>)"
    "\<exists>u. cs_print lsr '' PWM is '' (s16 v) s' = Some (s'\<lparr>io := u\<rparr>)" for v s'
    using cs_print_returns [OF assms] s16_range by blast+
  obtain u1 where u1: "cs_print lsr '' Count is '' (s16 (count s + 1)) (s\<lparr>count := s16 (count s + 1)\<rparr>) =
    Some (s\<lparr>count := s16 (count s + 1), io := u1\<rparr>)" using p(1) by blast
  obtain u2 where u2: "cs_print lsr '' Count is '' (s16 (count s - 1)) (s\<lparr>count := s16 (count s - 1)\<rparr>) =
    Some (s\<lparr>count := s16 (count s - 1), io := u2\<rparr>)" using p(1) by blast
  obtain u3 where u3: "cs_print lsr '' PWM is '' (s16 (pwm s + 0x1000)) (s\<lparr>pwm := s16 (pwm s + 0x1000)\<rparr>) =
    Some (s\<lparr>pwm := s16 (pwm s + 0x1000), io := u3\<rparr>)" using p(2) by blast
  obtain u4 where u4: "cs_print lsr '' PWM is '' (s16 (pwm s - 0x1000)) (s\<lparr>pwm := s16 (pwm s - 0x1000)\<rparr>) =
    Some (s\<lparr>pwm := s16 (pwm s - 0x1000), io := u4\<rparr>)" using p(2) by blast
  show ?thesis by (simp add: cs_eval_def bump_def Let_def u1 u2 u3 u4)
qed

text \<open>The loop as a machine on these five variables.\<close>

fun cs_round :: "u32 \<Rightarrow> int \<times> int \<times> int \<times> int \<times> int \<Rightarrow> int \<times> int \<times> int \<times> int \<times> int" where
  "cs_round FIO2PIN (n, w, pr, rl, c) =
     (let (n, w) = (if pr AND rl \<noteq> 0 then bump c (n, w) else (n, w));
          (pr, rl) = (if pr AND rl \<noteq> 0 then (0, 0) else (pr, rl))
      in case key_cmd (readKeys FIO2PIN) of
           Some c' \<Rightarrow> (n, w, 1, rl, c')
         | None \<Rightarrow> if readKeys FIO2PIN = CENTER then (n, w, pr, rl, c) else (n, w, pr, 1, c))"

lemma cs_keys_sel:
  "sel (cs_keys p s) = (case key_cmd (readKeys p) of
       Some c' \<Rightarrow> (count s, pwm s, 1, released s, c')
     | None \<Rightarrow> if readKeys p = CENTER then sel s else (count s, pwm s, pressed s, 1, cmd s))"
  by (simp add: cs_keys_def sel_def key_cmd_def Let_def)

lemma cs_loop_sel:
  assumes "uart_ready lsr"
  shows "\<exists>s'. cs_loop lsr ps s = Some s' \<and> sel s' = fold cs_round ps (sel s)"
proof (induction ps arbitrary: s)
  case (Cons p ps)
  obtain s1 where 1: "cs_eval lsr s = Some s1" "cmd s1 = cmd s"
    "if pressed s AND released s \<noteq> 0
     then (count s1, pwm s1) = bump (cmd s) (count s, pwm s) \<and> pressed s1 = 0 \<and> released s1 = 0
     else s1 = s"
    using cs_eval_returns [OF assms] by blast
  have "sel (cs_keys p s1) = cs_round p (sel s)"
    using 1(2,3) unfolding cs_keys_sel
    by (cases "pressed s AND released s = 0") (auto simp: sel_def Let_def split: option.splits prod.splits)
  then show ?case using Cons.IH [of "cs_keys p s1"] 1(1) by simp
qed simp

lemma fold_held:
  assumes "key_cmd (readKeys p) = Some c"
  shows "fold cs_round (replicate k p) (n, w, 1, 0, c) = (n, w, 1, 0, c)"
  using assms by (induction k) simp_all

text \<open>
  C37 One press of a joystick direction counts twice. From rest (no key pressed, a release seen), a
  key that is down for two or more rounds of the loop and then up runs its command once on the
  first round after it went down and again after the release; only a press seen in a single round
  counts once. The 16-bit counters wrap.
\<close>
theorem cs_press_counts_twice:
  assumes "uart_ready lsr" "key_cmd (readKeys p) = Some c" "readKeys q = 0" "pressed s = 0" "released s = 1"
  shows "(\<exists>s'. cs_loop lsr (replicate (n + 2) p @ [q, q]) s = Some s' \<and>
      (count s', pwm s') = bump c (bump c (count s, pwm s)) \<and> pressed s' = 0 \<and> released s' = 1) \<and>
    (\<exists>s'. cs_loop lsr [p, q] s = Some s' \<and>
      (count s', pwm s') = bump c (count s, pwm s) \<and> pressed s' = 0 \<and> released s' = 1)"
proof -
  have q: "key_cmd (readKeys q) = None" using assms(3) by (simp add: key_cmd_def)
  obtain a b where ab: "bump c (count s, pwm s) = (a, b)" by fastforce
  obtain a' b' where ab': "bump c (a, b) = (a', b')" by fastforce
  obtain s1 where s1: "cs_loop lsr (replicate (n + 2) p @ [q, q]) s = Some s1"
      "sel s1 = fold cs_round (replicate (n + 2) p @ [q, q]) (sel s)" using cs_loop_sel [OF assms(1)] by blast
  have "sel s1 = (a', b', 0, 1, c)"
    using s1(2) assms q ab ab' fold_held [OF assms(2)] by (simp add: sel_def)
  moreover obtain s2 where s2: "cs_loop lsr [p, q] s = Some s2" "sel s2 = fold cs_round [p, q] (sel s)"
    using cs_loop_sel [OF assms(1), of "[p, q]" s] by blast
  then have "sel s2 = (a, b, 0, 1, c)" using assms q ab by (simp add: sel_def)
  ultimately show ?thesis using s1(1) s2(1) ab ab' by (simp add: sel_def)
qed

theorem cs_press_counts_twice_witness:
  "\<exists>s'. cs_loop (\<lambda>_. 0x20) [NOT UP, NOT UP, NOT UP, 0xFFFFFFFF, 0xFFFFFFFF]
      \<lparr>io = (0, mmio0), count = 0, pwm = - 0x8000, pressed = 0, released = 1, cmd = 0\<rparr> = Some s' \<and> count s' = 2"
proof -
  have r: "uart_ready (\<lambda>_. 0x20)" by (rule ready_const) simp
  have k: "key_cmd (readKeys (NOT UP)) = Some CNT_UP" "readKeys 0xFFFFFFFF = 0" by code_simp+
  have l: "replicate (1 + 2) (NOT UP) @ [0xFFFFFFFF, 0xFFFFFFFF] =
      [NOT UP, NOT UP, NOT UP, 0xFFFFFFFF, 0xFFFFFFFF :: u32]" by (simp add: eval_nat_numeral)
  show ?thesis
    using cs_press_counts_twice [OF r k, of "\<lparr>io = (0, mmio0), count = 0, pwm = - 0x8000, pressed = 0, released = 1, cmd = 0\<rparr>" 1]
    unfolding l by (simp add: bump_def wrap_simps) blast
qed

subsection \<open>The analogue input\<close>

lemma readAdc_bits: "signed_drop_bit 6 (w :: u32) AND 0x3FF = take_bit 10 (drop_bit 6 w)"
proof -
  have "(0x3FF :: u32) = mask 10" by (simp add: mask_eq_exp_minus_1)
  then have "signed_drop_bit 6 w AND 0x3FF = take_bit 10 (signed_drop_bit 6 w)" by (simp add: take_bit_eq_mask)
  also have "\<dots> = take_bit 10 (drop_bit 6 w)" by (rule bit_eqI) (auto simp: bit_simps)
  finally show ?thesis .
qed

text \<open>
  With a converter that finishes again and again, readAdc returns the 10-bit result, bits 6 to 15 of
  a data register value that is marked done, whatever the channel asked for, and arms the converter
  for the next timer match. With one that never finishes it never returns.
\<close>
theorem readAdc_value:
  shows "(ready (\<lambda>v. v AND 0x80000000 \<noteq> 0) gdr \<longrightarrow>
      (\<exists>k. readAdc gdr n channel m =
          Some (uint (take_bit 10 (drop_bit 6 (gdr k))), Suc k, wr AD0CR ADC_TIMED_START m) \<and>
        n \<le> k \<and> gdr k AND 0x80000000 \<noteq> 0)) \<and>
    ((\<forall>k \<ge> n. gdr k AND 0x80000000 = 0) \<longrightarrow> readAdc gdr n channel m = None)"
proof (intro conjI impI)
  assume "ready (\<lambda>v. v AND 0x80000000 \<noteq> 0) gdr"
  then obtain k where k: "poll (\<lambda>v. v AND 0x80000000 \<noteq> 0) gdr n = Some k" using ready_poll by blast
  then show "\<exists>k. readAdc gdr n channel m =
          Some (uint (take_bit 10 (drop_bit 6 (gdr k))), Suc k, wr AD0CR ADC_TIMED_START m) \<and>
        n \<le> k \<and> gdr k AND 0x80000000 \<noteq> 0"
    using poll_SomeD [OF k] unfolding readAdc_def k by (intro exI [of _ k]) (simp add: readAdc_bits)
next
  assume "\<forall>k \<ge> n. gdr k AND 0x80000000 = 0"
  then have "poll (\<lambda>v. v AND 0x80000000 \<noteq> 0) gdr n = None"
    using poll_returns [of "\<lambda>v. v AND 0x80000000 \<noteq> 0" gdr n] by (metis not_None_eq)
  then show "readAdc gdr n channel m = None" by (simp add: readAdc_def)
qed

text \<open>
  The converter's clock: the peripheral clock selected by bits 24 and 25 (one quarter, all, one
  half or one eighth of the 57.6 MHz processor clock) over the divisor plus one.
\<close>

definition adc_clock :: "mmio \<Rightarrow> int" where
  "adc_clock m =
     (let sel = uint (take_bit 2 (drop_bit 24 (rd PCLKSEL0 m)));
          pclk = 57600000 div (if sel = 0 then 4 else if sel = 1 then 1 else if sel = 2 then 2 else 8)
      in pclk div (uint (take_bit 8 (drop_bit 8 (rd AD0CR m))) + 1))"

text \<open>
  initAdc accepts channel 2 only and leaves every register alone for any other. For channel 2 it
  sets the converter's clock to 57.6 MHz over 7, 8.2 MHz, whatever the registers held before: the
  clock selection 01 is the undivided processor clock, not the 28.8 MHz its comment names, so the
  clock is above the 4.5 MHz the comment asks for.
\<close>
theorem initAdc_clock:
  "(channel \<noteq> 2 \<longrightarrow> initAdc channel m = (- 1, m)) \<and>
   fst (initAdc 2 m) = 0 \<and> adc_clock (snd (initAdc 2 m)) = 8228571 \<and> 4500000 < adc_clock (snd (initAdc 2 m))"
proof -
  have b: "take_bit 2 (drop_bit 24 (w AND NOT (push_bit 25 1 OR push_bit 24 1) OR push_bit 24 1)) = (1 :: u32)" for w
    by (rule bit_eqI) (auto simp: bit_simps less_2_cases_iff)
  have c: "uint (take_bit 8 (drop_bit 8 ADC_TIMED_START)) = 6" "uint (take_bit 8 (drop_bit 8 ADC_INIT_MASK)) = 6"
    by code_simp+
  let ?m = "snd (initAdc 2 m)"
  have "rd PCLKSEL0 ?m = rd PCLKSEL0 m AND NOT (push_bit 25 1 OR push_bit 24 1) OR push_bit 24 1"
    unfolding initAdc_def Let_def by (simp add: mmio_simps del: push_bit_of_1)
  moreover have "rd AD0CR ?m = ADC_TIMED_START \<or> rd AD0CR ?m = ADC_INIT_MASK"
    unfolding initAdc_def Let_def by (simp add: mmio_simps del: push_bit_of_1)
  ultimately have "adc_clock ?m = 57600000 div 1 div (6 + 1)"
    unfolding adc_clock_def Let_def using b [of "rd PCLKSEL0 m"] c by (elim disjE) (simp_all only: uint_1 if_True, simp_all)
  then have "adc_clock ?m = 8228571" by simp
  then show ?thesis by (simp add: initAdc_def Let_def)
qed

theorem initAdc_clock_witness: "initAdc 5 mmio0 = (- 1, mmio0)"
  using initAdc_clock [of 5 mmio0] by simp

subsection \<open>The timer callback\<close>

text \<open>
  The timer interrupt with a callback counts one tick, runs the callback, and only then resets the
  timer's flags and acknowledges the interrupt; without a callback it is the handler of the
  backlight program. A callback that waits for a converter that never finishes, as myCallback
  does, keeps the interrupt from ever being acknowledged.
\<close>
theorem cs_TMR0_Handler_cases:
  "(callbacks c ! 0 = None \<longrightarrow> cs_TMR0_Handler c = Some (c\<lparr>cs_tmr := TMR0_Handler (cs_tmr c)\<rparr>)) \<and>
   (\<forall>f m'. callbacks c ! 0 = Some f \<and> f (tbus (cs_tmr c)) = Some m' \<longrightarrow>
      (\<exists>c'. cs_TMR0_Handler c = Some c' \<and> tmrTicks (cs_tmr c') = tmrTicks (TMR0_Handler (cs_tmr c)) \<and>
        wlog (tbus (cs_tmr c')) = wlog m' @ [(T0IR, 0xff), (VICVectAddr, 0)])) \<and>
   (callbacks c ! 0 = Some (myCallback i gdr n) \<and> (\<forall>k \<ge> n. gdr k AND 0x80000000 = 0) \<longrightarrow>
      cs_TMR0_Handler c = None)"
proof -
  have "readAdc gdr n 2 m = None" if "\<forall>k \<ge> n. gdr k AND 0x80000000 = 0" for m
  proof -
    have "poll (\<lambda>v. v AND 0x80000000 \<noteq> 0) gdr n = None"
      using that poll_returns [of "\<lambda>v. v AND 0x80000000 \<noteq> 0" gdr n] by (metis not_None_eq)
    then show ?thesis by (simp add: readAdc_def)
  qed
  then show ?thesis
    by (auto simp: cs_TMR0_Handler_def TMR0_Handler_def myCallback_def Let_def mmio_simps)
qed

theorem cs_TMR0_Handler_cases_witness:
  "cs_TMR0_Handler \<lparr>cs_tmr = \<lparr>tmrTicks = [0, 0], tmrResolutionMs = [0, 0], timers = replicate 10 0, tbus = mmio0\<rparr>,
     callbacks = [Some (myCallback 0 (\<lambda>_. 0) 0), None]\<rparr> = None"
  using cs_TMR0_Handler_cases [of "\<lparr>cs_tmr = \<lparr>tmrTicks = [0, 0], tmrResolutionMs = [0, 0], timers = replicate 10 0,
     tbus = mmio0\<rparr>, callbacks = [Some (myCallback 0 (\<lambda>_. 0) 0), None]\<rparr>" 0 "\<lambda>_. 0" 0] by simp

end
