(* ===== verification/Demos.thy ===== *)
theory Demos
  imports Backlight Rprintf
begin

text \<open>
  Four small programs of the repository on the drivers modelled elsewhere: a serial port with a
  receive interrupt and soft timers (\<^verbatim>\<open>src/lpc2478_uart_n_timer_irq\<close>), the joystick test (\<^verbatim>\<open>src/buttonTest\<close>),
  an external interrupt (\<^verbatim>\<open>src/lpc2478_irq_template\<close>) and the alarm clock (\<^verbatim>\<open>src/lpc2478_rtc_alarm\<close>), whose
  \<^verbatim>\<open>rtc.c\<close> differs from that of the CAN project. Their loops are lists of rounds, with the interrupts
  between them as events.
\<close>

abbreviation (input) "PINSEL4 \<equiv> (0xE002C010 :: u32)"
abbreviation (input) "LED \<equiv> (0x400 :: u32)"

section \<open>Serial port and timer program\<close>

text \<open>The handler: \<open>iir\<close> and \<open>rbr\<close> are what it reads from the interrupt and the data register.\<close>

definition Uart0_Handler :: "u32 \<Rightarrow> u32 \<Rightarrow> mmio \<Rightarrow> mmio" where
  "Uart0_Handler iir rbr m =
     (let m = (if iir = 0x04
               then let rx = (ucast rbr :: u8);
                        m = wr FIO2CLR LED m
                    in if rx = 0x31 then wr FIO2SET LED m else m
               else m)
      in wr VICVectAddr 0 m)"

definition ut_initUart0 :: "u32 \<Rightarrow> u16 \<Rightarrow> u8 \<Rightarrow> mmio \<Rightarrow> int \<times> mmio" where
  "ut_initUart0 h div_factor mode m =
     (let m = initUart0 div_factor mode m;
          m = wr 0xE000C004 0x01 m;
          (ok, m) = install_irq 6 h HIGHEST_PRIORITY m
      in (if ok then 0 else - 1, m))"

definition sendchar :: "(nat \<Rightarrow> u32) \<Rightarrow> nat \<Rightarrow> int \<Rightarrow> mmio \<Rightarrow> (nat \<times> mmio) option" where
  "sendchar lsr n ch m = do {
     (n, m) \<leftarrow> (if ch = 10
       then do { k \<leftarrow> poll (\<lambda>v. v AND 0x20 \<noteq> 0) lsr n; Some (Suc k, wr U0THR 13 m) }
       else Some (n, m));
     k \<leftarrow> poll (\<lambda>v. v AND 0x20 \<noteq> 0) lsr n;
     Some (Suc k, wr U0THR (word_of_int ch) m)
   }"

definition ledInit :: "mmio \<Rightarrow> mmio" where
  "ledInit m = wr FIO2SET LED (wr_or FIO2DIR LED (wr PINSEL4 0 m))"

definition ut_text :: "u8 list" where
  "ut_text = text_of ''Hello EMB world, from EA2478, MOJ Sept. 3 2012.'' @ [10, 0, 0]"

record ut_state =
  ut_tmr :: tmr_state
  ut_reads :: nat
  ut_c :: u8

text \<open>The project's \<^verbatim>\<open>framework.c\<close> is not in its directory: its \<open>lowLevelInit\<close> is the parameter \<open>lli\<close>.\<close>

definition ut_init :: "(mmio \<Rightarrow> mmio option) \<Rightarrow> u32 \<Rightarrow> u32 \<Rightarrow> u32 \<Rightarrow> u32 \<Rightarrow> tmr_state \<Rightarrow> (u32 \<times> ut_state) option" where
  "ut_init lli hu h0 h1 psr t = do {
     m \<leftarrow> lli (tbus t);
     let m = init_VIC m;
     let m = wr_or FIO2DIR (push_bit 21 1) m;
     let m = wr_or FIO2DIR (push_bit 22 1) m;
     let (_, m) = ut_initUart0 hu (UART_BPS 28800000 9600) UART_8N1 m;
     let m = ledInit m;
     let (_, t) = initTimer h0 h1 0 10 (t\<lparr>tbus := m\<rparr>);
     let (_, psr) = enableIRQ psr;
     let t = enableTimer 0 t;
     (_, t) \<leftarrow> timer 0 RESET t;
     (_, t) \<leftarrow> timer 1 RESET t;
     Some (psr, \<lparr>ut_tmr = t, ut_reads = 0, ut_c = 0\<rparr>)
   }"

text \<open>Serve soft timer \<open>k\<close> when its interval has passed.\<close>

definition ut_task :: "int \<Rightarrow> int \<Rightarrow> tmr_state \<Rightarrow> tmr_state option" where
  "ut_task k interval t = do {
     (v, t) \<leftarrow> timer k RUN t;
     (if v > interval then do { (_, t) \<leftarrow> timer k RESET t; Some t } else Some t)
   }"

definition ut_round :: "(nat \<Rightarrow> u32) \<Rightarrow> ut_state \<Rightarrow> ut_state option" where
  "ut_round lsr s = do {
     s \<leftarrow> (if ut_c s < 40 then do {
              (n, m) \<leftarrow> sendchar lsr (ut_reads s) (uint (ut_text ! unat (ut_c s))) (tbus (ut_tmr s));
              Some (s\<lparr>ut_reads := n, ut_tmr := (ut_tmr s)\<lparr>tbus := m\<rparr>, ut_c := ut_c s + 1\<rparr>)
            } else Some s);
     t \<leftarrow> ut_task 0 230 (ut_tmr s);
     t \<leftarrow> ut_task 1 100 t;
     Some (s\<lparr>ut_tmr := t\<rparr>)
   }"

datatype ut_event = UtTick | UtRx u32 u32 | UtRound

definition ut_step :: "(nat \<Rightarrow> u32) \<Rightarrow> ut_event \<Rightarrow> ut_state \<Rightarrow> ut_state option" where
  "ut_step lsr e s = (case e of
       UtTick \<Rightarrow> Some (s\<lparr>ut_tmr := TMR0_Handler (ut_tmr s)\<rparr>)
     | UtRx iir rbr \<Rightarrow> Some (s\<lparr>ut_tmr := (ut_tmr s)\<lparr>tbus := Uart0_Handler iir rbr (tbus (ut_tmr s))\<rparr>\<rparr>)
     | UtRound \<Rightarrow> ut_round lsr s)"

fun ut_run :: "(nat \<Rightarrow> u32) \<Rightarrow> ut_event list \<Rightarrow> ut_state \<Rightarrow> ut_state option" where
  "ut_run lsr [] s = Some s"
| "ut_run lsr (e # es) s = do { s \<leftarrow> ut_step lsr e s; ut_run lsr es s }"

section \<open>Joystick test\<close>

definition bt_ledInit :: "mmio \<Rightarrow> mmio" where
  "bt_ledInit m = wr FIO2CLR LED (wr_or FIO2DIR LED (wr PINSEL4 0 m))"

definition bt_text :: "u8 list" where
  "bt_text = text_of ''Hello EMB world, from EA2478 '' @ 10 # replicate 10 0"

text \<open>\<open>sprintf\<close> of a text without directives: the text and its terminating zero over the buffer.\<close>

definition put_str :: "u8 list \<Rightarrow> u8 list \<Rightarrow> u8 list" where
  "put_str ws str = ws @ 0 # drop (Suc (length ws)) str"

definition key_text :: "u32 \<Rightarrow> u8 list option" where
  "key_text key =
     (if key = UP then Some (text_of ''UP   '' @ [10])
      else if key = DOWN then Some (text_of ''DOWN '' @ [10])
      else if key = LEFT then Some (text_of ''LEFT '' @ [10])
      else if key = RIGHT then Some (text_of ''RIGHT '' @ [10])
      else if key = CENTER then Some (text_of ''CENTER'' @ [10]) else None)"

fun send_all :: "(nat \<Rightarrow> u32) \<Rightarrow> u8 list \<Rightarrow> nat \<times> mmio \<Rightarrow> (nat \<times> mmio) option" where
  "send_all lsr [] u = Some u"
| "send_all lsr (c # cs) u = do { u \<leftarrow> sendchar lsr (fst u) (uint c) (snd u); send_all lsr cs u }"

text \<open>One round of the loop with the port it reads: the buffer, and the first ten characters of it sent.\<close>

definition bt_round :: "(nat \<Rightarrow> u32) \<Rightarrow> u32 \<Rightarrow> u8 list \<times> nat \<times> mmio \<Rightarrow> (u8 list \<times> nat \<times> mmio) option" where
  "bt_round lsr FIO2PIN = (\<lambda>(str, u).
     case key_text (readKeys FIO2PIN) of
       None \<Rightarrow> Some (str, u)
     | Some ws \<Rightarrow>
         let str = put_str ws str
         in do { u \<leftarrow> send_all lsr (map (\<lambda>c. str ! c) [0..<10]) u; Some (str, u) })"

definition bt_init :: "(nat \<Rightarrow> u32) \<Rightarrow> (nat \<Rightarrow> u32) \<Rightarrow> mmio \<Rightarrow> (u8 list \<times> nat \<times> mmio) option" where
  "bt_init scs pllstat m = do {
     m \<leftarrow> lowLevelInit scs pllstat m;
     let m = initUart0 (UART_BPS 28800000 9600) UART_8N1 m;
     Some (bt_text, 0, bt_ledInit m)
   }"

section \<open>External interrupt\<close>

abbreviation (input) "EXTINT \<equiv> (0xE01FC140 :: u32)"
abbreviation (input) "EXTMODE \<equiv> (0xE01FC148 :: u32)"
abbreviation (input) "EXTPOLAR \<equiv> (0xE01FC14C :: u32)"

text \<open>The static counter of the handler and the bus.\<close>

definition EINT0_Handler :: "int \<times> mmio \<Rightarrow> int \<times> mmio" where
  "EINT0_Handler = (\<lambda>(i, m).
     let m = wr EXTINT 1 m;
         i = s32 (i + 1);
         i = s32 (i + 1)
     in (i, wr VICVectAddr 0 m))"

definition extint0Init :: "u32 \<Rightarrow> mmio \<Rightarrow> int \<times> mmio" where
  "extint0Init h m =
     (let m = wr_or PINSEL4 (push_bit 20 1) m;
          m = wr_or EXTMODE 1 m;
          m = wr_and EXTPOLAR (NOT 1) m;
          m = wr EXTINT 1 m;
          (ok, m) = install_irq 14 h HIGHEST_PRIORITY m
      in if \<not> ok then (- 1, m) else (0, m))"

definition ei_main :: "u32 \<Rightarrow> u32 \<Rightarrow> mmio \<Rightarrow> u32 \<times> mmio" where
  "ei_main h psr m =
     (let m = wrs [(MEMMAP, 1), (MAMTIM, 3), (MAMCR, 2)] m;
          m = init_VIC m;
          (_, m) = extint0Init h m
      in (snd (enableIRQ psr), m))"

section \<open>Alarm clock\<close>

abbreviation (input) "RTC_ILR \<equiv> (0xE0024000 :: u32)"
abbreviation (input) "RTC_CCR \<equiv> (0xE0024008 :: u32)"

text \<open>
  The handler of this project: the counting loop lacks its semicolon, so the store that clears the
  alarm flag is its body.
\<close>

definition al_RTCHandler :: "rtc_state \<Rightarrow> rtc_state" where
  "al_RTCHandler s = s\<lparr>rbus := wr VICVectAddr 0 ((wr_or RTC_ILR 0x02 ^^ 700000) (rbus s)), alarm_on := 1\<rparr>"

text \<open>\<open>None\<close>: the endless loop after a failed installation.\<close>

definition al_RTCInit :: "u32 \<Rightarrow> rtc_state \<Rightarrow> rtc_state option" where
  "al_RTCInit h s =
     (let m = wrs [(0xE0024010, 0xFFFF), (0xE002400C, 0), (RTC_CCR, 0x10), (RTC_ILR, 0x0F)] (rbus s);
          (ok, m) = install_irq 13 h HIGHEST_PRIORITY m
      in if \<not> ok then None else Some (s\<lparr>alarm_on := 0, rbus := m\<rparr>))"

definition al_RTCStart :: "mmio \<Rightarrow> mmio" where
  "al_RTCStart m = wr_or RTC_ILR 0x02 (wr_or RTC_CCR 0x01 m)"

definition local_time :: RTCTime where
  "local_time = \<lparr>RTC_Sec = 23, RTC_Min = 44, RTC_Hour = 10, RTC_Mday = 30, RTC_Mon = 9, RTC_Year = 2010,
     RTC_Wday = 3, RTC_Yday = 201\<rparr>"

definition alarm_time :: RTCTime where
  "alarm_time = \<lparr>RTC_Sec = 35, RTC_Min = 44, RTC_Hour = 10, RTC_Mday = 30, RTC_Mon = 0, RTC_Year = 2010,
     RTC_Wday = 3, RTC_Yday = 201\<rparr>"

text \<open>The state of the program: the clock's, the reads of the serial status, the second last printed.\<close>

record al_state =
  al_rtc :: rtc_state
  al_reads :: nat
  seconds_last :: int

definition al_print :: "(nat \<Rightarrow> u32) \<Rightarrow> u8 list \<Rightarrow> int list \<Rightarrow> al_state \<Rightarrow> al_state option" where
  "al_print lsr format ap s = do {
     (n, m) \<leftarrow> rprintf1RamRom (uart_put lsr) format ap (al_reads s, rbus (al_rtc s));
     Some (s\<lparr>al_reads := n, al_rtc := (al_rtc s)\<lparr>rbus := m\<rparr>\<rparr>)
   }"

definition al_intro :: "u8 list" where
  "al_intro = text_of ''RTC Alarm test program '' @ [10]"

definition al_set_fmt :: "u8 list" where
  "al_set_fmt = text_of '' Alarm set today at %d:%d:%d '' @ [10]"

definition al_alarm_text :: "u8 list" where
  "al_alarm_text = [10] @ text_of '' !!RTC ALARM !!!! '' @ [10]"

definition al_time_fmt :: "u8 list" where
  "al_time_fmt = [13] @ text_of '' Time %d:%d:%d''"

text \<open>\<open>seconds_last\<close> has no initial value in the source; it is the parameter \<open>sl\<close>.\<close>

definition al_init :: "(nat \<Rightarrow> u32) \<Rightarrow> (nat \<Rightarrow> u32) \<Rightarrow> (nat \<Rightarrow> u32) \<Rightarrow> u32 \<Rightarrow> u32 \<Rightarrow> int \<Rightarrow> rtc_state \<Rightarrow>
    (u32 \<times> al_state) option" where
  "al_init scs pllstat lsr h psr sl s = do {
     m \<leftarrow> lowLevelInit scs pllstat (rbus s);
     let m = init_VIC m;
     let m = initUart0 (UART_BPS 28800000 115200) UART_8N1 m;
     s \<leftarrow> al_RTCInit h (s\<lparr>rbus := m\<rparr>);
     let a = \<lparr>al_rtc = s, al_reads = 0, seconds_last = sl\<rparr>;
     a \<leftarrow> al_print lsr al_intro [] a;
     a \<leftarrow> al_print lsr al_set_fmt [RTC_Hour alarm_time, RTC_Min alarm_time, RTC_Sec alarm_time] a;
     let m = RTCSetAlarmMask (0x08 + 0x10 + 0x20 + 0x40 + 0x80) (rbus (al_rtc a));
     let m = al_RTCStart m;
     Some (snd (enableIRQ psr), a\<lparr>al_rtc := (al_rtc a)\<lparr>rbus := m\<rparr>\<rparr>)
   }"

text \<open>One round of the loop with the port it reads; the clock registers are those of the bus.\<close>

definition al_round :: "(nat \<Rightarrow> u32) \<Rightarrow> u32 \<Rightarrow> al_state \<Rightarrow> al_state option" where
  "al_round lsr FIO2PIN s = do {
     let s = (if FIO2PIN AND LED = 0
              then s\<lparr>al_rtc := (al_rtc s)\<lparr>rbus := RTCSetAlarm alarm_time (RTCSetTime local_time (rbus (al_rtc s)))\<rparr>\<rparr>
              else s);
     let current_time = RTCGetTime (rbus (al_rtc s));
     s \<leftarrow> (if alarm_on (al_rtc s) \<noteq> 0
            then al_print lsr al_alarm_text [] (s\<lparr>al_rtc := (al_rtc s)\<lparr>alarm_on := 0\<rparr>\<rparr>)
            else Some s);
     (if seconds_last s \<noteq> RTC_Sec current_time
      then al_print lsr al_time_fmt [RTC_Hour current_time, RTC_Min current_time, RTC_Sec current_time]
             (s\<lparr>seconds_last := RTC_Sec current_time\<rparr>)
      else Some s)
   }"

section \<open>Properties\<close>

lemma sendchar_sends:
  assumes "uart_ready lsr"
  shows "\<exists>n' m'. sendchar lsr n (uint (c :: u8)) m = Some (n', m') \<and> uart_out m' = uart_out m @ crlf c"
proof -
  obtain k where k: "poll (\<lambda>v. v AND 0x20 \<noteq> 0) lsr n = Some k" using ready_poll [OF assms] by blast
  obtain j where j: "poll (\<lambda>v. v AND 0x20 \<noteq> 0) lsr (Suc k) = Some j" using ready_poll [OF assms] by blast
  have e: "(uint c = 10) = (c = 10)" using word_uint_eq_iff [of c 10] by simp
  show ?thesis by (simp add: sendchar_def k j e uart_out_wr crlf_def ucast_u8_u32)
qed

lemma send_all_sends:
  assumes "uart_ready lsr"
  shows "\<exists>n' m'. send_all lsr cs (n, m) = Some (n', m') \<and> uart_out m' = uart_out m @ concat (map crlf cs)"
proof (induction cs arbitrary: n m)
  case (Cons c cs)
  obtain n1 m1 where "sendchar lsr n (uint c) m = Some (n1, m1)" "uart_out m1 = uart_out m @ crlf c"
    using sendchar_sends [OF assms] by blast
  with Cons.IH [of n1 m1] show ?case by auto
qed simp

subsection \<open>Serial port and timer program\<close>

lemma timer_returns:
  assumes "length (timers t) = 10" "0 \<le> k" "k < 10"
  shows "\<exists>v t'. timer k clr t = Some (v, t') \<and> tbus t' = tbus t \<and> length (timers t') = 10"
  using assms by (simp add: timer_def getTimerTicks_def getTimerResolution_def Let_def)

lemma ut_task_returns:
  assumes "length (timers t) = 10" "0 \<le> k" "k < 10"
  shows "\<exists>t'. ut_task k iv t = Some t' \<and> tbus t' = tbus t \<and> length (timers t') = 10"
proof -
  obtain v t1 where 1: "timer k RUN t = Some (v, t1)" "tbus t1 = tbus t" "length (timers t1) = 10"
    using timer_returns [OF assms] by blast
  obtain v' t2 where "timer k RESET t1 = Some (v', t2)" "tbus t2 = tbus t1" "length (timers t2) = 10"
    using timer_returns [OF 1(3) assms(2,3)] by blast
  with 1 show ?thesis by (simp add: ut_task_def)
qed

lemma ut_round_returns:
  assumes "uart_ready lsr" "length (timers (ut_tmr s)) = 10" "unat (ut_c s) \<le> 40"
  shows "\<exists>s'. ut_round lsr s = Some s' \<and> length (timers (ut_tmr s')) = 10 \<and>
    unat (ut_c s') = min 40 (Suc (unat (ut_c s))) \<and>
    uart_out (tbus (ut_tmr s')) = uart_out (tbus (ut_tmr s)) @
      (if unat (ut_c s) < 40 then crlf (ut_text ! unat (ut_c s)) else [])"
proof -
  have lt: "(ut_c s < 40) = (unat (ut_c s) < 40)" by (simp add: word_less_nat_alt)
  have t: "\<exists>t'. (ut_task 0 230 t \<bind> ut_task 1 100) = Some t' \<and> tbus t' = tbus t \<and> length (timers t') = 10"
    if len: "length (timers t) = 10" for t
  proof -
    obtain t1 where 1: "ut_task 0 230 t = Some t1" "tbus t1 = tbus t" "length (timers t1) = 10"
      using ut_task_returns [OF len, of 0 230] by auto
    obtain t2 where "ut_task 1 100 t1 = Some t2" "tbus t2 = tbus t1" "length (timers t2) = 10"
      using ut_task_returns [OF 1(3), of 1 100] by auto
    with 1 show ?thesis by simp
  qed
  show ?thesis
  proof (cases "ut_c s < 40")
    case True
    obtain n m where nm: "sendchar lsr (ut_reads s) (uint (ut_text ! unat (ut_c s))) (tbus (ut_tmr s)) = Some (n, m)"
      "uart_out m = uart_out (tbus (ut_tmr s)) @ crlf (ut_text ! unat (ut_c s))"
      using sendchar_sends [OF assms(1)] by blast
    obtain t' where t': "(ut_task 0 230 ((ut_tmr s)\<lparr>tbus := m\<rparr>) \<bind> ut_task 1 100) = Some t'" "tbus t' = m"
      "length (timers t') = 10" using t [of "(ut_tmr s)\<lparr>tbus := m\<rparr>"] assms(2) by auto
    have "unat (ut_c s + 1) = Suc (unat (ut_c s))" using True lt by (simp add: unat_word_ariths)
    with True lt nm t' show ?thesis by (auto simp: ut_round_def bind_eq_Some_conv)
  next
    case False
    obtain t' where "(ut_task 0 230 (ut_tmr s) \<bind> ut_task 1 100) = Some t'" "tbus t' = tbus (ut_tmr s)"
      "length (timers t') = 10" using t [OF assms(2)] by blast
    with False lt assms(3) show ?thesis by (auto simp: ut_round_def bind_eq_Some_conv)
  qed
qed

fun rounds :: "ut_event list \<Rightarrow> nat" where
  "rounds [] = 0"
| "rounds (e # es) = (if e = UtRound then Suc (rounds es) else rounds es)"

lemma ut_run_returns:
  assumes "uart_ready lsr" "length (timers (ut_tmr s)) = 10" "unat (ut_c s) \<le> 40"
  shows "\<exists>s'. ut_run lsr es s = Some s' \<and> unat (ut_c s') = min 40 (unat (ut_c s) + rounds es) \<and>
    uart_out (tbus (ut_tmr s')) = uart_out (tbus (ut_tmr s)) @
      concat (map (\<lambda>i. crlf (ut_text ! i)) [unat (ut_c s) ..< min 40 (unat (ut_c s) + rounds es)])"
  using assms(2,3)
proof (induction es arbitrary: s)
  case (Cons e es)
  show ?case
  proof (cases "e = UtRound")
    case True
    obtain s1 where 1: "ut_round lsr s = Some s1" "length (timers (ut_tmr s1)) = 10"
      "unat (ut_c s1) = min 40 (Suc (unat (ut_c s)))"
      "uart_out (tbus (ut_tmr s1)) = uart_out (tbus (ut_tmr s)) @
         (if unat (ut_c s) < 40 then crlf (ut_text ! unat (ut_c s)) else [])"
      using ut_round_returns [OF assms(1) Cons.prems] by blast
    let ?n = "unat (ut_c s)"
    have u: "[?n ..< min 40 (?n + Suc k)] =
        (if ?n < 40 then [?n] else []) @ [min 40 (Suc ?n) ..< min 40 (min 40 (Suc ?n) + k)]" for k
      by (cases "?n < 40") (simp_all add: upt_conv_Cons min_def)
    let ?f = "\<lambda>i. crlf (ut_text ! i)" and ?k = "rounds es"
    have split: "concat (map ?f [?n ..< min 40 (?n + Suc ?k)]) = (if ?n < 40 then ?f ?n else []) @
        concat (map ?f [unat (ut_c s1) ..< min 40 (unat (ut_c s1) + ?k)])"
      unfolding u 1(3) by simp
    have "unat (ut_c s1) \<le> 40" using 1(3) by simp
    then obtain s' where s': "ut_run lsr es s1 = Some s'" "unat (ut_c s') = min 40 (unat (ut_c s1) + ?k)"
      "uart_out (tbus (ut_tmr s')) = uart_out (tbus (ut_tmr s1)) @
         concat (map ?f [unat (ut_c s1) ..< min 40 (unat (ut_c s1) + ?k)])"
      using Cons.IH [OF 1(2)] by blast
    have "ut_run lsr (e # es) s = Some s'" "rounds (e # es) = Suc ?k" using True 1(1) s'(1) by (simp_all add: ut_step_def)
    moreover have "min 40 (unat (ut_c s1) + ?k) = min 40 (?n + Suc ?k)" using 1(3) Cons.prems(2) by simp
    ultimately show ?thesis using s'(2,3) 1(4) split by (intro exI [of _ s']) (simp del: upt_Suc ut_run.simps rounds.simps)
  next
    case False
    have "\<exists>s1. ut_step lsr e s = Some s1 \<and> uart_out (tbus (ut_tmr s1)) = uart_out (tbus (ut_tmr s)) \<and>
        length (timers (ut_tmr s1)) = 10 \<and> ut_c s1 = ut_c s"
      using False Cons.prems(1)
      by (cases e) (simp_all add: ut_step_def TMR0_Handler_def Uart0_Handler_def Let_def uart_out_wr)
    then obtain s1 where "ut_step lsr e s = Some s1" "uart_out (tbus (ut_tmr s1)) = uart_out (tbus (ut_tmr s))"
      "length (timers (ut_tmr s1)) = 10" "ut_c s1 = ut_c s" by blast
    with Cons.IH [of s1] Cons.prems(2) False show ?thesis by simp
  qed
qed simp

lemma ut_init_returns:
  assumes "lli (tbus t) = Some m" "length (timers t) = 10"
  shows "\<exists>s. ut_init lli hu h0 h1 psr t = Some (psr AND NOT IRQ_MASK, s) \<and> ut_c s = 0 \<and> length (timers (ut_tmr s)) = 10"
proof -
  let ?m = "ledInit (snd (ut_initUart0 hu (UART_BPS 28800000 9600) UART_8N1
    (wr_or FIO2DIR (push_bit 22 1) (wr_or FIO2DIR (push_bit 21 1) (init_VIC m)))))"
  define t0 where "t0 = enableTimer 0 (snd (initTimer h0 h1 0 10 (t\<lparr>tbus := ?m\<rparr>)))"
  have "length (timers t0) = 10"
    using assms(2) by (simp add: t0_def enableTimer_def initTimer_def Let_def case_prod_beta)
  then obtain v t1 where 1: "timer 0 RESET t0 = Some (v, t1)" "length (timers t1) = 10"
    using timer_returns [of t0 0 RESET] by auto
  obtain v' t2 where "timer 1 RESET t1 = Some (v', t2)" "length (timers t2) = 10"
    using timer_returns [OF 1(2), of 1 RESET] by auto
  with 1(1) assms(1) show ?thesis
    unfolding t0_def by (simp add: ut_init_def case_prod_beta Let_def enableIRQ_def)
qed

text \<open>
  The greeting is cut: if the low level set-up returns, the program starts, and whatever timer
  ticks, received characters and rounds of the loop come then, it transmits the first characters of
  its text in order, one per round with each line feed after a carriage return, and nothing after
  the fortieth; the last eight of its 48 characters, the line feed among them, are never sent.
\<close>
theorem ut_greeting_cut:
  assumes "uart_ready lsr" "lli (tbus t) = Some m" "length (timers t) = 10"
  shows "\<exists>psr' s. ut_init lli hu h0 h1 psr t = Some (psr', s) \<and>
    (\<forall>es. \<exists>s'. ut_run lsr es s = Some s' \<and> uart_out (tbus (ut_tmr s')) =
       uart_out (tbus (ut_tmr s)) @ concat (map crlf (take (min 40 (rounds es)) ut_text))) \<and>
    length (takeWhile (\<lambda>c. c \<noteq> 0) ut_text) = 48"
proof -
  obtain s where s: "ut_init lli hu h0 h1 psr t = Some (psr AND NOT IRQ_MASK, s)" "ut_c s = 0" "length (timers (ut_tmr s)) = 10"
    using ut_init_returns [where lli = lli, OF assms(2,3)] by blast
  have l: "length ut_text = 50" by (simp add: ut_text_def text_of_def)
  have "map (\<lambda>i. crlf (ut_text ! i)) [0 ..< min 40 k] = map crlf (take (min 40 k) ut_text)" for k
    using l by (intro nth_equalityI) simp_all
  moreover have "length (takeWhile (\<lambda>c. c \<noteq> 0) ut_text) = 48" by code_simp
  ultimately show ?thesis using ut_run_returns [OF assms(1) s(3)] s(1,2) by auto
qed

theorem ut_greeting_cut_witness:
  "\<exists>psr' s s'. ut_init Some 0x100 0x200 0x300 0x1F tmr0 = Some (psr', s) \<and>
     ut_run (\<lambda>_. 0x20) [UtRound, UtTick, UtRx 4 0x31, UtRound] s = Some s' \<and>
     uart_out (tbus (ut_tmr s')) = uart_out (tbus (ut_tmr s)) @ [0x48, 0x65]"
proof -
  have r: "uart_ready (\<lambda>_. 0x20)" by (rule ready_const) simp
  have c: "concat (map crlf (take (min 40 (rounds [UtRound, UtTick, UtRx 4 0x31, UtRound])) ut_text)) = [0x48, 0x65]"
    by code_simp
  show ?thesis
    using ut_greeting_cut [where lli = Some and t = tmr0, OF r refl, of "0x100" "0x200" "0x300" "0x1F"] c
    by (fastforce simp: tmr0_def)
qed

subsection \<open>Joystick test\<close>

lemma map_nth_take: "k \<le> length xs \<Longrightarrow> map (\<lambda>i. xs ! i) [0..<k] = take k xs"
  by (intro nth_equalityI) simp_all

text \<open>
  A press of a joystick key sends ten characters of the buffer although its text is six or seven
  characters long: after the text and its terminating zero come the characters the buffer held
  there before. Without a key nothing is sent and the buffer stays.
\<close>
theorem bt_sends_stale:
  assumes "uart_ready lsr" "length str = 40"
  shows "case key_text (readKeys p) of
      None \<Rightarrow> bt_round lsr p (str, n, m) = Some (str, n, m)
    | Some ws \<Rightarrow> length ws \<le> 7 \<and> (\<exists>n' m'. bt_round lsr p (str, n, m) = Some (put_str ws str, n', m') \<and>
        uart_out m' = uart_out m @ concat (map crlf (ws @ [0] @ take (9 - length ws) (drop (Suc (length ws)) str))))"
proof (cases "key_text (readKeys p)")
  case (Some ws)
  then have len: "length ws \<le> 7" by (auto simp: key_text_def text_of_def split: if_splits)
  have "map (\<lambda>c. put_str ws str ! c) [0..<10] = take 10 (put_str ws str)"
    using assms(2) len by (intro map_nth_take) (simp add: put_str_def)
  also have "\<dots> = ws @ [0] @ take (9 - length ws) (drop (Suc (length ws)) str)"
    using len by (simp add: put_str_def take_Cons' Suc_diff_le)
  finally have e: "map (\<lambda>c. put_str ws str ! c) [0..<10] =
    ws @ [0] @ take (9 - length ws) (drop (Suc (length ws)) str)" .
  show ?thesis
    using send_all_sends [OF assms(1), of "ws @ [0] @ take (9 - length ws) (drop (Suc (length ws)) str)" n m] len Some
    unfolding bt_round_def Let_def prod.case Some option.case e by fastforce
qed (simp add: bt_round_def)

theorem bt_sends_stale_witness:
  "\<exists>n' m'. bt_round (\<lambda>_. 0x20) (NOT UP) (bt_text, 0, mmio0) = Some (put_str (text_of ''UP   '' @ [10]) bt_text, n', m') \<and>
     uart_out m' = text_of ''UP   '' @ [13, 10, 0] @ text_of ''MB ''"
proof -
  have r: "uart_ready (\<lambda>_. 0x20)" by (rule ready_const) simp
  have k: "key_text (readKeys (NOT UP)) = Some (text_of ''UP   '' @ [10])" "length bt_text = 40" by code_simp+
  have c: "concat (map crlf ((text_of ''UP   '' @ [10]) @ [0] @ take (9 - length (text_of ''UP   '' @ [10]))
      (drop (Suc (length (text_of ''UP   '' @ [10]))) bt_text))) = text_of ''UP   '' @ [13, 10, 0] @ text_of ''MB ''"
    by code_simp
  show ?thesis
    using bt_sends_stale [OF r k(2), of "NOT UP" 0 mmio0] unfolding k(1) option.case c
    by (simp add: uart_out_def mmio_simps)
qed

subsection \<open>Alarm clock\<close>

definition al_time_text :: "RTCTime \<Rightarrow> u8 list" where
  "al_time_text t = [13] @ text_of '' Time '' @ dec_str (RTC_Hour t) @ [0x3A] @ dec_str (RTC_Min t) @ [0x3A] @
     dec_str (RTC_Sec t)"

lemma al_print_prints:
  assumes "uart_ready lsr" "format_spec format ap = Some bs"
  shows "\<exists>s'. al_print lsr format ap s = Some s' \<and> alarm_on (al_rtc s') = alarm_on (al_rtc s) \<and>
    seconds_last s' = seconds_last s \<and> uart_out (rbus (al_rtc s')) = uart_out (rbus (al_rtc s)) @ sent crlf bs"
  using uart_emits [OF us.format_emits [OF assms(2)] assms(1), of "al_reads s" "rbus (al_rtc s)"]
  by (auto simp: al_print_def)

lemma al_formats:
  "format_spec al_alarm_text [] = Some al_alarm_text"
  "\<bar>h\<bar> < 100000 \<Longrightarrow> \<bar>m\<bar> < 100000 \<Longrightarrow> \<bar>sec\<bar> < 100000 \<Longrightarrow> format_spec al_time_fmt [h, m, sec] =
     Some ([13] @ text_of '' Time '' @ dec_str h @ [0x3A] @ dec_str m @ [0x3A] @ dec_str sec)"
  by code_simp (simp add: al_time_fmt_def text_of_def)

lemma rtc_set_out: "uart_out (RTCSetAlarm a (RTCSetTime t m)) = uart_out m"
  by (simp add: RTCSetAlarm_def RTCSetTime_def uart_out_wr)

text \<open>
  One round of the alarm clock returns on a serial port that becomes ready again and again: it
  reports a pending alarm once and clears it, prints the time exactly when the second differs from
  the one last printed, and nothing else; a pressed key first sets time and alarm.
\<close>
theorem al_round_output:
  assumes "uart_ready lsr"
    "m = (if p AND LED = 0 then RTCSetAlarm alarm_time (RTCSetTime local_time (rbus (al_rtc s))) else rbus (al_rtc s))"
    "t = RTCGetTime m" "\<bar>RTC_Hour t\<bar> < 100000" "\<bar>RTC_Min t\<bar> < 100000" "\<bar>RTC_Sec t\<bar> < 100000"
  shows "\<exists>s'. al_round lsr p s = Some s' \<and> alarm_on (al_rtc s') = 0 \<and> seconds_last s' = RTC_Sec t \<and>
    uart_out (rbus (al_rtc s')) = uart_out (rbus (al_rtc s)) @
      (if alarm_on (al_rtc s) \<noteq> 0 then sent crlf al_alarm_text else []) @
      (if seconds_last s \<noteq> RTC_Sec t then sent crlf (al_time_text t) else [])"
proof -
  let ?s = "s\<lparr>al_rtc := (al_rtc s)\<lparr>rbus := m\<rparr>\<rparr>"
  have out: "uart_out m = uart_out (rbus (al_rtc s))" using assms(2) by (simp add: rtc_set_out)
  have s1: "(if p AND LED = 0
      then s\<lparr>al_rtc := (al_rtc s)\<lparr>rbus := RTCSetAlarm alarm_time (RTCSetTime local_time (rbus (al_rtc s)))\<rparr>\<rparr>
      else s) = ?s" using assms(2) by simp
  obtain s2 where 2: "(if alarm_on (al_rtc ?s) \<noteq> 0
      then al_print lsr al_alarm_text [] (?s\<lparr>al_rtc := (al_rtc ?s)\<lparr>alarm_on := 0\<rparr>\<rparr>) else Some ?s) = Some s2"
    "alarm_on (al_rtc s2) = 0" "seconds_last s2 = seconds_last s"
    "uart_out (rbus (al_rtc s2)) = uart_out m @ (if alarm_on (al_rtc s) \<noteq> 0 then sent crlf al_alarm_text else [])"
    using al_print_prints [OF assms(1) al_formats(1), of "?s\<lparr>al_rtc := (al_rtc ?s)\<lparr>alarm_on := 0\<rparr>\<rparr>"]
    by (cases "alarm_on (al_rtc s) = 0") auto
  have f: "format_spec al_time_fmt [RTC_Hour t, RTC_Min t, RTC_Sec t] = Some (al_time_text t)"
    using al_formats(2) [OF assms(4-6)] by (simp add: al_time_text_def)
  have r: "al_round lsr p s = (if seconds_last s2 \<noteq> RTC_Sec t
      then al_print lsr al_time_fmt [RTC_Hour t, RTC_Min t, RTC_Sec t] (s2\<lparr>seconds_last := RTC_Sec t\<rparr>) else Some s2)"
    unfolding al_round_def s1 Let_def 2(1) bind.bind_lunit by (simp add: assms(3))
  show ?thesis
    using al_print_prints [OF assms(1) f, of "s2\<lparr>seconds_last := RTC_Sec t\<rparr>"] 2 out
    unfolding r by (cases "seconds_last s = RTC_Sec t") auto
qed

lemma wr_or_pow: "rd a ((wr_or a v ^^ Suc n) m) = rd a m OR v"
  by (induction n) (simp_all add: mmio_simps or.assoc)

text \<open>
  The alarm interrupt sets the flag the loop reports, clears the alarm bit of the clock and
  acknowledges the interrupt.
\<close>

lemma al_RTCHandler_sets:
  "alarm_on (al_RTCHandler s) = 1" "bit (rd RTC_ILR (rbus (al_RTCHandler s))) 1"
proof -
  have "Suc 699999 = 700000" by simp
  then have "rd RTC_ILR ((wr_or RTC_ILR 0x02 ^^ 700000) (rbus s)) = rd RTC_ILR (rbus s) OR 2"
    using wr_or_pow [of RTC_ILR 699999 "0x02" "rbus s"] by simp
  then show "bit (rd RTC_ILR (rbus (al_RTCHandler s))) 1"
    by (simp add: al_RTCHandler_def rd_wr bit_or_iff del: funpow.simps)
qed (simp add: al_RTCHandler_def)

definition al_state0 :: al_state where
  "al_state0 = \<lparr>al_rtc = \<lparr>rbus = mmio0, alarm_on = 1\<rparr>, al_reads = 0, seconds_last = 0\<rparr>"

theorem al_round_output_witness:
  "\<exists>s'. al_round (\<lambda>_. 0x20) 0 al_state0 = Some s' \<and> alarm_on (al_rtc s') = 0 \<and> seconds_last s' = 23"
proof -
  have r: "uart_ready (\<lambda>_. 0x20)" by (rule ready_const) simp
  have t: "RTCGetTime (RTCSetAlarm alarm_time (RTCSetTime local_time mmio0)) = local_time"
    by (simp add: RTCGetTime_def RTCSetAlarm_def RTCSetTime_def mmio_simps local_time_def)
  have "RTCSetAlarm alarm_time (RTCSetTime local_time mmio0) =
      (if (0 :: u32) AND LED = 0 then RTCSetAlarm alarm_time (RTCSetTime local_time (rbus (al_rtc al_state0)))
       else rbus (al_rtc al_state0))" by (simp add: al_state0_def)
  from al_round_output [OF r this t [symmetric]] show ?thesis by (simp add: local_time_def) blast
qed

subsection \<open>External interrupt\<close>

text \<open>The static counter of the handler advances by two per interrupt and wraps around.\<close>

lemma EINT0_Handler_counts: "fst ((EINT0_Handler ^^ n) (s32 i, m)) = s32 (i + 2 * int n)"
proof (induction n)
  case (Suc n)
  have "s32 (s32 (s32 k + 1) + 1) = s32 (k + 2)" for k by (simp add: s32_add_left add.assoc)
  with Suc show ?case by (simp add: EINT0_Handler_def Let_def case_prod_beta) (simp add: algebra_simps)
qed simp

text \<open>
  The start-up installs the handler for external interrupt 0 at the highest priority, edge
  sensitive on the falling edge, with the pin selected, and enables interrupts.
\<close>
theorem ei_main_ready:
  "let (psr', m') = ei_main h psr m in
     \<not> bit psr' 7 \<and> rd (vect_addr 14) m' = h \<and> rd (vect_cntl 14) m' = HIGHEST_PRIORITY \<and>
     bit (rd PINSEL4 m') 20 \<and> bit (rd EXTMODE m') 0 \<and> \<not> bit (rd EXTPOLAR m') 0"
proof -
  have "bit (IRQ_MASK :: u32) 7" by code_simp
  then show ?thesis
    by (simp add: ei_main_def extint0Init_def install_irq_def Let_def enableIRQ_def vect_addr_def vect_cntl_def
        mmio_simps bit_or_iff bit_and_iff bit_not_iff bit_simps del: wrs.simps)
qed

end
