(* ===== verification/Touch_Apps.thy ===== *)
theory Touch_Apps
  imports Calib_Start Startup
begin

text \<open>
  What the programs \<^verbatim>\<open>src/lpc2478_lcd_cursor\<close> and \<^verbatim>\<open>src/lpc2478_lcd_touch\<close> share. Their \<^verbatim>\<open>main.c\<close> is the
  same: the start-up of clock, interrupt controller, serial port, real time clock and SDRAM, a message,
  the calibration of the touch screen, and then \<open>lcd_test\<close> again and again. They differ in \<^verbatim>\<open>calib_app.c\<close>: how
  the display is opened, and what \<open>lcd_test\<close> does with a sample. The locales say what the shared part
  relies on; each program interprets them with its own routines.
\<close>

section \<open>The main program\<close>

definition app_init :: "(calib_app \<Rightarrow> calib_app option) \<Rightarrow> (nat \<Rightarrow> u32) \<Rightarrow> (nat \<Rightarrow> u32) \<Rightarrow> (nat \<Rightarrow> u32) \<Rightarrow> (nat \<Rightarrow> u32) \<Rightarrow>
    u32 \<Rightarrow> rtc_state \<Rightarrow> calib_app \<Rightarrow> (u32 \<times> rtc_state \<times> calib_app) option" where
  "app_init start scs pllstat tcr lsr cpsr r a = do {
     m \<leftarrow> lowLevelInit scs pllstat (sbus (lio (lcd_st a)));
     let m = init_VIC m;
     let m = initUart0 (UART_BPS 28800000 115200) UART_8N1 m;
     let r = RTCInit (r\<lparr>rbus := m\<rparr>);
     m \<leftarrow> SDRAMInit tcr (rbus r);
     (_, m) \<leftarrow> rprintf1RamRom (uart_put lsr) main_banner [] (0, m);
     a \<leftarrow> start (set_sbus m a);
     let (_, cpsr) = enableIRQ cpsr;
     Some (cpsr, r, a)
   }"

text \<open>The loop of \<open>main\<close>, so many rounds of it.\<close>

fun app_rounds :: "(calib_app \<Rightarrow> calib_app option) \<Rightarrow> nat \<Rightarrow> calib_app \<Rightarrow> calib_app option" where
  "app_rounds test 0 a = Some a"
| "app_rounds test (Suc n) a = do { a \<leftarrow> test a; app_rounds test n a }"

definition app_main :: "(calib_app \<Rightarrow> calib_app option) \<Rightarrow> (calib_app \<Rightarrow> calib_app option) \<Rightarrow> nat \<Rightarrow> (nat \<Rightarrow> u32) \<Rightarrow>
    (nat \<Rightarrow> u32) \<Rightarrow> (nat \<Rightarrow> u32) \<Rightarrow> (nat \<Rightarrow> u32) \<Rightarrow> u32 \<Rightarrow> rtc_state \<Rightarrow> calib_app \<Rightarrow> calib_app option" where
  "app_main start test n scs pllstat tcr lsr cpsr r a = do {
     (_, _, a) \<leftarrow> app_init start scs pllstat tcr lsr cpsr r a;
     app_rounds test n a
   }"

section \<open>The start-up\<close>

lemma RTCInit_pinsel: "rd PINSEL0 (rbus (RTCInit r)) = rd PINSEL0 (rbus r)"
  by (simp add: RTCInit_def mmio_simps del: wrs.simps)

text \<open>The serial port's pins stay selected, and what is printed is the message.\<close>

lemma app_init_start:
  assumes "hw_ready scs pllstat tcr lsr"
  shows "\<exists>m r' pre. app_init start scs pllstat tcr lsr cpsr r a =
      map_option (\<lambda>b. (cpsr AND NOT IRQ_MASK, r', b)) (start (set_sbus m a)) \<and>
    uart_out m = pre @ sent crlf main_banner \<and> rd PINSEL0 m = 0x50"
proof -
  have hw: "ready (\<lambda>v. v AND 0x01 = 0) tcr" "uart_ready lsr" using assms by (simp_all add: hw_ready_def)
  obtain m1 where 1: "lowLevelInit scs pllstat (sbus (lio (lcd_st a))) = Some m1" "rd PINSEL0 m1 = 0"
    using lowLevelInit_pins [OF assms] by blast
  let ?r = "RTCInit (r\<lparr>rbus := initUart0 (UART_BPS 28800000 115200) UART_8N1 (init_VIC m1)\<rparr>)"
  let ?m = "sdram_regs (rbus ?r)"
  have 2: "rd PINSEL0 ?m = 0x50"
    using init_VIC_pinsel [of m1] 1(2) by (simp add: sdram_defs RTCInit_pinsel initUart0_def mmio_simps Let_def)
  obtain n m where 3: "rprintf1RamRom (uart_put lsr) main_banner [] (0, ?m) = Some (n, m)"
    "uart_out m = uart_out ?m @ sent crlf main_banner" "rd PINSEL0 m = 0x50"
    using rprintf_keeps [OF hw(2) banner_format, of 0 ?m] 2 by auto
  have "app_init start scs pllstat tcr lsr cpsr r a =
      map_option (\<lambda>b. (cpsr AND NOT IRQ_MASK, ?r, b)) (start (set_sbus m a))"
    unfolding app_init_def 1(1) Let_def bind.bind_lunit SDRAMInit_returns [OF hw(1)] 3(1) prod.case
    by (cases "start (set_sbus m a)") (simp_all add: enableIRQ_def)
  then show ?thesis using 3(2,3) by blast
qed

lemma app_rounds_last: "app_rounds test (Suc n) a = (app_rounds test n a \<bind> test)"
proof (induction n arbitrary: a)
  case 0
  show ?case by (cases "test a") simp_all
next
  case (Suc n)
  show ?case by (cases "test a") (use Suc in simp_all)
qed

lemma app_rounds_kept:
  assumes "app_rounds test n a = Some b" "\<And>a b. test a = Some b \<Longrightarrow> kept U0THR b = kept U0THR a"
  shows "kept U0THR b = kept U0THR a"
  using assms(1)
proof (induction n arbitrary: a)
  case (Suc n)
  then obtain c where "test a = Some c" "app_rounds test n c = Some b" by (auto simp: bind_eq_Some_conv)
  then show ?case using Suc.IH assms(2) by metis
qed simp

text \<open>What such a program has sent on the serial port when it stands in its loop ends with the message.\<close>

lemma app_main_out:
  assumes "hw_ready scs pllstat tcr lsr" "e_fns (lcd_e E) (SpiXfer_ptr E) = SpiXfer sts rxs"
    and "\<And>l st l'. opn E l = Some (st, l') \<Longrightarrow> stores_at U0THR (sbus (lio l')) = stores_at U0THR (sbus (lio l))"
    and "\<And>a b. test a = Some b \<Longrightarrow> kept U0THR b = kept U0THR a"
    and "app_main (calibrate_with opn E) test n scs pllstat tcr lsr cpsr r a = Some b"
  shows "\<exists>pre. uart_out (sbus (lio (lcd_st b))) = pre @ sent crlf main_banner"
proof -
  obtain m r' pre where i: "app_init (calibrate_with opn E) scs pllstat tcr lsr cpsr r a =
      map_option (\<lambda>b. (cpsr AND NOT IRQ_MASK, r', b)) (calibrate_with opn E (set_sbus m a))"
    "uart_out m = pre @ sent crlf main_banner"
    using app_init_start [OF assms(1)] by blast
  obtain c where c: "calibrate_with opn E (set_sbus m a) = Some c" "app_rounds test n c = Some b"
    using assms(5) by (auto simp: app_main_def i(1) bind_eq_Some_conv)
  have "kept U0THR b = kept U0THR (set_sbus m a)"
    using app_rounds_kept [OF c(2) assms(4)] calibrate_kept(1) [OF c(1) assms(2,3)] by simp
  then have "uart_out (sbus (lio (lcd_st b))) = uart_out m" by (simp add: uart_out_stores set_sbus_def)
  then show ?thesis using i(2) by auto
qed

section \<open>What the programs rely on\<close>

text \<open>The pointers are set, the port and the timers answer, and both fonts are at most 32 pixels high.\<close>

definition panel_ready :: "app_env \<Rightarrow> (nat \<Rightarrow> u32) \<Rightarrow> (nat \<Rightarrow> u32) \<Rightarrow> bool" where
  "panel_ready E sts rxs \<longleftrightarrow> display_ptr E \<noteq> 0 \<and> SpiXfer_ptr E \<noteq> 0 \<and>
     e_fns (lcd_e E) (SpiXfer_ptr E) = SpiXfer sts rxs \<and>
     ready (\<lambda>v. v AND 0x01 = 0) (e_tcr (lcd_e E)) \<and> ready (\<lambda>v. v AND 0x01 = 0) (t0tcr E) \<and>
     0 < font_height (font_winfreesys14x16 E) \<and> font_height (font_winfreesys14x16 E) \<le> 32 \<and>
     0 < font_height (font_rom8x16 E) \<and> font_height (font_rom8x16 E) \<le> 32"

text \<open>
  Samples that calibrate: one that is dropped, then three separate touches, each possibly held, with
  idle samples in between. The coordinates are those of the first sample of each touch.
\<close>

definition three_touches :: "(int \<times> int \<times> int) list \<Rightarrow> int \<times> int \<Rightarrow> int \<times> int \<Rightarrow> int \<times> int \<Rightarrow> bool" where
  "three_touches ss = (\<lambda>(x1, y1) (x2, y2) (x3, y3).
     \<exists>s0 i1 z1 h1 i2 z2 h2 i3 z3. idle i1 \<and> held h1 \<and> idle i2 \<and> i2 \<noteq> [] \<and> held h2 \<and> idle i3 \<and> i3 \<noteq> [] \<and>
       z1 \<noteq> 0 \<and> z2 \<noteq> 0 \<and> z3 \<noteq> 0 \<and>
       ss = s0 # i1 @ (x1, y1, z1) # h1 @ i2 @ (x2, y2, z2) # h2 @ i3 @ [(x3, y3, z3)])"

definition calibrated_with :: "int \<times> int \<Rightarrow> int \<times> int \<Rightarrow> int \<times> int \<Rightarrow> touch_state \<Rightarrow> touch_state" where
  "calibrated_with = (\<lambda>(x1, y1) (x2, y2) (x3, y3).
     touch_calibrate refPoint1 refPoint2 refPoint3 (tp_of x1 y1) (tp_of x2 y2) (tp_of x3 y3))"

text \<open>The routine of the loop: on a port that answers with a sample it returns and keeps its invariant.\<close>

locale touch_loop =
  fixes test :: "app_env \<Rightarrow> calib_app \<Rightarrow> calib_app option" and good :: "app_env \<Rightarrow> calib_app \<Rightarrow> bool"
  assumes test_step: "good E a \<Longrightarrow> panel_ready E sts rxs \<Longrightarrow>
    sample_at (\<lambda>n. ucast (rxs n)) (stack_point E) (touch_st a) (dr_reads (lio (lcd_st a))) = Some s \<Longrightarrow>
    \<exists>b. test E a = Some b \<and> good E b \<and> touch_st b = touch_st a \<and>
      dr_reads (lio (lcd_st b)) = dr_reads (lio (lcd_st a)) + 12"
begin

lemma rounds_run:
  assumes "good E a" "panel_ready E sts rxs" "answers rxs (stack_point E) (touch_st a) (dr_reads (lio (lcd_st a))) ss"
  shows "\<exists>b. app_rounds (test E) (length ss) a = Some b \<and> good E b \<and> touch_st b = touch_st a \<and>
    dr_reads (lio (lcd_st b)) = dr_reads (lio (lcd_st a)) + 12 * length ss"
  using assms(1,3)
proof (induction ss arbitrary: a)
  case (Cons s ss)
  obtain b where b: "test E a = Some b" "good E b" "touch_st b = touch_st a"
    "dr_reads (lio (lcd_st b)) = dr_reads (lio (lcd_st a)) + 12"
    using test_step [OF Cons.prems(1) assms(2), of s] Cons.prems(2) by auto
  then have "answers rxs (stack_point E) (touch_st b) (dr_reads (lio (lcd_st b))) ss" using Cons.prems(2) by simp
  from Cons.IH [OF b(2) this] b show ?case by auto
qed simp

end

text \<open>A whole program: its loop starts in the state that the calibration leaves.\<close>

locale touch_app = lcd_opener opn shown + touch_loop test good
  for opn :: "app_env \<Rightarrow> lcd_state \<Rightarrow> (u32 \<times> lcd_state) option" and shown :: "CLCDC_REGS_T \<Rightarrow> bool" and test :: "app_env \<Rightarrow> calib_app \<Rightarrow> calib_app option"
    and good :: "app_env \<Rightarrow> calib_app \<Rightarrow> bool" +
  assumes calibrated_good: "calib_window E (win1 a) \<Longrightarrow> panel_ready E sts rxs \<Longrightarrow> \<not> firstRun a \<Longrightarrow> dev_lcd a \<Longrightarrow>
    lcd_init (lcdcfg (lcd_st a)) \<Longrightarrow> good E a"
begin

text \<open>
  The program runs up to its last sample \<open>s\<close>: the state \<open>c\<close> after the calibration, and the state \<open>b\<close> of the
  round that reads \<open>s\<close>.
\<close>

lemma app_runs:
  assumes "hw_ready scs pllstat tcr lsr" "panel_ready E sts rxs" "\<not> lcd_init (lcdcfg (lcd_st a))" "\<not> firstRun a"
    and "three_touches ss p1 p2 p3" "t = calibrated_with p1 p2 p3 (touch_st a)"
    and "answers rxs (stack_point E) (touch_st a) (dr_reads (lio (lcd_st a)) + 228) ss"
    and "answers rxs (stack_point E) t (dr_reads (lio (lcd_st a)) + 228 + 12 * length ss) (ps @ [s])"
  shows "\<exists>c r' b. app_init (calibrate_with opn E) scs pllstat tcr lsr cpsr r a = Some (cpsr AND NOT IRQ_MASK, r', c) \<and>
    calib_window E (win1 c) \<and> good E b \<and> touch_st b = t \<and>
    sample_at (\<lambda>n. ucast (rxs n)) (stack_point E) (touch_st b) (dr_reads (lio (lcd_st b))) = Some s \<and>
    app_main (calibrate_with opn E) (test E) (Suc (length ps)) scs pllstat tcr lsr cpsr r a = test E b"
proof -
  obtain m r' where i: "app_init (calibrate_with opn E) scs pllstat tcr lsr cpsr r a =
      map_option (\<lambda>b. (cpsr AND NOT IRQ_MASK, r', b)) (calibrate_with opn E (set_sbus m a))"
    using app_init_start [OF assms(1)] by blast
  let ?a = "set_sbus m a"
  have k: "lcdcfg (lcd_st ?a) = lcdcfg (lcd_st a)" "touch_st ?a = touch_st a"
    "dr_reads (lio (lcd_st ?a)) = dr_reads (lio (lcd_st a))" "firstRun ?a = firstRun a" by (simp_all add: set_sbus_def)
  obtain x1 y1 x2 y2 x3 y3 where p: "p1 = (x1, y1)" "p2 = (x2, y2)" "p3 = (x3, y3)" by (metis surj_pair)
  obtain s0 i1 z1 h1 i2 z2 h2 i3 z3 where ss: "idle i1" "held h1" "idle i2" "i2 \<noteq> []" "held h2" "idle i3" "i3 \<noteq> []"
    "z1 \<noteq> 0" "z2 \<noteq> 0" "z3 \<noteq> 0" "ss = s0 # i1 @ (x1, y1, z1) # h1 @ i2 @ (x2, y2, z2) # h2 @ i3 @ [(x3, y3, z3)]"
    using assms(5) unfolding three_touches_def p prod.case by blast
  have E: "display_ptr E \<noteq> 0" "SpiXfer_ptr E \<noteq> 0" "e_fns (lcd_e E) (SpiXfer_ptr E) = SpiXfer sts rxs"
    "ready (\<lambda>v. v AND 0x01 = 0) (e_tcr (lcd_e E))" "ready (\<lambda>v. v AND 0x01 = 0) (t0tcr E)"
    "0 < font_height (font_winfreesys14x16 E)" "font_height (font_winfreesys14x16 E) \<le> 32"
    using assms(2) by (simp_all add: panel_ready_def)
  have n: "\<not> lcd_init (lcdcfg (lcd_st ?a))" using assms(3) by (simp add: k)
  have "answers rxs (stack_point E) (touch_st ?a) (dr_reads (lio (lcd_st ?a)) + 228) ss" using assms(7) by (simp add: k)
  from calibrate_returns [OF n E ss this] obtain c where c: "calibrate_with opn E ?a = Some c" "touch_st c = t"
    "calib_window E (win1 c)" "\<not> firstRun c" "dev_lcd c" "lcd_init (lcdcfg (lcd_st c))"
    "dr_reads (lio (lcd_st c)) = dr_reads (lio (lcd_st a)) + 228 + 12 * length ss"
    unfolding k assms(6) calibrated_with_def p prod.case using assms(4) by blast
  have "answers rxs (stack_point E) (touch_st c) (dr_reads (lio (lcd_st c))) (ps @ [s])" using assms(8) by (simp add: c(2,7))
  then have q: "answers rxs (stack_point E) (touch_st c) (dr_reads (lio (lcd_st c))) ps"
    "sample_at (\<lambda>n. ucast (rxs n)) (stack_point E) (touch_st c) (dr_reads (lio (lcd_st c)) + 12 * length ps) = Some s"
    by simp_all
  from rounds_run [OF calibrated_good [OF c(3) assms(2) c(4-6)] assms(2) q(1)]
  obtain b where b: "app_rounds (test E) (length ps) c = Some b" "good E b" "touch_st b = touch_st c"
    "dr_reads (lio (lcd_st b)) = dr_reads (lio (lcd_st c)) + 12 * length ps" by blast
  have "app_main (calibrate_with opn E) (test E) (Suc (length ps)) scs pllstat tcr lsr cpsr r a = test E b"
    by (simp add: app_main_def i c(1) app_rounds_last b(1) del: app_rounds.simps)
  then show ?thesis using i c(1-3) b q(2) by (intro exI [of _ c] exI [of _ r'] exI [of _ b]) simp
qed

end

end
