(* ===== verification/Cursor.thy ===== *)
theory Cursor
  imports Touch_Apps
begin

text \<open>
  The cursor program \<^verbatim>\<open>src/lpc2478_lcd_cursor\<close>: once the touch screen is calibrated it moves the hardware
  cursor of the display to every sample. Its drivers are those of the CAN project; its \<open>lcd_test\<close> sets no
  title. The properties are about the whole program of \<open>Touch_Apps\<close>.
\<close>

section \<open>The program\<close>

definition cu_lcd_test :: "app_env \<Rightarrow> calib_app \<Rightarrow> calib_app option" where
  "cu_lcd_test E a = do {
     a \<leftarrow> (if \<not> firstRun a then do {
            a \<leftarrow> lcd_button E 5 260 100 30 RED ''OFF'' (a\<lparr>firstRun := True\<rparr>);
            lcd_button E (240 - 5 - 100) 260 100 30 GREEN ''ON'' a
          } else Some a);
     ((x, y, z), a) \<leftarrow> touch_read E a;
     if \<not> dev_lcd a then None
     else do {
       (_, s) \<leftarrow> lcd_ioctl (lcd_e E) 17 (push_bit 16 (word_of_int y) OR word_of_int x) (lcd_st a);
       Some (a\<lparr>lcd_st := s\<rparr>)
     }
   }"

definition cu_main :: "nat \<Rightarrow> (nat \<Rightarrow> u32) \<Rightarrow> (nat \<Rightarrow> u32) \<Rightarrow> (nat \<Rightarrow> u32) \<Rightarrow> (nat \<Rightarrow> u32) \<Rightarrow> app_env \<Rightarrow> u32 \<Rightarrow>
    rtc_state \<Rightarrow> calib_app \<Rightarrow> calib_app option" where
  "cu_main n scs pllstat tcr lsr E = app_main (calibrateStart E) (cu_lcd_test E) n scs pllstat tcr lsr"

section \<open>One round\<close>

text \<open>What the rounds need: an open display, and a window that holds the two buttons.\<close>

definition cu_ok :: "calib_app \<Rightarrow> bool" where
  "cu_ok a \<longleftrightarrow> calib_win (win1 a) \<and> dev_lcd a \<and> lcd_init (lcdcfg (lcd_st a))"

lemma put_text_xy_still [simp]: "still (fst (swim_put_text_xy win t x y f)) = still win"
  by (simp add: swim_put_text_xy_def)

lemma put_box_in_calib_win:
  assumes "calib_win w" "0 \<le> x1" "x1 + 2 \<le> x2" "x1 \<le> 213" "0 \<le> y1" "y1 + 2 \<le> y2" "y1 \<le> 275" "x2 \<le> 1000" "y2 \<le> 1000"
  shows "\<exists>f'. swim_put_box w x1 y1 x2 y2 f = Some f'"
proof -
  have w: "win_ok w" "xpvmin w + 215 < xpvmax w" "ypvmin w + 277 < ypvmax w" using assms(1) by (simp_all add: calib_win_def)
  have "\<exists>f4 f'. swim_put_box w x1 y1 x2 y2 f = Some f' \<and> True"
    using put_box_paints [OF w(1), of x1 x2 y1 y2 "max (xpvmin w) (min x1 x2 + xpvmin w)"
        "min (xpvmax w) (max x1 x2 + xpvmin w)" "max (ypvmin w) (min y1 y2 + ypvmin w)"
        "min (ypvmax w) (max y1 y2 + ypvmin w)" f] assms w(2,3) by fastforce
  then show ?thesis by auto
qed

lemma lcd_button_returns:
  assumes "calib_win (win1 a)" "(x, y, w, h) \<in> {(5, 260, 100, 30), (135, 260, 100, 30)}"
  shows "\<exists>wn f. lcd_button E x y w h col lbl a = Some (a\<lparr>win1 := wn, fbmem := f\<rparr>) \<and> calib_win wn"
proof -
  obtain w1 f1 where 1: "swim_set_font (win1 a) (font_winfreesys14x16 E) (fbmem a) = (w1, f1)" by fastforce
  have "still w1 = still ((win1 a)\<lparr>font := font_winfreesys14x16 E\<rparr>)"
    using set_font_still [of "win1 a" "font_winfreesys14x16 E" "fbmem a"] 1 by simp
  note g = still_fields [OF this] still_win_ok [OF this]
  let ?w = "swim_set_fill_color w1 col"
  have c: "calib_win ?w" using assms(1) g by (simp add: calib_win_def swim_set_fill_color_def win_ok_def)
  obtain f2 where 2: "swim_put_box ?w x y (s32 (x + w)) (s32 (y + h)) f1 = Some f2"
    using put_box_in_calib_win [OF c, of x "s32 (x + w)" y "s32 (y + h)" f1] assms(2) by (auto simp: wrap_simps)
  let ?v = "swim_set_font_trasparency ?w 0"
  let ?t = "swim_put_text_xy ?v (bytes lbl) (s32 (x + 100 div 2 - 6 * int (length lbl))) (s32 (y + 30 div 2 - 10)) f2"
  have "calib_win ?v" using c by (simp add: calib_win_def swim_set_font_trasparency_def win_ok_def)
  then have "calib_win (fst ?t)" using calib_win_still [OF put_text_xy_still, of ?v] by blast
  moreover have "lcd_button E x y w h col lbl a = Some (a\<lparr>win1 := fst ?t, fbmem := snd ?t\<rparr>)"
    by (simp add: lcd_button_def 1 2 case_prod_beta Let_def)
  ultimately show ?thesis by blast
qed

lemma lcd_ioctl_crsr_xy:
  "lcd_init (lcdcfg s) \<Longrightarrow> lcd_ioctl e 17 v s = Some (LCD_OK, s\<lparr>clcdc := (clcdc s)\<lparr>clcdcrsrxy := v\<rparr>\<rparr>)"
  by (simp add: lcd_ioctl_def cmd_enum reg_cmd_def)

text \<open>The drawing of the first round changes the window and the frame buffer only.\<close>

lemma cu_lcd_test_step:
  assumes "cu_ok a" "e_fns (lcd_e E) (SpiXfer_ptr E) = SpiXfer sts rxs"
    and "sample_at (\<lambda>n. ucast (rxs n)) (stack_point E) (touch_st a) (dr_reads (lio (lcd_st a))) = Some (x, y, z)"
  shows "\<exists>b. cu_lcd_test E a = Some b \<and> cu_ok b \<and> touch_st b = touch_st a \<and>
    dr_reads (lio (lcd_st b)) = dr_reads (lio (lcd_st a)) + 12 \<and>
    clcdc (lcd_st b) = (clcdc (lcd_st a))\<lparr>clcdcrsrxy := push_bit 16 (word_of_int y) OR word_of_int x\<rparr>"
proof -
  have a: "calib_win (win1 a)" "dev_lcd a" "lcd_init (lcdcfg (lcd_st a))" using assms(1) by (simp_all add: cu_ok_def)
  define draw where "draw = (if \<not> firstRun a then do {
            a \<leftarrow> lcd_button E 5 260 100 30 RED ''OFF'' (a\<lparr>firstRun := True\<rparr>);
            lcd_button E (240 - 5 - 100) 260 100 30 GREEN ''ON'' a
          } else Some a)"
  have "\<exists>w f. draw = Some (a\<lparr>win1 := w, fbmem := f, firstRun := True\<rparr>) \<and> calib_win w"
  proof (cases "firstRun a")
    case True
    then show ?thesis using a(1) by (intro exI [of _ "win1 a"] exI [of _ "fbmem a"]) (simp add: draw_def)
  next
    case False
    obtain w1 f1 where 1: "lcd_button E 5 260 100 30 RED ''OFF'' (a\<lparr>firstRun := True\<rparr>) =
        Some (a\<lparr>firstRun := True, win1 := w1, fbmem := f1\<rparr>)" "calib_win w1"
      using lcd_button_returns [of "a\<lparr>firstRun := True\<rparr>" 5 260 100 30 E RED "''OFF''"] a(1) by auto
    obtain w2 f2 where 2: "lcd_button E 135 260 100 30 GREEN ''ON'' (a\<lparr>firstRun := True, win1 := w1, fbmem := f1\<rparr>) =
        Some (a\<lparr>firstRun := True, win1 := w2, fbmem := f2\<rparr>)" "calib_win w2"
      using lcd_button_returns [of "a\<lparr>firstRun := True, win1 := w1, fbmem := f1\<rparr>" 135 260 100 30 E GREEN "''ON''"] 1(2) by auto
    show ?thesis using False 1 2 by (intro exI [of _ w2] exI [of _ f2]) (simp add: draw_def)
  qed
  then obtain w f where d: "draw = Some (a\<lparr>win1 := w, fbmem := f, firstRun := True\<rparr>)" "calib_win w" by blast
  let ?a = "a\<lparr>win1 := w, fbmem := f, firstRun := True\<rparr>"
  obtain io where t: "touch_read E ?a = Some ((x, y, z), ?a\<lparr>lcd_st := (lcd_st a)\<lparr>lio := io\<rparr>\<rparr>)"
    "dr_reads io = dr_reads (lio (lcd_st a)) + 12"
    using touch_read_sample [OF assms(2), of ?a "(x, y, z)"] assms(3) by auto
  have "cu_lcd_test E a = do { ((x, y, z), a) \<leftarrow> touch_read E ?a;
      if \<not> dev_lcd a then None
      else do {
        (_, s) \<leftarrow> lcd_ioctl (lcd_e E) 17 (push_bit 16 (word_of_int y) OR word_of_int x) (lcd_st a);
        Some (a\<lparr>lcd_st := s\<rparr>)
      } }"
    unfolding cu_lcd_test_def draw_def [symmetric] d(1) by simp
  then show ?thesis using t a d(2) by (simp add: lcd_ioctl_crsr_xy cu_ok_def)
qed

interpretation cu: touch_app open_lcd "\<lambda>r. display_on r \<and> bit (clcdcrsrctrl r) 0" cu_lcd_test "\<lambda>E. cu_ok"
proof unfold_locales
  fix E and a :: calib_app and sts rxs s
  assume "cu_ok a" "panel_ready E sts rxs"
    "sample_at (\<lambda>n. ucast (rxs n)) (stack_point E) (touch_st a) (dr_reads (lio (lcd_st a))) = Some s"
  then show "\<exists>b. cu_lcd_test E a = Some b \<and> cu_ok b \<and> touch_st b = touch_st a \<and>
      dr_reads (lio (lcd_st b)) = dr_reads (lio (lcd_st a)) + 12"
    using cu_lcd_test_step [of a E sts rxs] by (cases s) (auto simp: panel_ready_def)
next
  fix E and a :: calib_app and sts rxs
  assume "calib_window E (win1 a)" "panel_ready E sts rxs" "\<not> firstRun a" "dev_lcd a" "lcd_init (lcdcfg (lcd_st a))"
  then show "cu_ok a" using calib_window_win [of E "win1 a"] by (simp add: cu_ok_def panel_ready_def)
qed

text \<open>A round sends nothing on the serial port.\<close>

lemma lcd_button_lcd: "lcd_button E x y w h col l a = Some b \<Longrightarrow> lcd_st b = lcd_st a"
  by (auto simp: lcd_button_def Let_def case_prod_beta bind_eq_Some_conv)

lemma cu_lcd_test_kept:
  assumes "cu_lcd_test E a = Some b" "e_fns (lcd_e E) (SpiXfer_ptr E) = SpiXfer sts rxs"
  shows "kept U0THR b = kept U0THR a"
proof -
  obtain c where c: "(if \<not> firstRun a then do {
            a \<leftarrow> lcd_button E 5 260 100 30 RED ''OFF'' (a\<lparr>firstRun := True\<rparr>);
            lcd_button E (240 - 5 - 100) 260 100 30 GREEN ''ON'' a
          } else Some a) = Some c"
    "(do { ((x, y, z), a) \<leftarrow> touch_read E c;
     if \<not> dev_lcd a then None
     else do {
       (_, s) \<leftarrow> lcd_ioctl (lcd_e E) 17 (push_bit 16 (word_of_int y) OR word_of_int x) (lcd_st a);
       Some (a\<lparr>lcd_st := s\<rparr>)
     } }) = Some b"
    using assms(1) unfolding cu_lcd_test_def bind_eq_Some_conv by blast
  have 1: "lcd_st c = lcd_st a" using c(1) by (auto simp: bind_eq_Some_conv dest!: lcd_button_lcd split: if_splits)
  have x: "lio s' = lio s" if "lcd_ioctl F 17 v s = Some (st, s')" for F v s st s'
    using that by (auto simp: lcd_ioctl_def cmd_enum reg_cmd_def split: if_splits)
  obtain p d where t: "touch_read E c = Some (p, d)" "lio (lcd_st b) = lio (lcd_st d)"
    using c(2) x by (auto simp: bind_eq_Some_conv split: if_splits)
  then show ?thesis using touch_read_kept [OF t(1) assms(2), of U0THR] 1 by (simp add: kept_regs_def)
qed

section \<open>The two halves of the register\<close>

lemma bit_16:
  assumes "0 \<le> (x :: int)" "x < 65536" "bit x n"
  shows "n < 16"
proof -
  have "take_bit 16 x = x" using assms(1,2) by (simp add: take_bit_eq_mod)
  then show ?thesis using assms(3) by (metis bit_take_bit_iff)
qed

lemma crsr_fields:
  assumes "0 \<le> x" "x < 65536" "0 \<le> y" "y < 65536"
  shows "uint ((push_bit 16 (word_of_int y) OR word_of_int x :: u32) AND 0xFFFF) = x"
    "uint (drop_bit 16 (push_bit 16 (word_of_int y) OR word_of_int x :: u32)) = y"
proof -
  let ?w = "push_bit 16 (word_of_int y) OR word_of_int x :: u32"
  have m: "(0xFFFF :: u32) = mask 16" by (simp add: mask_eq_exp_minus_1)
  have "?w AND 0xFFFF = word_of_int x"
    unfolding m
    by (rule bit_word_eqI) (use bit_16 [OF assms(1,2)] bit_16 [OF assms(3,4)] in \<open>auto simp: bit_simps dest: bit_imp_le_length\<close>)
  then show "uint (?w AND 0xFFFF) = x" using assms by (simp add: uint_word_of_int)
  have "drop_bit 16 ?w = word_of_int y"
    by (rule bit_word_eqI) (use bit_16 [OF assms(1,2)] bit_16 [OF assms(3,4)] in \<open>auto simp: bit_simps dest: bit_imp_le_length\<close>)
  then show "uint (drop_bit 16 ?w) = y" using assms by (simp add: uint_word_of_int)
qed

lemma crsr_negative:
  assumes "- 65536 \<le> x" "x < 0"
  shows "drop_bit 16 (v OR word_of_int x :: u32) = 0xFFFF"
proof -
  have "drop_bit 16 x = - 1" using assms by (simp add: drop_bit_eq_div)
  then have b: "bit x (16 + n)" for n using bit_drop_bit_eq [of 16 x] by (metis bit_minus_1_iff comp_apply possible_bit_int)
  have m: "(0xFFFF :: u32) = mask 16" by (simp add: mask_eq_exp_minus_1)
  show ?thesis unfolding m by (rule bit_word_eqI) (use b in \<open>auto simp: bit_simps dest: bit_imp_le_length\<close>)
qed
section \<open>Properties\<close>

text \<open>
  C8 The cursor follows the touch: on hardware that answers its polling loops, if the panel's answers
  are samples that show three separate touches and then the samples qs, main starts up, prints its
  message (the last thing on the serial port, its line end as CR CR LF), calibrates the panel with the
  first sample of each touch, and after each round of its loop the cursor's position register holds the
  coordinates of the sample read in that round (here: the last one of any number), with y above x. For
  coordinates from 0 to 65535 the two halves of the register are exactly these coordinates.
\<close>
theorem cursor_follows_touch:
  assumes "hw_ready scs pllstat tcr lsr" "panel_ready E sts rxs" "\<not> lcd_init (lcdcfg (lcd_st a))" "\<not> firstRun a"
    and "three_touches ss p1 p2 p3" "t = calibrated_with p1 p2 p3 (touch_st a)" "qs = ps @ [(x, y, z)]"
    and "\<forall>k < length ss. sample_at (\<lambda>n. ucast (rxs n)) (stack_point E) (touch_st a)
      (dr_reads (lio (lcd_st a)) + 228 + 12 * k) = Some (ss ! k)"
    and "\<forall>k < length qs. sample_at (\<lambda>n. ucast (rxs n)) (stack_point E) t
      (dr_reads (lio (lcd_st a)) + 228 + 12 * length ss + 12 * k) = Some (qs ! k)"
  shows "\<exists>b pre. cu_main (length qs) scs pllstat tcr lsr E cpsr r a = Some b \<and> touch_st b = t \<and>
    uart_out (sbus (lio (lcd_st b))) = pre @ concat (map (\<lambda>c. if c = 10 then [13, 13, 10] else [c]) main_banner) \<and>
    clcdcrsrxy (clcdc (lcd_st b)) = push_bit 16 (word_of_int y) OR word_of_int x \<and>
    (0 \<le> x \<and> x < 65536 \<and> 0 \<le> y \<and> y < 65536 \<longrightarrow>
       uint (clcdcrsrxy (clcdc (lcd_st b)) AND 0xFFFF) = x \<and> uint (drop_bit 16 (clcdcrsrxy (clcdc (lcd_st b)))) = y)"
proof -
  have s: "answers rxs (stack_point E) (touch_st a) (dr_reads (lio (lcd_st a)) + 228) ss"
    "answers rxs (stack_point E) t (dr_reads (lio (lcd_st a)) + 228 + 12 * length ss) (ps @ [(x, y, z)])"
    using assms(8,9) by (simp_all only: answers_def assms(7))
  obtain b where b: "cu_ok b" "touch_st b = t"
    "sample_at (\<lambda>n. ucast (rxs n)) (stack_point E) (touch_st b) (dr_reads (lio (lcd_st b))) = Some (x, y, z)"
    "cu_main (length qs) scs pllstat tcr lsr E cpsr r a = cu_lcd_test E b"
    using cu.app_runs [OF assms(1-6) s, of cpsr r] unfolding cu_main_def calibrateStart_def by (auto simp: assms(7))
  have x: "e_fns (lcd_e E) (SpiXfer_ptr E) = SpiXfer sts rxs" using assms(2) by (simp add: panel_ready_def)
  from cu_lcd_test_step [OF b(1) x b(3)] obtain c where c: "cu_lcd_test E b = Some c" "touch_st c = t"
    "clcdc (lcd_st c) = (clcdc (lcd_st b))\<lparr>clcdcrsrxy := push_bit 16 (word_of_int y) OR word_of_int x\<rparr>"
    unfolding b(2) by blast
  have "app_main (calibrate_with open_lcd E) (cu_lcd_test E) (length qs) scs pllstat tcr lsr cpsr r a = Some c"
    using b(4) c(1) by (simp add: cu_main_def calibrateStart_def)
  from app_main_out [OF assms(1) x _ _ this] obtain pre where "uart_out (sbus (lio (lcd_st c))) = pre @ sent crlf main_banner"
    using open_lcd_kept [OF _ x, of _ _ _ U0THR] cu_lcd_test_kept [OF _ x] by (auto simp: kept_regs_def)
  then show ?thesis using b(4) c crsr_fields [of x y] by (intro exI [of _ c] exI [of _ pre]) (simp add: sent_crlf)
qed

text \<open>
  C33 The two coordinates are or-ed together at full width, so a sample left of the screen (a negative
  x down to -65536, which the calibration matrix yields beyond its reference points) loses its y: in a
  round of the loop that reads such a sample the upper half of the cursor's position register becomes
  0xFFFF whatever y is.
\<close>
theorem cursor_left_of_screen:
  assumes "cu_ok a" "e_fns (lcd_e E) (SpiXfer_ptr E) = SpiXfer sts rxs"
    and "sample_at (\<lambda>n. ucast (rxs n)) (stack_point E) (touch_st a) (dr_reads (lio (lcd_st a))) = Some (x, y, z)"
    and "- 65536 \<le> x" "x < 0"
  shows "\<exists>b. cu_lcd_test E a = Some b \<and> drop_bit 16 (clcdcrsrxy (clcdc (lcd_st b))) = 0xFFFF"
  using cu_lcd_test_step [OF assms(1-3)] crsr_negative [OF assms(4,5), of "push_bit 16 (word_of_int y)"] by auto

section \<open>Concrete runs\<close>

text \<open>The touches of \<open>Calib_Start\<close>, and then one at the raw position of the second mark.\<close>

definition cu_bytes :: "nat \<Rightarrow> u32" where
  "cu_bytes n = (let k = n - 228 in
     if k mod 3 = 2 then 8 * of_nat ((touches @ [[5, 3, 1, 1]]) ! (k div 12) ! (k mod 12 div 3)) else 0)"

definition cu_env0 :: app_env where
  "cu_env0 = app_env0\<lparr>lcd_e := lcd_env0\<lparr>e_fns := (\<lambda>_. SpiXfer (\<lambda>_. 0x80) cu_bytes)\<rparr>\<rparr>"

abbreviation (input) "cu_touches \<equiv> [(1, 1, 0), (2, 2, 1), (1, 1, 0), (5, 3, 4), (1, 1, 0), (3 :: int, 7 :: int, 2 :: int)]"

abbreviation (input) "cu_cal0 \<equiv> calibrated_with (2, 2) (5, 3) (3, 7)"

lemma three_touches0: "three_touches cu_touches (2, 2) (5, 3) (3, 7)"
  unfolding three_touches_def prod.case
  by (rule exI [of _ "(1, 1, 0)"], rule exI [of _ "[]"], rule exI [of _ 1], rule exI [of _ "[]"], rule exI [of _ "[(1, 1, 0)]"],
      rule exI [of _ 4], rule exI [of _ "[]"], rule exI [of _ "[(1, 1, 0)]"], rule exI [of _ 2])
    (simp add: idle_def held_def)

lemma cu_samples:
  "\<forall>k < length cu_touches.
     sample_at (\<lambda>n. ucast (cu_bytes n)) (stack_point cu_env0) (touch_st app0) (dr_reads (lio (lcd_st app0)) + 228 + 12 * k) =
     Some (cu_touches ! k)"
  "\<forall>k < length [(120, 62, 4)].
     sample_at (\<lambda>n. ucast (cu_bytes n)) (stack_point cu_env0) (cu_cal0 (touch_st app0))
       (dr_reads (lio (lcd_st app0)) + 228 + 12 * length cu_touches + 12 * k) = Some ([(120, 62, 4)] ! k)"
  by code_simp+

lemma cu_env0_ready: "panel_ready cu_env0 (\<lambda>_. 0x80) cu_bytes"
  by (simp add: panel_ready_def cu_env0_def app_env0_def lcd_env0_def ready_const) (simp add: font0_def)

theorem cursor_follows_touch_witness:
  "\<exists>b. cu_main 1 (\<lambda>_. 0x40) (\<lambda>_. 0x0600000B) (\<lambda>_. 0) (\<lambda>_. 0x20) cu_env0 0xD3 \<lparr>rbus = mmio0, alarm_on = 0\<rparr> app0 = Some b \<and>
     clcdcrsrxy (clcdc (lcd_st b)) = push_bit 16 62 OR 120"
proof -
  have a: "\<not> lcd_init (lcdcfg (lcd_st app0))" "\<not> firstRun app0" by (simp_all add: app0_def lcd_closed_def)
  have q: "[(120, 62, 4)] = [] @ [(120 :: int, 62 :: int, 4 :: int)]" by simp
  show ?thesis
    using cursor_follows_touch [OF hw_ready_const cu_env0_ready a three_touches0 refl q cu_samples] by auto
qed

text \<open>A display of 240 by 320 pixels that is open, with the panel calibrated.\<close>

definition cu_open :: calib_app where
  "cu_open = app0\<lparr>dev_lcd := True, lcd_st := lcd_opened, touch_st := cu_cal0 (touch_st app0)\<rparr>"

definition cu_env1 :: app_env where
  "cu_env1 = app_env0\<lparr>lcd_e := lcd_env0\<lparr>e_fns := (\<lambda>_. SpiXfer (\<lambda>_. 0x80) (\<lambda>n. if n mod 3 = 2 then 8 else 0))\<rparr>\<rparr>"

theorem cursor_left_of_screen_witness:
  "\<exists>b. cu_lcd_test cu_env1 cu_open = Some b \<and> drop_bit 16 (clcdcrsrxy (clcdc (lcd_st b))) = 0xFFFF"
proof -
  have e: "e_fns (lcd_e cu_env1) (SpiXfer_ptr cu_env1) = SpiXfer (\<lambda>_. 0x80) (\<lambda>n. if n mod 3 = 2 then 8 else 0)"
    by (simp add: cu_env1_def)
  have "sample_at (\<lambda>n. ucast ((if n mod 3 = 2 then 8 else 0) :: u32)) (stack_point cu_env1) (touch_st cu_open)
      (dr_reads (lio (lcd_st cu_open))) = Some (- 44, 347, 0)"
    by code_simp
  moreover have "cu_ok cu_open"
    by (simp add: cu_ok_def cu_open_def app0_def lcd_opened_def calib_win_def win_ok_def win0_def)
  ultimately show ?thesis using cursor_left_of_screen [OF _ e, of cu_open "- 44" 347 0] by simp
qed

end
