(* ===== verification/Touch_Draw.thy ===== *)
theory Touch_Draw
  imports Cursor
begin

text \<open>
  The drawing program \<^verbatim>\<open>src/lpc2478_lcd_touch\<close>: once the touch screen is calibrated it sets a second title
  and then draws a pixel at every sample. It is the program of \<open>Touch_Apps\<close> with a display without cursor
  and an \<open>lcd_test\<close> of its own; the properties are about where the pixels go.
\<close>

section \<open>The program\<close>

definition tt_open_lcd :: "app_env \<Rightarrow> lcd_state \<Rightarrow> (u32 \<times> lcd_state) option" where
  "tt_open_lcd E s =
     (let (opened, s) = lcd_open (lcd_e E) LCD_BASE (display_ptr E) s in
      if \<not> opened then Some (- 1, s)
      else do {
        (_, s) \<leftarrow> lcd_ioctl (lcd_e E) 20 (SpiXfer_ptr E) s;
        (_, s) \<leftarrow> lcd_ioctl (lcd_e E) 0 0xA0000000 s;
        (_, s) \<leftarrow> lcd_ioctl (lcd_e E) 3 1 s;
        (_, s) \<leftarrow> lcd_ioctl (lcd_e E) 2 1 s;
        Some (0, s)
      })"

definition tt_lcd_test :: "app_env \<Rightarrow> calib_app \<Rightarrow> calib_app option" where
  "tt_lcd_test E a = do {
     a \<leftarrow> (if \<not> firstRun a then do {
            let a = a\<lparr>firstRun := True\<rparr>;
            (w, f) \<leftarrow> swim_set_title (win1 a) (Some (bytes ''    -- Touch screen TEST --'')) GREEN (fbmem a);
            Some (a\<lparr>win1 := w, fbmem := f\<rparr>)
          } else Some a);
     ((x, y, z), a) \<leftarrow> touch_read E a;
     Some (a\<lparr>fbmem := swim_put_pixel (win1 a) x y (fbmem a)\<rparr>)
   }"

definition tt_calibrateStart :: "app_env \<Rightarrow> calib_app \<Rightarrow> calib_app option" where
  "tt_calibrateStart = calibrate_with tt_open_lcd"

definition tt_init :: "(nat \<Rightarrow> u32) \<Rightarrow> (nat \<Rightarrow> u32) \<Rightarrow> (nat \<Rightarrow> u32) \<Rightarrow> (nat \<Rightarrow> u32) \<Rightarrow> app_env \<Rightarrow> u32 \<Rightarrow>
    rtc_state \<Rightarrow> calib_app \<Rightarrow> (u32 \<times> rtc_state \<times> calib_app) option" where
  "tt_init scs pllstat tcr lsr E = app_init (tt_calibrateStart E) scs pllstat tcr lsr"

definition tt_main :: "nat \<Rightarrow> (nat \<Rightarrow> u32) \<Rightarrow> (nat \<Rightarrow> u32) \<Rightarrow> (nat \<Rightarrow> u32) \<Rightarrow> (nat \<Rightarrow> u32) \<Rightarrow> app_env \<Rightarrow> u32 \<Rightarrow>
    rtc_state \<Rightarrow> calib_app \<Rightarrow> calib_app option" where
  "tt_main n scs pllstat tcr lsr E = app_main (tt_calibrateStart E) (tt_lcd_test E) n scs pllstat tcr lsr"

section \<open>One round\<close>

lemma tt_open_lcd_returns:
  assumes "\<not> lcd_init (lcdcfg s)" "display_ptr E \<noteq> 0" "SpiXfer_ptr E \<noteq> 0"
    and "e_fns (lcd_e E) (SpiXfer_ptr E) = SpiXfer sts rxs" "ready (\<lambda>v. v AND 0x01 = 0) (e_tcr (lcd_e E))"
  shows "\<exists>s'. tt_open_lcd E s = Some (0, s') \<and> dr_reads (lio s') = dr_reads (lio s) + 228 \<and> lcd_init (lcdcfg s') \<and>
    display_on (clcdc s')"
proof -
  obtain s1 where 1: "lcd_open (lcd_e E) LCD_BASE (display_ptr E) s = (True, s1)" "lcd_init (lcdcfg s1)"
    "dr_reads (lio s1) = dr_reads (lio s)"
    using assms(1,2) by (auto simp: lcd_open_def Let_def case_prod_beta)
  obtain io n where d: "lcd_display_init (SpiXfer sts rxs) (e_tcr (lcd_e E)) (lio s1, tcr_reads s1) = Some (io, n)"
    "dr_reads io = dr_reads (lio s1) + 228"
    using sp.display_init_count [OF assms(5), of sts rxs "lio s1" "tcr_reads s1"] by blast
  show ?thesis
    using 1 assms(3,4) d
    by (simp add: tt_open_lcd_def lcd_ioctl_def cmd_enum reg_cmd_def on_off_def pwr_on_def Let_def bit_or_iff display_on_def)
qed

text \<open>The window of the loop: below the second title, whose font is the one the calibration ended with.\<close>

definition drawn_window :: "app_env \<Rightarrow> SWIM_WINDOW_T \<Rightarrow> bool" where
  "drawn_window E w \<longleftrightarrow> xpsize w = 240 \<and> xpvmin w = 1 \<and> xpvmax w = 238 \<and>
     ypvmin w = font_height (font_winfreesys14x16 E) + font_height (font_rom8x16 E) + 9 \<and> ypvmax w = 318 \<and> pen w = BLACK"

definition tt_ok :: "app_env \<Rightarrow> calib_app \<Rightarrow> bool" where
  "tt_ok E a \<longleftrightarrow> (if firstRun a then drawn_window E (win1 a) else calib_window E (win1 a))"

lemma second_title:
  assumes "calib_window E w" "panel_ready E sts rxs"
  shows "\<exists>w' f'. swim_set_title w (Some t) c f = Some (w', f') \<and> drawn_window E w'"
proof -
  have "win_ok w" "0 < font_height (font w)" "xpvmin w < xpvmax w" "ypvmin w + font_height (font w) + 4 < ypvmax w"
    "xvsize w = xpvmax w - xpvmin w" "font_height (font w) < 4 + yvsize w"
    using assms by (simp_all add: calib_window_def panel_ready_def)
  from set_title_returns [OF this, of t c f] assms(1) show ?thesis
    by (auto simp: calib_window_def drawn_window_def)
qed

lemma tt_lcd_test_step:
  assumes "tt_ok E a" "panel_ready E sts rxs"
    and "sample_at (\<lambda>n. ucast (rxs n)) (stack_point E) (touch_st a) (dr_reads (lio (lcd_st a))) = Some (x, y, z)"
  shows "\<exists>w f io. tt_lcd_test E a = Some (a\<lparr>firstRun := True, win1 := w, fbmem := swim_put_pixel w x y f,
      lcd_st := (lcd_st a)\<lparr>lio := io\<rparr>\<rparr>) \<and> drawn_window E w \<and> dr_reads io = dr_reads (lio (lcd_st a)) + 12"
proof -
  define draw where "draw = (if \<not> firstRun a then do {
            let a = a\<lparr>firstRun := True\<rparr>;
            (w, f) \<leftarrow> swim_set_title (win1 a) (Some (bytes ''    -- Touch screen TEST --'')) GREEN (fbmem a);
            Some (a\<lparr>win1 := w, fbmem := f\<rparr>)
          } else Some a)"
  have "\<exists>w f. draw = Some (a\<lparr>firstRun := True, win1 := w, fbmem := f\<rparr>) \<and> drawn_window E w"
  proof (cases "firstRun a")
    case True
    then show ?thesis using assms(1) by (intro exI [of _ "win1 a"] exI [of _ "fbmem a"]) (simp add: draw_def tt_ok_def)
  next
    case False
    then have "calib_window E (win1 a)" using assms(1) by (simp add: tt_ok_def)
    from second_title [OF this assms(2), of "bytes ''    -- Touch screen TEST --''" GREEN "fbmem a"]
    obtain w' f' where "swim_set_title (win1 a) (Some (bytes ''    -- Touch screen TEST --'')) GREEN (fbmem a) = Some (w', f')"
      "drawn_window E w'" by blast
    then show ?thesis using False by (intro exI [of _ w'] exI [of _ f']) (simp add: draw_def)
  qed
  then obtain w f where d: "draw = Some (a\<lparr>firstRun := True, win1 := w, fbmem := f\<rparr>)" "drawn_window E w" by blast
  let ?a = "a\<lparr>firstRun := True, win1 := w, fbmem := f\<rparr>"
  have "e_fns (lcd_e E) (SpiXfer_ptr E) = SpiXfer sts rxs" using assms(2) by (simp add: panel_ready_def)
  from touch_read_sample [OF this, of ?a "(x, y, z)"] assms(3)
  obtain io where t: "touch_read E ?a = Some ((x, y, z), ?a\<lparr>lcd_st := (lcd_st a)\<lparr>lio := io\<rparr>\<rparr>)"
    "dr_reads io = dr_reads (lio (lcd_st a)) + 12" by auto
  have "tt_lcd_test E a = Some (a\<lparr>firstRun := True, win1 := w, fbmem := swim_put_pixel w x y f,
      lcd_st := (lcd_st a)\<lparr>lio := io\<rparr>\<rparr>)"
    unfolding tt_lcd_test_def draw_def [symmetric] d(1) by (simp add: t(1))
  then show ?thesis using d(2) t(2) by blast
qed

interpretation tt: touch_app tt_open_lcd display_on tt_lcd_test tt_ok
proof unfold_locales
  fix E :: app_env and s :: lcd_state and sts rxs
  assume "\<not> lcd_init (lcdcfg s)" "display_ptr E \<noteq> 0" "SpiXfer_ptr E \<noteq> 0"
    "e_fns (lcd_e E) (SpiXfer_ptr E) = SpiXfer sts rxs" "ready (\<lambda>v. v AND 0x01 = 0) (e_tcr (lcd_e E))"
  then show "\<exists>s'. tt_open_lcd E s = Some (0, s') \<and> dr_reads (lio s') = dr_reads (lio s) + 228 \<and> lcd_init (lcdcfg s') \<and>
    display_on (clcdc s')"
    by (rule tt_open_lcd_returns)
next
  fix E :: app_env and a :: calib_app and sts rxs s
  assume "tt_ok E a" "panel_ready E sts rxs"
    "sample_at (\<lambda>n. ucast (rxs n)) (stack_point E) (touch_st a) (dr_reads (lio (lcd_st a))) = Some s"
  then show "\<exists>b. tt_lcd_test E a = Some b \<and> tt_ok E b \<and> touch_st b = touch_st a \<and>
      dr_reads (lio (lcd_st b)) = dr_reads (lio (lcd_st a)) + 12"
    using tt_lcd_test_step [of E a sts rxs] by (cases s) (fastforce simp: tt_ok_def)
next
  fix E :: app_env and a :: calib_app and sts rxs
  assume "calib_window E (win1 a)" "\<not> firstRun a"
  then show "tt_ok E a" by (simp add: tt_ok_def)
qed

text \<open>Where a pixel of the loop's window goes.\<close>

lemma drawn_pixel:
  assumes "drawn_window E w" "- 32000 \<le> x" "x \<le> 237" "- 32000 \<le> y" "ypvmin w + y \<le> 318"
    and "0 \<le> ypvmin w" "ypvmin w \<le> 318"
  shows "swim_put_pixel w x y f = pset (1 + x + (ypvmin w + y) * 240) BLACK f"
  using assms by (simp add: swim_put_pixel_def drawn_window_def Let_def wrap_simps offs_def)

section \<open>Properties\<close>

text \<open>
  C9 The drawing program draws below the touch. On hardware that answers its polling loops, with
  samples that calibrate and then the samples qs, the program starts up, calibrates in a window whose
  draw area begins below the first title, and every round returns. But the first round sets a second
  title, which moves the draw area down by the height of its font and four lines: a sample (x, y) is
  not drawn at the point (x, y) of the window in which the marks were shown and to which the panel
  was calibrated, but that many lines below it.
\<close>
theorem touch_draws_below:
  assumes "hw_ready scs pllstat tcr lsr" "panel_ready E sts rxs" "\<not> lcd_init (lcdcfg (lcd_st a))" "\<not> firstRun a"
    and "three_touches ss p1 p2 p3" "t = calibrated_with p1 p2 p3 (touch_st a)" "qs = ps @ [(x, y, z)]"
    and "\<forall>k < length ss. sample_at (\<lambda>n. ucast (rxs n)) (stack_point E) (touch_st a)
      (dr_reads (lio (lcd_st a)) + 228 + 12 * k) = Some (ss ! k)"
    and "\<forall>k < length qs. sample_at (\<lambda>n. ucast (rxs n)) (stack_point E) t
      (dr_reads (lio (lcd_st a)) + 228 + 12 * length ss + 12 * k) = Some (qs ! k)"
    and "h = font_height (font_rom8x16 E) + 4"
  shows "\<exists>r' c b. tt_init scs pllstat tcr lsr E cpsr r a = Some (cpsr AND NOT IRQ_MASK, r', c) \<and>
    xpvmin (win1 c) = 1 \<and> ypvmin (win1 c) = font_height (font_winfreesys14x16 E) + 5 \<and>
    tt_main (length qs) scs pllstat tcr lsr E cpsr r a = Some b \<and> touch_st b = t \<and>
    (0 \<le> x \<and> x \<le> 237 \<and> 0 \<le> y \<and> ypvmin (win1 c) + y + h \<le> 318 \<longrightarrow>
       last (plog (fbmem b)) = (xpvmin (win1 c) + x + (ypvmin (win1 c) + y + h) * 240, BLACK))"
proof -
  have s: "answers rxs (stack_point E) (touch_st a) (dr_reads (lio (lcd_st a)) + 228) ss"
    "answers rxs (stack_point E) t (dr_reads (lio (lcd_st a)) + 228 + 12 * length ss) (ps @ [(x, y, z)])"
    using assms(8,9) by (simp_all only: answers_def assms(7))
  obtain r' c b where b: "tt_init scs pllstat tcr lsr E cpsr r a = Some (cpsr AND NOT IRQ_MASK, r', c)"
    "calib_window E (win1 c)" "tt_ok E b" "touch_st b = t"
    "sample_at (\<lambda>n. ucast (rxs n)) (stack_point E) (touch_st b) (dr_reads (lio (lcd_st b))) = Some (x, y, z)"
    "tt_main (length qs) scs pllstat tcr lsr E cpsr r a = tt_lcd_test E b"
    using tt.app_runs [OF assms(1-6) s, of cpsr r] unfolding tt_main_def tt_init_def tt_calibrateStart_def
    by (auto simp: assms(7))
  obtain w f io where w: "tt_lcd_test E b = Some (b\<lparr>firstRun := True, win1 := w, fbmem := swim_put_pixel w x y f,
      lcd_st := (lcd_st b)\<lparr>lio := io\<rparr>\<rparr>)" "drawn_window E w"
    using tt_lcd_test_step [OF b(3) assms(2) b(5)] by blast
  have c: "xpvmin (win1 c) = 1" "ypvmin (win1 c) = font_height (font_winfreesys14x16 E) + 5" "ypvmin w = ypvmin (win1 c) + h"
    using b(2) w(2) by (simp_all add: calib_window_def drawn_window_def assms(10))
  have "0 \<le> ypvmin w" "ypvmin w \<le> 318" using w(2) assms(2) by (simp_all add: drawn_window_def panel_ready_def)
  with drawn_pixel [OF w(2), of x y f] have "swim_put_pixel w x y f = pset (1 + x + (ypvmin w + y) * 240) BLACK f"
    if "0 \<le> x" "x \<le> 237" "0 \<le> y" "ypvmin w + y \<le> 318" using that by simp
  then show ?thesis
    using b(1,4,6) w(1) c by (intro exI [of _ r'] exI [of _ c] exI [of _ "b\<lparr>firstRun := True, win1 := w,
        fbmem := swim_put_pixel w x y f, lcd_st := (lcd_st b)\<lparr>lio := io\<rparr>\<rparr>"]) (simp add: pset_def algebra_simps)
qed

text \<open>
  C32 Only the right and the lower edge of the window are checked: a round that reads a sample far
  enough above the draw area (a negative y, which the calibration matrix yields beyond its reference
  points) stores its pixel at a negative offset, that is in front of the frame buffer.
\<close>
theorem touch_draws_outside:
  assumes "tt_ok E a" "panel_ready E sts rxs"
    and "sample_at (\<lambda>n. ucast (rxs n)) (stack_point E) (touch_st a) (dr_reads (lio (lcd_st a))) = Some (x, y, z)"
    and "- 32000 \<le> x" "x \<le> 237" "- 32000 \<le> y"
    and "y < - (font_height (font_winfreesys14x16 E) + font_height (font_rom8x16 E) + 9)"
  shows "\<exists>b i. tt_lcd_test E a = Some b \<and> last (plog (fbmem b)) = (i, BLACK) \<and> i < 0"
proof -
  obtain w f io where w: "tt_lcd_test E a = Some (a\<lparr>firstRun := True, win1 := w, fbmem := swim_put_pixel w x y f,
      lcd_st := (lcd_st a)\<lparr>lio := io\<rparr>\<rparr>)" "drawn_window E w"
    using tt_lcd_test_step [OF assms(1-3)] by blast
  have v: "ypvmin w + y < 0" "0 \<le> ypvmin w" "ypvmin w \<le> 318"
    using w(2) assms(2,7) by (simp_all add: drawn_window_def panel_ready_def)
  have "swim_put_pixel w x y f = pset (1 + x + (ypvmin w + y) * 240) BLACK f"
    by (rule drawn_pixel [OF w(2) assms(4-6)]) (use v in simp_all)
  moreover have "1 + x + (ypvmin w + y) * 240 < 0" using v(1) assms(5) by simp
  ultimately show ?thesis using w(1) by (auto simp: pset_def)
qed

section \<open>Concrete runs\<close>

theorem touch_draws_below_witness:
  "\<exists>b. tt_main 1 (\<lambda>_. 0x40) (\<lambda>_. 0x0600000B) (\<lambda>_. 0) (\<lambda>_. 0x20) cu_env0 0xD3 \<lparr>rbus = mmio0, alarm_on = 0\<rparr> app0 = Some b \<and>
     last (plog (fbmem b)) = (1 + 120 + (21 + 62 + 20) * 240, BLACK)"
proof -
  have a: "\<not> lcd_init (lcdcfg (lcd_st app0))" "\<not> firstRun app0" by (simp_all add: app0_def lcd_closed_def)
  have f: "font_height (font_winfreesys14x16 cu_env0) = 16" "20 = font_height (font_rom8x16 cu_env0) + 4"
    by (simp_all add: cu_env0_def app_env0_def font0_def)
  have q: "[(120, 62, 4)] = [] @ [(120 :: int, 62 :: int, 4 :: int)]" by simp
  show ?thesis
    using touch_draws_below [OF hw_ready_const cu_env0_ready a three_touches0 refl q cu_samples f(2), of "0xD3" "\<lparr>rbus = mmio0, alarm_on = 0\<rparr>"]
    by (auto simp: f(1))
qed

text \<open>A calibrated panel that is touched above the draw area.\<close>

definition tt_env1 :: app_env where
  "tt_env1 = app_env0\<lparr>lcd_e := lcd_env0\<lparr>e_fns := (\<lambda>_. SpiXfer (\<lambda>_. 0x80)
     (\<lambda>n. if n mod 3 = 2 then 8 * of_nat ([8, 1, 1, 1] ! (n mod 12 div 3)) else 0))\<rparr>\<rparr>"

definition tt_open :: calib_app where
  "tt_open = app0\<lparr>touch_st := cu_cal0 (touch_st app0),
     win1 := win0\<lparr>ypvmin := font_height font0 + 5, yvsize := 321 - font_height font0, pen := 0\<rparr>\<rparr>"

theorem touch_draws_outside_witness:
  "\<exists>b i. tt_lcd_test tt_env1 tt_open = Some b \<and> last (plog (fbmem b)) = (i, BLACK) \<and> i < 0"
proof -
  have e: "panel_ready tt_env1 (\<lambda>_. 0x80) (\<lambda>n. if n mod 3 = 2 then 8 * of_nat ([8, 1, 1, 1] ! (n mod 12 div 3)) else 0)"
    by (simp add: panel_ready_def tt_env1_def app_env0_def lcd_env0_def ready_const) (simp add: font0_def)
  have s: "sample_at (\<lambda>n. ucast ((if n mod 3 = 2 then 8 * of_nat ([8, 1, 1, 1] ! (n mod 12 div 3)) else 0) :: u32))
      (stack_point tt_env1) (touch_st tt_open) (dr_reads (lio (lcd_st tt_open))) = Some (115, - 192, 7)"
    by code_simp
  have o: "tt_ok tt_env1 tt_open"
    by (simp add: tt_ok_def tt_open_def tt_env1_def app_env0_def app0_def calib_window_def win_ok_def win0_def font0_def)
  have h: "(- 192 :: int) < - (font_height (font_winfreesys14x16 tt_env1) + font_height (font_rom8x16 tt_env1) + 9)"
    by (simp add: tt_env1_def app_env0_def font0_def)
  show ?thesis by (rule touch_draws_outside [OF o e s _ _ _ h]) simp_all
qed

end
