(* ===== verification/Demos_Serial.thy ===== *)
theory Demos_Serial
  imports Codesign Demos Startup
begin

text \<open>
  Three small programs around the serial port: the driver for all four ports with its greeting program
  (\<^verbatim>\<open>src/lpc2478_uart\<close>), the echo of received characters over the SPI port (\<^verbatim>\<open>src/lpc2478_uart_to_SPI\<close>),
  and the clock that prints the time (\<^verbatim>\<open>src/lpc2478_RealTimeClock\<close>). What they share with the other
  projects is modelled there. What the serial data register holds when it is read, and the time the
  clock shows in a round of the loop, are parameters.
\<close>

section \<open>The driver for four serial ports\<close>

abbreviation (input) "UART0 \<equiv> (0xE000C000 :: u32)"
abbreviation (input) "UART1 \<equiv> (0xE0010000 :: u32)"
abbreviation (input) "UART2 \<equiv> (0xE0078000 :: u32)"
abbreviation (input) "UART3 \<equiv> (0xE007C000 :: u32)"
abbreviation (input) "PINSEL7 \<equiv> (0xE002C01C :: u32)"

text \<open>
  The driver reaches the registers through a structure of fifteen consecutive words; these are the
  offsets of the fields it uses. For another port than the four, the pointer has no value: \<open>None\<close>.
\<close>

definition DLL_off :: u32 where "DLL_off = 0x08"
definition DLM_off :: u32 where "DLM_off = 0x0C"
definition FCR_off :: u32 where "FCR_off = 0x18"
definition LCR_off :: u32 where "LCR_off = 0x1C"

definition ua_pins :: "u32 \<Rightarrow> mmio \<Rightarrow> mmio option" where
  "ua_pins uart m =
     (if uart = UART0 then Some (wr PINSEL0 (push_bit 4 1 OR push_bit 6 1) m)
      else if uart = UART1 then Some (wr_or PINSEL7 (push_bit 0 1 OR push_bit 1 1 OR push_bit 2 1 OR push_bit 3 1) m)
      else if uart = UART2 then Some (wr PINSEL0 (rd PINSEL0 m OR (push_bit 20 1 OR push_bit 22 1)) m)
      else if uart = UART3 then Some (wr PINSEL0 (rd PINSEL0 m OR (push_bit 1 1 OR push_bit 3 1)) m)
      else None)"

definition ua_initUart :: "u32 \<Rightarrow> u16 \<Rightarrow> u8 \<Rightarrow> mmio \<Rightarrow> mmio option" where
  "ua_initUart uart div_factor mode m = do {
     m \<leftarrow> ua_pins uart m;
     let m = wr (uart + LCR_off) 0x80 m;
     let m = wr (uart + DLL_off) (ucast (ucast div_factor :: u8)) m;
     let m = wr (uart + DLM_off) (ucast (ucast (drop_bit 8 div_factor) :: u8)) m;
     let m = wr (uart + LCR_off) (ucast mode AND NOT 0x80) m;
     Some (wr (uart + FCR_off) 0x01 m)
   }"

definition ua_sendchar :: "u32 \<Rightarrow> u8 \<Rightarrow> mmio \<Rightarrow> mmio" where
  "ua_sendchar uart ch m = wr uart (ucast ch) m"

text \<open>\<open>lsr\<close> is what the line status register reads.\<close>

definition getkey :: "u32 \<Rightarrow> u32 \<Rightarrow> u8" where
  "getkey lsr uart = (if lsr AND 0x01 \<noteq> 0 then ucast uart else 0)"

text \<open>
  The greeting program: the counting delays do nothing, and each round sends one character of a buffer
  of 40 that the text fills up to zeros.
\<close>

definition ua_text :: "u8 list" where
  "ua_text = text_of ''Hello EMB world, from EA2478 '' @ 10 # replicate 10 0"

definition ua_ledInit :: "mmio \<Rightarrow> mmio" where
  "ua_ledInit m = wr FIO2CLR 0x400 (wr_or FIO2DIR 0x400 (wr 0xE002C010 0 m))"

definition ua_init :: "(nat \<Rightarrow> u32) \<Rightarrow> (nat \<Rightarrow> u32) \<Rightarrow> mmio \<Rightarrow> (u8 \<times> mmio) option" where
  "ua_init scs pllstat m = do {
     m \<leftarrow> lowLevelInit scs pllstat m;
     m \<leftarrow> ua_initUart UART0 (UART_BPS 28800000 9600) UART_8N1 m;
     Some (0, ua_ledInit m)
   }"

definition ua_round :: "u8 \<times> mmio \<Rightarrow> u8 \<times> mmio" where
  "ua_round = (\<lambda>(c, m).
     let m = wr FIO2SET (push_bit 10 1) (wr FIO2CLR (push_bit 10 1) m)
     in if c < 40 then (c + 1, ua_sendchar UART0 (ua_text ! unat c) m) else (c, m))"

section \<open>Echo over the SPI port\<close>

definition sp_welcome :: "u8 list" where
  "sp_welcome = [13, 10] @ text_of ''Welcome to SPI test program!'' @ [13, 10]"

definition sp_intro :: "u8 list" where
  "sp_intro = [13, 10] @ text_of ''Charachters recieved on UART0 is echoed on SPI 0'' @ [13, 10]"

definition sp_fmt :: "u8 list" where
  "sp_fmt = [13] @ text_of '' TX:%x RX:%x   ''"

definition sp_print :: "(nat \<Rightarrow> u32) \<Rightarrow> u8 list \<Rightarrow> int list \<Rightarrow> nat \<times> spi_io \<Rightarrow> (nat \<times> spi_io) option" where
  "sp_print lsr format ap = (\<lambda>(n, s). do {
     (n, m) \<leftarrow> rprintf1RamRom (uart_put lsr) format ap (n, sbus s);
     Some (n, s\<lparr>sbus := m\<rparr>)
   })"

definition sp_init :: "(nat \<Rightarrow> u32) \<Rightarrow> (nat \<Rightarrow> u32) \<Rightarrow> (nat \<Rightarrow> u32) \<Rightarrow> spi_io \<Rightarrow> (nat \<times> spi_io) option" where
  "sp_init scs pllstat lsr s = do {
     m \<leftarrow> lowLevelInit scs pllstat (sbus s);
     let m = initUart0 (UART_BPS 28800000 115200) UART_8N1 m;
     m \<leftarrow> cs_SPIInit 1000 0 0 0 m;
     u \<leftarrow> sp_print lsr sp_welcome [] (0, s\<lparr>sbus := m\<rparr>);
     sp_print lsr sp_intro [] u
   }"

text \<open>One round of the loop, which waits for a character; \<open>rbr\<close> is what the data register then reads.\<close>

definition sp_round :: "(nat \<Rightarrow> u32) \<Rightarrow> (nat \<Rightarrow> u32) \<Rightarrow> (nat \<Rightarrow> u32) \<Rightarrow> u32 \<Rightarrow> nat \<times> spi_io \<Rightarrow> (nat \<times> spi_io) option" where
  "sp_round lsr sts rxs rbr = (\<lambda>(n, s). do {
     (c, n) \<leftarrow> getchar lsr n rbr;
     let tx = (ucast c :: u8);
     let (rx, s) = cs_SpiXfer sts rxs tx s;
     sp_print lsr sp_fmt [uint tx, uint rx] (n, s)
   })"

fun sp_rounds :: "(nat \<Rightarrow> u32) \<Rightarrow> (nat \<Rightarrow> u32) \<Rightarrow> (nat \<Rightarrow> u32) \<Rightarrow> u32 list \<Rightarrow> nat \<times> spi_io \<Rightarrow> (nat \<times> spi_io) option" where
  "sp_rounds lsr sts rxs [] u = Some u"
| "sp_rounds lsr sts rxs (c # cs) u = do { u \<leftarrow> sp_round lsr sts rxs c u; sp_rounds lsr sts rxs cs u }"

section \<open>The clock\<close>

text \<open>
  The state of the program and the text it prints are those of the alarm clock (\<open>Demos\<close>), its \<open>RTCInit\<close>
  and \<open>main\<close> are its own.
\<close>

abbreviation (input) "RTC_PREINT \<equiv> (0xE0024080 :: u32)"
abbreviation (input) "RTC_PREFRAC \<equiv> (0xE0024084 :: u32)"
abbreviation (input) "RTC_CIIR \<equiv> (0xE002400C :: u32)"

definition rt_RTCInit :: "rtc_state \<Rightarrow> rtc_state" where
  "rt_RTCInit s = s\<lparr>alarm_on := 0, rbus := wrs [(0xE0024010, 0), (RTC_CIIR, 0), (0xE0024008, 0),
     (RTC_PREINT, 0x1C8), (RTC_PREFRAC, 0x61C0)] (rbus s)\<rparr>"

definition rt_local_time :: RTCTime where
  "rt_local_time = \<lparr>RTC_Sec = 23, RTC_Min = 44, RTC_Hour = 9, RTC_Mday = 30, RTC_Mon = 9, RTC_Year = 2010,
     RTC_Wday = 3, RTC_Yday = 201\<rparr>"

definition rt_alarm_time :: RTCTime where
  "rt_alarm_time = \<lparr>RTC_Sec = 0, RTC_Min = 0, RTC_Hour = 0, RTC_Mday = 1, RTC_Mon = 1, RTC_Year = 2007,
     RTC_Wday = 0, RTC_Yday = 1\<rparr>"

definition rt_banner :: "u8 list" where
  "rt_banner = text_of ''RTC test program '' @ [10]"

text \<open>\<open>None\<close>: the endless loop after a failed installation of the handler \<open>h\<close>.\<close>

definition rt_init :: "(nat \<Rightarrow> u32) \<Rightarrow> (nat \<Rightarrow> u32) \<Rightarrow> (nat \<Rightarrow> u32) \<Rightarrow> u32 \<Rightarrow> int \<Rightarrow> rtc_state \<Rightarrow> al_state option" where
  "rt_init scs pllstat lsr h sl r = do {
     m \<leftarrow> lowLevelInit scs pllstat (rbus r);
     let m = init_VIC m;
     let m = initUart0 (UART_BPS 28800000 115200) UART_8N1 m;
     let r = rt_RTCInit (r\<lparr>rbus := m\<rparr>);
     s \<leftarrow> al_print lsr rt_banner [] \<lparr>al_rtc = r, al_reads = 0, seconds_last = sl\<rparr>;
     let m = RTCSetAlarm rt_alarm_time (RTCSetTime rt_local_time (rbus (al_rtc s)));
     let (ok, m) = install_irq 13 h HIGHEST_PRIORITY m;
     if \<not> ok then None
     else do {
       let m = RTCSetAlarmMask (0x01 + 0x02 + 0x04 + 0x08 + 0x10 + 0x20 + 0x40 + 0x80) m;
       let m = wr RTC_CIIR (0x02 OR 0x80) m;
       Some (s\<lparr>al_rtc := (al_rtc s)\<lparr>rbus := RTCStart m\<rparr>\<rparr>)
     }
   }"

text \<open>
  One round; \<open>t\<close> and \<open>t'\<close> are what the two calls of \<open>RTCGetTime\<close> return (the second is made when the
  alarm flag was set).
\<close>

definition rt_round :: "(nat \<Rightarrow> u32) \<Rightarrow> RTCTime \<times> RTCTime \<Rightarrow> al_state \<Rightarrow> al_state option" where
  "rt_round lsr = (\<lambda>(t, t') s.
     let (cur, s) = (if alarm_on (al_rtc s) \<noteq> 0 then (t', s\<lparr>al_rtc := (al_rtc s)\<lparr>alarm_on := 0\<rparr>\<rparr>) else (t, s))
     in if seconds_last s \<noteq> RTC_Sec cur
        then al_print lsr al_time_fmt [RTC_Hour cur, RTC_Min cur, RTC_Sec cur] (s\<lparr>seconds_last := RTC_Sec cur\<rparr>)
        else Some s)"

fun rt_rounds :: "(nat \<Rightarrow> u32) \<Rightarrow> (RTCTime \<times> RTCTime) list \<Rightarrow> al_state \<Rightarrow> al_state option" where
  "rt_rounds lsr [] s = Some s"
| "rt_rounds lsr (t # ts) s = do { s \<leftarrow> rt_round lsr t s; rt_rounds lsr ts s }"

section \<open>Properties\<close>

subsection \<open>The driver for four serial ports\<close>

text \<open>The log of an initialisation: the pin selection, then five stores.\<close>

lemma ua_initUart_log:
  assumes "uart \<in> {UART0, UART1, UART2, UART3}"
  shows "\<exists>p m'. ua_initUart uart div_factor mode m = Some m' \<and> fst p \<in> {PINSEL0, PINSEL7} \<and>
    wlog m' = wlog m @ [p, (uart + 0x1C, 0x80), (uart + 0x08, ucast (ucast div_factor :: u8)),
      (uart + 0x0C, ucast (ucast (drop_bit 8 div_factor) :: u8)), (uart + 0x1C, ucast mode AND NOT 0x80),
      (uart + 0x18, 0x01)] \<and>
    rd (uart + 0x0C) m' = ucast (ucast (drop_bit 8 div_factor) :: u8)"
  using assms
  by (elim insertE emptyE)
    (simp_all add: ua_initUart_def ua_pins_def DLL_off_def DLM_off_def FCR_off_def LCR_off_def mmio_simps)

lemma high_byte_0: "div_factor < 256 \<Longrightarrow> drop_bit 8 (div_factor :: u16) = 0"
  by (simp add: word_less_nat_alt word_unat_eq_iff unat_drop_bit_eq) (simp add: drop_bit_eq_div)

text \<open>
  C35 The registers of a port are not laid out as the structure of the driver says: the divisor latch is
  the first two words, the line control register is at offset 0x0C. So initUart, for any of the four
  ports, never writes the divisor latch (nor the data and interrupt enable registers at the same
  offsets), whatever the divisor. What reaches the line control register is the high byte of the
  divisor and never the mode; for every rate whose divisor is below 256, as that of the greeting
  program is, this is zero: characters of five bits, whatever the mode asks for.
\<close>
theorem initUart_misses_divisor:
  assumes "uart \<in> {UART0, UART1, UART2, UART3}"
  shows "\<exists>m' l. ua_initUart uart div_factor mode m = Some m' \<and> wlog m' = wlog m @ l \<and>
    uart \<notin> fst ` set l \<and> uart + 0x04 \<notin> fst ` set l \<and>
    rd (uart + 0x0C) m' = ucast (ucast (drop_bit 8 div_factor) :: u8) \<and>
    (div_factor < 256 \<longrightarrow> rd (uart + 0x0C) m' = 0) \<and> UART_BPS 28800000 9600 < 256"
proof -
  obtain p m' where p: "ua_initUart uart div_factor mode m = Some m'" "fst p \<in> {PINSEL0, PINSEL7}"
    "wlog m' = wlog m @ [p, (uart + 0x1C, 0x80), (uart + 0x08, ucast (ucast div_factor :: u8)),
      (uart + 0x0C, ucast (ucast (drop_bit 8 div_factor) :: u8)), (uart + 0x1C, ucast mode AND NOT 0x80),
      (uart + 0x18, 0x01)]"
    "rd (uart + 0x0C) m' = ucast (ucast (drop_bit 8 div_factor) :: u8)"
    using ua_initUart_log [OF assms] by blast
  have "UART_BPS 28800000 9600 < 256" by code_simp
  moreover have "uart \<notin> fst ` set (drop (length (wlog m)) (wlog m'))"
    "uart + 0x04 \<notin> fst ` set (drop (length (wlog m)) (wlog m'))"
    using assms p(2) by (auto simp: p(3))
  ultimately show ?thesis
    using p high_byte_0 [of div_factor] by (intro exI [of _ m'] exI [of _ "drop (length (wlog m)) (wlog m')"]) simp
qed

theorem initUart_misses_divisor_witness:
  "\<exists>m'. ua_initUart UART2 188 UART_8N1 mmio0 = Some m' \<and> rd (UART2 + 0x0C) m' = 0"
  using initUart_misses_divisor [of UART2 188 UART_8N1 mmio0] by auto

text \<open>\<open>getkey\<close> returns the low byte of the address it should read, which is zero for all four ports.\<close>

lemma getkey_never_reads:
  "uart \<in> {UART0, UART1, UART2, UART3} \<Longrightarrow> getkey lsr uart = 0"
  by (elim insertE emptyE) (simp_all add: getkey_def)

text \<open>Whatever the line status, one character leaves in each round until the forty of the buffer are out.\<close>

lemma ua_greeting:
  "k \<le> 40 \<Longrightarrow> \<exists>m'. (ua_round ^^ k) (0, m) = (of_nat k, m') \<and> uart_out m' = uart_out m @ take k ua_text"
proof (induction k)
  case (Suc k)
  then obtain m' where m': "(ua_round ^^ k) (0, m) = (of_nat k, m')" "uart_out m' = uart_out m @ take k ua_text"
    by auto
  have l: "length ua_text = 40" by (simp add: ua_text_def text_of_def)
  have u: "unat (of_nat k :: u8) = k" using Suc.prems by (simp add: unat_of_nat)
  then have "(of_nat k :: u8) < 40" using Suc.prems by (simp add: word_less_nat_alt)
  then have "ua_round (of_nat k, m') = (of_nat (Suc k),
      wr UART0 (ucast (ua_text ! k)) (wr FIO2SET (push_bit 10 1) (wr FIO2CLR (push_bit 10 1) m')))"
    by (simp only: ua_round_def Let_def prod.case if_True u ua_sendchar_def of_nat_Suc add.commute)
  moreover have "take (Suc k) ua_text = take k ua_text @ [ua_text ! k]"
    using l Suc.prems by (simp add: take_Suc_conv_app_nth)
  ultimately show ?case using m' by (simp add: uart_out_wr ucast_u8_u32)
qed simp

subsection \<open>Echo over the SPI port\<close>

definition sp_line :: "u8 \<Rightarrow> u8 \<Rightarrow> u8 list" where
  "sp_line tx rx = [13] @ text_of '' TX:'' @ hex4_str (uint tx) @ text_of '' RX:'' @ hex4_str (uint rx) @ text_of ''   ''"

lemma sp_line_format: "format_spec sp_fmt [uint tx, uint rx] = Some (sp_line tx rx)"
  by (simp add: sp_fmt_def sp_line_def text_of_def)

lemma sp_line_sent: "sent crlf (sp_line tx rx) = sp_line tx rx"
  by (rule sent_plain) (auto simp: sp_line_def text_of_def hex4_str_def digit_char_plain [symmetric])

lemma cs_SpiXfer_eq:
  "\<exists>k. cs_SpiXfer sts rxs c s = (ucast (rxs (dr_reads s)),
     s\<lparr>sbus := wr S0SPDR (ucast c) (sbus s), sts_reads := k, dr_reads := dr_reads s + 1\<rparr>)"
  by (intro exI [of _ "sts_reads s + spi_wait sts (sts_reads s) 0 + 4"]) (simp add: cs_SpiXfer_def SPIError_nop Let_def)

lemma sp_print_prints:
  assumes "uart_ready lsr" "format_spec format ap = Some bs"
  shows "\<exists>n' m'. sp_print lsr format ap (n, s) = Some (n', s\<lparr>sbus := m'\<rparr>) \<and>
    uart_out m' = uart_out (sbus s) @ sent crlf bs \<and> stores_at S0SPDR m' = stores_at S0SPDR (sbus s)"
proof -
  obtain n' m' where "rprintf1RamRom (uart_put lsr) format ap (n, sbus s) = Some (n', m')"
    "uart_out m' = uart_out (sbus s) @ sent crlf bs" "\<forall>a. a \<noteq> U0THR \<longrightarrow> stores_at a m' = stores_at a (sbus s)"
    using rprintf_keeps [OF assms, of n "sbus s"] by blast
  then show ?thesis by (intro exI [of _ n'] exI [of _ m']) (simp add: sp_print_def)
qed

lemma sp_round_echoes:
  assumes "uart_ready lsr" "ready (\<lambda>v. v AND 0x01 \<noteq> 0) lsr"
  shows "\<exists>n' s'. sp_round lsr sts rxs c (n, s) = Some (n', s') \<and> dr_reads s' = dr_reads s + 1 \<and>
    stores_at S0SPDR (sbus s') = stores_at S0SPDR (sbus s) @ [ucast (ucast c :: u8)] \<and>
    uart_out (sbus s') = uart_out (sbus s) @ sp_line (ucast c) (ucast (rxs (dr_reads s)))"
proof -
  obtain k where k: "poll (\<lambda>v. v AND 0x01 \<noteq> 0) lsr n = Some k" using ready_poll [OF assms(2)] by blast
  obtain j where j: "cs_SpiXfer sts rxs (ucast c) s = (ucast (rxs (dr_reads s)),
     s\<lparr>sbus := wr S0SPDR (ucast (ucast c :: u8)) (sbus s), sts_reads := j, dr_reads := dr_reads s + 1\<rparr>)"
    using cs_SpiXfer_eq by blast
  show ?thesis
    using sp_print_prints [OF assms(1) sp_line_format, of "ucast c" "ucast (rxs (dr_reads s))" "Suc k"
        "s\<lparr>sbus := wr S0SPDR (ucast (ucast c :: u8)) (sbus s), sts_reads := j, dr_reads := dr_reads s + 1\<rparr>"]
    by (auto simp: sp_round_def getchar_def k j sp_line_sent uart_out_wr stores_at_wr)
qed

text \<open>
  C31 The echo program passes every character on: on a serial port that becomes ready again and again,
  each round returns; every character received on the serial port is sent once over the SPI port, in
  order, cut to eight bits, and reported on the serial port with the answer of that very transfer,
  both as four hexadecimal digits.
\<close>
theorem spi_echo:
  assumes "uart_ready lsr" "ready (\<lambda>v. v AND 0x01 \<noteq> 0) lsr"
  shows "\<exists>n' s'. sp_rounds lsr sts rxs cs (n, s) = Some (n', s') \<and> dr_reads s' = dr_reads s + length cs \<and>
    stores_at S0SPDR (sbus s') = stores_at S0SPDR (sbus s) @ map (\<lambda>c. ucast (ucast c :: u8)) cs \<and>
    uart_out (sbus s') = uart_out (sbus s) @
      concat (map (\<lambda>i. sp_line (ucast (cs ! i)) (ucast (rxs (dr_reads s + i)))) [0..<length cs])"
proof (induction cs arbitrary: n s)
  case (Cons c cs)
  obtain n1 s1 where 1: "sp_round lsr sts rxs c (n, s) = Some (n1, s1)" "dr_reads s1 = dr_reads s + 1"
    "stores_at S0SPDR (sbus s1) = stores_at S0SPDR (sbus s) @ [ucast (ucast c :: u8)]"
    "uart_out (sbus s1) = uart_out (sbus s) @ sp_line (ucast c) (ucast (rxs (dr_reads s)))"
    using sp_round_echoes [OF assms] by blast
  obtain n2 s2 where 2: "sp_rounds lsr sts rxs cs (n1, s1) = Some (n2, s2)" "dr_reads s2 = dr_reads s1 + length cs"
    "stores_at S0SPDR (sbus s2) = stores_at S0SPDR (sbus s1) @ map (\<lambda>c. ucast (ucast c :: u8)) cs"
    "uart_out (sbus s2) = uart_out (sbus s1) @
      concat (map (\<lambda>i. sp_line (ucast (cs ! i)) (ucast (rxs (dr_reads s1 + i)))) [0..<length cs])"
    using Cons.IH by blast
  show ?case
    using 1 2 by (intro exI [of _ n2] exI [of _ s2]) (simp add: map_upt_Suc del: upt_Suc)
qed simp

theorem spi_echo_witness:
  "\<exists>n' s'. sp_rounds (\<lambda>_. 0x21) (\<lambda>_. 0x80) (\<lambda>n. 0x31) [0x41] (0, \<lparr>sbus = mmio0, wSPIErrors = [0, 0, 0, 0], sts_reads = 0, dr_reads = 0\<rparr>) =
      Some (n', s') \<and> uart_out (sbus s') = [13] @ text_of '' TX:0041 RX:0031   ''"
proof -
  have r: "uart_ready (\<lambda>_. 0x21)" "ready (\<lambda>v. v AND 0x01 \<noteq> 0) (\<lambda>_. 0x21)" by (rule ready_const, simp)+
  have l: "sp_line (ucast (0x41 :: u32)) (ucast (0x31 :: u32)) = [13] @ text_of '' TX:0041 RX:0031   ''" by code_simp
  have u: "uart_out mmio0 = []" by (simp add: uart_out_def mmio_simps)
  show ?thesis
    using spi_echo [OF r, of "\<lambda>_. 0x80" "\<lambda>n. 0x31" "[0x41]" 0
        "\<lparr>sbus = mmio0, wSPIErrors = [0, 0, 0, 0], sts_reads = 0, dr_reads = 0\<rparr>"] l
    by (auto simp: u simp del: sp_rounds.simps)
qed

subsection \<open>The clock\<close>

text \<open>Of a sequence of times the ones whose second is not that of the time before.\<close>

fun changes :: "int \<Rightarrow> RTCTime list \<Rightarrow> RTCTime list" where
  "changes sl [] = []"
| "changes sl (t # ts) = (if RTC_Sec t = sl then changes sl ts else t # changes (RTC_Sec t) ts)"

definition rt_small :: "RTCTime \<Rightarrow> bool" where
  "rt_small t \<longleftrightarrow> \<bar>RTC_Hour t\<bar> < 100000 \<and> \<bar>RTC_Min t\<bar> < 100000 \<and> \<bar>RTC_Sec t\<bar> < 100000"

lemma rt_round_prints:
  assumes "uart_ready lsr" "alarm_on (al_rtc s) = 0" "rt_small (fst t)"
  shows "\<exists>s'. rt_round lsr t s = Some s' \<and> alarm_on (al_rtc s') = 0 \<and> seconds_last s' = RTC_Sec (fst t) \<and>
    uart_out (rbus (al_rtc s')) = uart_out (rbus (al_rtc s)) @
      (if RTC_Sec (fst t) = seconds_last s then [] else sent crlf (al_time_text (fst t)))"
proof -
  have f: "format_spec al_time_fmt [RTC_Hour (fst t), RTC_Min (fst t), RTC_Sec (fst t)] = Some (al_time_text (fst t))"
    using al_formats(2) assms(3) by (simp add: al_time_text_def rt_small_def)
  show ?thesis
    using al_print_prints [OF assms(1) f, of "s\<lparr>seconds_last := RTC_Sec (fst t)\<rparr>"] assms(2)
    by (cases "RTC_Sec (fst t) = seconds_last s") (auto simp: rt_round_def case_prod_beta)
qed

text \<open>
  C30 The clock prints the time exactly when its second changes: on a serial port that becomes ready
  again and again and without alarm, any number of rounds of the loop return, and what they transmit
  is one line for each time read whose second differs from that of the read before, in order, and
  nothing else.
\<close>
theorem clock_prints_changes:
  assumes "uart_ready lsr" "alarm_on (al_rtc s) = 0"
    and "\<forall>t \<in> set ts. \<bar>RTC_Hour (fst t)\<bar> < 100000 \<and> \<bar>RTC_Min (fst t)\<bar> < 100000 \<and> \<bar>RTC_Sec (fst t)\<bar> < 100000"
  shows "\<exists>s'. rt_rounds lsr ts s = Some s' \<and> alarm_on (al_rtc s') = 0 \<and>
    uart_out (rbus (al_rtc s')) = uart_out (rbus (al_rtc s)) @
      concat (map (\<lambda>t. sent crlf (al_time_text t)) (changes (seconds_last s) (map fst ts)))"
  using assms(2,3)
proof (induction ts arbitrary: s)
  case (Cons t ts)
  have "rt_small (fst t)" using Cons.prems(2) by (simp add: rt_small_def)
  then obtain s1 where 1: "rt_round lsr t s = Some s1" "alarm_on (al_rtc s1) = 0" "seconds_last s1 = RTC_Sec (fst t)"
    "uart_out (rbus (al_rtc s1)) = uart_out (rbus (al_rtc s)) @
      (if RTC_Sec (fst t) = seconds_last s then [] else sent crlf (al_time_text (fst t)))"
    using rt_round_prints [OF assms(1) Cons.prems(1)] by blast
  moreover obtain s2 where "rt_rounds lsr ts s1 = Some s2" "alarm_on (al_rtc s2) = 0"
    "uart_out (rbus (al_rtc s2)) = uart_out (rbus (al_rtc s1)) @
      concat (map (\<lambda>t. sent crlf (al_time_text t)) (changes (seconds_last s1) (map fst ts)))"
    using Cons.IH [OF 1(2)] Cons.prems(2) by auto
  ultimately show ?case by (intro exI [of _ s2]) auto
qed simp

theorem clock_prints_changes_witness:
  "\<exists>s'. rt_rounds (\<lambda>_. 0x20) [(rt_local_time, rt_local_time), (rt_local_time, rt_alarm_time)]
      \<lparr>al_rtc = \<lparr>rbus = mmio0, alarm_on = 0\<rparr>, al_reads = 0, seconds_last = 0\<rparr> = Some s' \<and>
    uart_out (rbus (al_rtc s')) = [13] @ text_of '' Time 9:44:23''"
proof -
  have r: "uart_ready (\<lambda>_. 0x20)" by (rule ready_const) simp
  have c: "concat (map (\<lambda>t. sent crlf (al_time_text t)) (changes 0 [rt_local_time, rt_local_time])) = [13] @ text_of '' Time 9:44:23''"
    by code_simp
  have u: "uart_out mmio0 = []" by (simp add: uart_out_def mmio_simps)
  have p: "\<forall>t \<in> set [(rt_local_time, rt_local_time), (rt_local_time, rt_alarm_time)].
      \<bar>RTC_Hour (fst t)\<bar> < 100000 \<and> \<bar>RTC_Min (fst t)\<bar> < 100000 \<and> \<bar>RTC_Sec (fst t)\<bar> < 100000"
    by (simp add: rt_local_time_def)
  show ?thesis
    using clock_prints_changes [OF r _ p, of "\<lparr>al_rtc = \<lparr>rbus = mmio0, alarm_on = 0\<rparr>, al_reads = 0, seconds_last = 0\<rparr>"] c
    by (auto simp: u simp del: rt_rounds.simps changes.simps)
qed

text \<open>
  C34 The clock runs almost twice too fast: on hardware that answers its polling loops the start-up
  returns with the time set, the alarm handler installed and the clock enabled on its prescaler, and
  the prescaler makes a second of 15000000 cycles of the peripheral clock, which the start-up has set
  to half of the 57.6 MHz of the processor, that is 28.8 MHz.
\<close>
theorem clock_runs_fast:
  assumes "hw_ready scs pllstat tcr lsr"
  shows "\<exists>s. rt_init scs pllstat lsr h sl r = Some s \<and> RTCGetTime (rbus (al_rtc s)) = rt_local_time \<and>
    alarm_on (al_rtc s) = 0 \<and> rd (vect_addr 13) (rbus (al_rtc s)) = h \<and> rd RTC_CCR (rbus (al_rtc s)) = 0x01 \<and>
    rd PCLKSEL0 (rbus (al_rtc s)) = 0xAAAAAAAA \<and>
    (uint (rd RTC_PREINT (rbus (al_rtc s))) + 1) * 32768 + uint (rd RTC_PREFRAC (rbus (al_rtc s))) = 15000000"
proof -
  have hw: "uart_ready lsr" using assms by (simp add: hw_ready_def)
  obtain m1 where 1: "lowLevelInit scs pllstat (rbus r) = Some m1" "rd PCLKSEL0 m1 = 0xAAAAAAAA"
    using lowLevelInit_pins [OF assms] by blast
  let ?r = "rt_RTCInit (r\<lparr>rbus := initUart0 (UART_BPS 28800000 115200) UART_8N1 (init_VIC m1)\<rparr>)"
  have "format_spec rt_banner [] = Some rt_banner" by code_simp
  from rprintf_keeps [OF hw this, of 0 "rbus ?r"] obtain n m where
    2: "rprintf1RamRom (uart_put lsr) rt_banner [] (0, rbus ?r) = Some (n, m)"
    "\<forall>a. a \<noteq> U0THR \<longrightarrow> rd a m = rd a (rbus ?r)" by blast
  have 3: "rd PCLKSEL0 m = 0xAAAAAAAA" "rd RTC_CCR m = 0" "rd RTC_PREINT m = 0x1C8" "rd RTC_PREFRAC m = 0x61C0"
    using 2(2) 1(2) by (simp_all add: rt_RTCInit_def initUart0_def Let_def mmio_simps init_VIC_other del: wrs.simps)
  show ?thesis
    using 1(1) 2(1) 3
    by (simp add: rt_init_def al_print_def install_irq_def RTCSetAlarm_def RTCSetTime_def RTCSetAlarmMask_def
        RTCStart_def RTCGetTime_def rt_local_time_def vect_addr_def vect_cntl_def mmio_simps rt_RTCInit_def Let_def del: wrs.simps)
qed

theorem clock_runs_fast_witness:
  "\<exists>s. rt_init (\<lambda>_. 0x40) (\<lambda>_. 0x0600000B) (\<lambda>_. 0x20) 0x4000 0 \<lparr>rbus = mmio0, alarm_on = 0\<rparr> = Some s \<and>
     RTCGetTime (rbus (al_rtc s)) = rt_local_time"
  using clock_runs_fast [OF hw_ready_const, of "0x4000" 0 "\<lparr>rbus = mmio0, alarm_on = 0\<rparr>"] by blast

end
