(* ===== verification/Demos_Pins.thy ===== *)
theory Demos_Pins
  imports Codesign Demos Startup
begin

text \<open>
  Three small programs that drive pins and external registers: the FPGA shell with the joystick
  (\<^verbatim>\<open>src/WB_shell/App\<close>), two soft timers that toggle port pins (\<^verbatim>\<open>src/lpc2478_timer_irq\<close>), and the
  accesses to external memory (\<^verbatim>\<open>src/emc_quiz_code\<close>). The shell has the registers and variables of the
  program in \<open>Codesign\<close>, whose state it shares here.
\<close>

section \<open>FPGA shell\<close>

definition wb_init :: "(nat \<Rightarrow> u32) \<Rightarrow> (nat \<Rightarrow> u32) \<Rightarrow> (nat \<Rightarrow> u32) \<Rightarrow> int \<Rightarrow> int \<Rightarrow> int \<Rightarrow> mmio \<Rightarrow> cs_state option" where
  "wb_init scs pllstat lsr pressed0 released0 cmd0 m = do {
     m \<leftarrow> cs_lowLevelInit scs pllstat m;
     let m = initUart0 (UART_BPS 28800000 115200) UART_8N1 m;
     let m = wr_or FIO2DIR FPGA_RESET m;
     let m = wr FIO2SET FPGA_RESET m;
     u \<leftarrow> rprintf1RamRom (uart_put lsr) ([13, 10] @ text_of ''Welcome to FPGA + ARM7 test program!'' @ [13, 10]) [] (0, m);
     (n, m) \<leftarrow> rprintf1RamRom (uart_put lsr) ([13, 10] @ text_of ''Push joystick '' @ [13, 10] @
        text_of '' UP/DOWN/RIGHT/LEFT '' @ [13, 10] @ text_of '' to light an LED on the Spartan 3A board'') [] u;
     let m = wr FIO2CLR FPGA_RESET m;
     Some \<lparr>io = (n, m), count = 0, pwm = - 0x8000, pressed = pressed0, released = released0, cmd = cmd0\<rparr>
   }"

definition wb_eval :: "cs_state \<Rightarrow> cs_state" where
  "wb_eval s =
     (if pressed s AND released s \<noteq> 0 then
        let s = (if cmd s = CNT_UP then s\<lparr>count := s16 (count s + 1)\<rparr>
                 else if cmd s = CNT_DWN then s\<lparr>count := s16 (count s - 1)\<rparr>
                 else if cmd s = PWM_UP then s\<lparr>pwm := s16 (pwm s + 0x1000)\<rparr>
                 else if cmd s = PWM_DWN then s\<lparr>pwm := s16 (pwm s - 0x1000)\<rparr>
                 else s)
        in s\<lparr>pressed := 0, released := 0\<rparr>
      else s)"

definition wb_keys :: "u32 \<Rightarrow> cs_state \<Rightarrow> cs_state" where
  "wb_keys pins s =
     (let key = readKeys pins in
      if key = UP then (wbo WBO_REG1 (count s) s)\<lparr>cmd := CNT_UP, pressed := 1\<rparr>
      else if key = DOWN then (wbo WBO_REG1 (count s) s)\<lparr>cmd := CNT_DWN, pressed := 1\<rparr>
      else if key = LEFT then (wbo WBO_REG2 (pwm s) s)\<lparr>pressed := 1\<rparr>
      else if key = RIGHT then (wbo WBO_REG2 (pwm s) s)\<lparr>pressed := 1\<rparr>
      else if key = CENTER then wbo WBO_REG2 0x8000 (wbo WBO_REG1 0 s)
      else s\<lparr>released := 1\<rparr>)"

text \<open>Rounds of the endless loop, with the port read in each.\<close>

fun wb_loop :: "u32 list \<Rightarrow> cs_state \<Rightarrow> cs_state" where
  "wb_loop [] s = s"
| "wb_loop (p # ps) s = wb_loop ps (wb_keys p (wb_eval s))"

section \<open>Soft timers and pins\<close>

abbreviation (input) "FIO2PIN_ADDR \<equiv> (0x3FFFC054 :: u32)"

text \<open>
  \<open>FIO2PIN = ((~FIO2PIN) & (1 << k))\<close>; the bit that counts is that of an output pin, which reads what
  was stored last.
\<close>

definition toggle :: "nat \<Rightarrow> mmio \<Rightarrow> mmio" where
  "toggle k m = wr FIO2PIN_ADDR (NOT (rd FIO2PIN_ADDR m) AND push_bit k 1) m"

definition ti_task :: "int \<Rightarrow> int \<Rightarrow> nat \<Rightarrow> tmr_state \<Rightarrow> tmr_state option" where
  "ti_task k interval pin t = do {
     (v, t) \<leftarrow> timer k RUN t;
     if v > interval then do {
       (_, t) \<leftarrow> timer k RESET t;
       Some (t\<lparr>tbus := toggle pin (tbus t)\<rparr>)
     } else Some t
   }"

definition ti_init :: "(nat \<Rightarrow> u32) \<Rightarrow> (nat \<Rightarrow> u32) \<Rightarrow> u32 \<Rightarrow> u32 \<Rightarrow> u32 \<Rightarrow> tmr_state \<Rightarrow> (u32 \<times> tmr_state) option" where
  "ti_init scs pllstat h0 h1 psr t = do {
     m \<leftarrow> lowLevelInit scs pllstat (tbus t);
     let m = init_VIC m;
     let m = wr_or FIO2DIR (push_bit 21 1) m;
     let m = wr_or FIO2DIR (push_bit 22 1) m;
     let (_, t) = initTimer h0 h1 0 10 (t\<lparr>tbus := m\<rparr>);
     let (_, psr) = enableIRQ psr;
     let t = enableTimer 0 t;
     (_, t) \<leftarrow> timer 0 RESET t;
     (_, t) \<leftarrow> timer 1 RESET t;
     Some (psr, t)
   }"

definition ti_round :: "tmr_state \<Rightarrow> tmr_state option" where
  "ti_round t = do { t \<leftarrow> ti_task 0 230 22 t; ti_task 1 100 21 t }"

text \<open>Timer interrupts (\<open>True\<close>) and rounds of the loop in any order.\<close>

fun ti_run :: "bool list \<Rightarrow> tmr_state \<Rightarrow> tmr_state option" where
  "ti_run [] t = Some t"
| "ti_run (e # es) t = do { t \<leftarrow> (if e then Some (TMR0_Handler t) else ti_round t); ti_run es t }"

section \<open>Accesses to external memory\<close>

abbreviation (input) "HW_REG1 \<equiv> (0x82000000 :: u32)"
abbreviation (input) "HW_REG2 \<equiv> (0x82000004 :: u32)"

text \<open>The locals of \<open>main\<close>, a 16-bit and a 32-bit integer without initial values, and the bus.\<close>

record eq_state =
  Sval :: int
  Lval :: int
  eq_bus :: mmio

text \<open>This project's \<^verbatim>\<open>framework.c\<close> sets other wait states for the external memory.\<close>

definition eq_lowLevelInit :: "(nat \<Rightarrow> u32) \<Rightarrow> (nat \<Rightarrow> u32) \<Rightarrow> mmio \<Rightarrow> mmio option" where
  "eq_lowLevelInit scs pllstat m = do {
     m \<leftarrow> lowLevelInit scs pllstat m;
     let m = wr 0xFFE08000 0x00000001 m;
     let m = wr_or SYS_PCONP 0x00000800 m;
     let m = wrs [(0xE002C010, 0x10000000), (0xE002C018, 0x55555555), (0xE002C020, 0x55555555),
                  (0xE002C024, 0x50555555)] m;
     Some (wrs [(0xFFE08240, 0x00000081), (0xFFE08244, 0x2), (0xFFE08248, 0x1), (0xFFE0824C, 0x03),
                (0xFFE08250, 0x1f), (0xFFE08254, 0x1f), (0xFFE08258, 0xf)] m)
   }"

definition eq_init :: "(nat \<Rightarrow> u32) \<Rightarrow> (nat \<Rightarrow> u32) \<Rightarrow> (nat \<Rightarrow> u32) \<Rightarrow> int \<Rightarrow> int \<Rightarrow> mmio \<Rightarrow> eq_state option" where
  "eq_init scs pllstat lsr sval0 lval0 m = do {
     m \<leftarrow> eq_lowLevelInit scs pllstat m;
     let m = initUart0 (UART_BPS 28800000 115200) UART_8N1 m;
     u \<leftarrow> rprintf1RamRom (uart_put lsr) ([13, 10] @ text_of ''Welcome to EMC test program!'' @ [13, 10]) [] (0, m);
     (_, m) \<leftarrow> rprintf1RamRom (uart_put lsr) ([13, 10] @ text_of ''Push joystick '' @ [13, 10] @
        text_of '' UP/DOWN/RIGHT/LEFT '' @ [13, 10] @ text_of '' to get activity on the Address Data bus'') [] u;
     Some \<lparr>Sval = sval0, Lval = lval0, eq_bus = m\<rparr>
   }"

text \<open>One round; \<open>r2\<close> and \<open>r3\<close> are what the second and the third register read.\<close>

definition eq_round :: "u32 \<Rightarrow> u32 \<Rightarrow> u16 \<Rightarrow> eq_state \<Rightarrow> eq_state" where
  "eq_round pins r2 r3 s =
     (let key = readKeys pins in
      if key = UP then s\<lparr>eq_bus := wr HW_REG1 (ucast (word_of_int (Sval s) :: u16)) (eq_bus s), Sval := s16 (Sval s + 1)\<rparr>
      else if key = DOWN then s\<lparr>eq_bus := wr HW_REG2 (word_of_int (Lval s)) (eq_bus s), Lval := s32 (Lval s + 1)\<rparr>
      else if key = LEFT then s\<lparr>Sval := sint r3\<rparr>
      else if key = RIGHT then s\<lparr>Lval := sint r2\<rparr>
      else s)"

section \<open>Properties\<close>

subsection \<open>FPGA shell\<close>

lemma wbo_stores:
  "stores_at a (snd (io (wbo r v s))) = stores_at a (snd (io s)) @ (if a = r then [ucast (word_of_int v :: u16)] else [])"
  by (simp add: wbo_def stores_at_wr)

lemma wb_eval_count:
  assumes "cmd s \<in> {CNT_UP, CNT_DWN}"
  shows "pwm (wb_eval s) = pwm s" "cmd (wb_eval s) = cmd s" "io (wb_eval s) = io s"
  using assms by (auto simp: wb_eval_def)

lemma wb_keys_count:
  assumes "cmd s \<in> {CNT_UP, CNT_DWN}"
  shows "pwm (wb_keys p s) = pwm s" "cmd (wb_keys p s) \<in> {CNT_UP, CNT_DWN}"
    "set (stores_at WBO_REG2 (snd (io (wb_keys p s)))) \<subseteq>
      set (stores_at WBO_REG2 (snd (io s))) \<union> {ucast (word_of_int (pwm s) :: u16), 0x8000}"
  using assms by (auto simp: wb_keys_def Let_def wbo_stores)

lemma wb_loop_stuck:
  assumes "cmd s \<in> {CNT_UP, CNT_DWN}"
  shows "pwm (wb_loop ps s) = pwm s \<and> set (stores_at WBO_REG2 (snd (io (wb_loop ps s)))) \<subseteq>
    set (stores_at WBO_REG2 (snd (io s))) \<union> {ucast (word_of_int (pwm s) :: u16), 0x8000}"
  using assms
proof (induction ps arbitrary: s)
  case (Cons p ps)
  note e = wb_eval_count [OF Cons.prems]
  have c: "cmd (wb_eval s) \<in> {CNT_UP, CNT_DWN}" using Cons.prems e(2) by simp
  note k = wb_keys_count [OF c, of p]
  from Cons.IH [OF k(2)] k(1,3) e(1,3) show ?case by auto
qed auto

text \<open>
  C36 The shell never changes the duty cycle: the cases LEFT and RIGHT of the loop do not set the
  command, so once the command is a count command it stays one, and whatever keys are pressed, pwm
  keeps its value and no other value (apart from the reset value 0x8000) is stored to the PWM
  register of the FPGA. Instead, a press of LEFT or RIGHT that is seen in one round and released
  repeats the last count command.
\<close>
theorem wb_pwm_stuck:
  assumes "cmd s = CNT_UP \<or> cmd s = CNT_DWN"
  shows "pwm (wb_loop ps s) = pwm s \<and> set (stores_at WBO_REG2 (snd (io (wb_loop ps s)))) \<subseteq>
      set (stores_at WBO_REG2 (snd (io s))) \<union> {ucast (word_of_int (pwm s) :: u16), 0x8000} \<and>
    (readKeys p \<in> {LEFT, RIGHT} \<and> readKeys q = 0 \<and> pressed s = 0 \<and> released s = 1 \<longrightarrow>
       count (wb_loop [p, q] s) = s16 (if cmd s = CNT_UP then count s + 1 else count s - 1))"
proof -
  have "cmd s \<in> {CNT_UP, CNT_DWN}" using assms by simp
  from wb_loop_stuck [OF this, of ps] assms show ?thesis
    by (auto simp: wb_keys_def wb_eval_def Let_def)
qed

theorem wb_pwm_stuck_witness:
  "count (wb_loop [NOT LEFT, 0xFFFFFFFF]
     \<lparr>io = (0, mmio0), count = 5, pwm = - 0x8000, pressed = 0, released = 1, cmd = 0\<rparr>) = 6"
proof -
  have k: "readKeys (NOT LEFT) = LEFT" "readKeys 0xFFFFFFFF = 0" by code_simp+
  show ?thesis
    using wb_pwm_stuck [of "\<lparr>io = (0, mmio0), count = 5, pwm = - 0x8000, pressed = 0, released = 1, cmd = 0\<rparr>"
        "[]" "NOT LEFT" "0xFFFFFFFF"] k
    by (simp add: wrap_simps del: wb_loop.simps)
qed

subsection \<open>Soft timers and pins\<close>

definition pins_apart :: "mmio \<Rightarrow> bool" where
  "pins_apart m \<longleftrightarrow> \<not> (bit (rd FIO2PIN_ADDR m) 21 \<and> bit (rd FIO2PIN_ADDR m) 22)"

lemma toggle_apart: "k < 32 \<Longrightarrow> pins_apart (toggle k m)"
  by (auto simp: pins_apart_def toggle_def rd_wr bit_and_iff bit_exp_iff)

lemma ti_task_apart:
  assumes "length (timers t) = 10" "pins_apart (tbus t)" "0 \<le> k" "k < 10" "pin < 32"
  shows "\<exists>t'. ti_task k iv pin t = Some t' \<and> length (timers t') = 10 \<and> pins_apart (tbus t')"
proof -
  obtain v t1 where 1: "timer k RUN t = Some (v, t1)" "tbus t1 = tbus t" "length (timers t1) = 10"
    using timer_returns [OF assms(1,3,4)] by blast
  obtain v' t2 where "timer k RESET t1 = Some (v', t2)" "tbus t2 = tbus t1" "length (timers t2) = 10"
    using timer_returns [OF 1(3) assms(3,4)] by blast
  with 1 assms(2) toggle_apart [OF assms(5)] show ?thesis by (simp add: ti_task_def)
qed

lemma ti_round_apart:
  assumes "length (timers t) = 10" "pins_apart (tbus t)"
  shows "\<exists>t'. ti_round t = Some t' \<and> length (timers t') = 10 \<and> pins_apart (tbus t')"
proof -
  obtain t1 where 1: "ti_task 0 230 22 t = Some t1" "length (timers t1) = 10" "pins_apart (tbus t1)"
    using ti_task_apart [OF assms, of 0 22 230] by auto
  then show ?thesis using ti_task_apart [OF 1(2,3), of 1 21 100] by (simp add: ti_round_def)
qed

lemma handler_apart:
  "length (timers (TMR0_Handler t)) = length (timers t)" "pins_apart (tbus (TMR0_Handler t)) = pins_apart (tbus t)"
  by (simp_all add: TMR0_Handler_def pins_apart_def Let_def rd_wr)

lemma ti_run_apart:
  assumes "length (timers t) = 10" "pins_apart (tbus t)"
  shows "\<exists>t'. ti_run es t = Some t' \<and> length (timers t') = 10 \<and> pins_apart (tbus t')"
  using assms
proof (induction es arbitrary: t)
  case (Cons e es)
  show ?case
  proof (cases e)
    case True
    then show ?thesis using Cons.IH [of "TMR0_Handler t"] Cons.prems by (simp add: handler_apart)
  next
    case False
    obtain t1 where "ti_round t = Some t1" "length (timers t1) = 10" "pins_apart (tbus t1)"
      using ti_round_apart [OF Cons.prems] by blast
    then show ?thesis using Cons.IH [of t1] False by simp
  qed
qed simp

text \<open>
  The two tasks of the timer program share the port: a store that toggles the pin of one clears
  every other pin. However timer interrupts and rounds of the loop are interleaved, the loop never
  gets stuck and the two pins are never high at the same time, provided that they are not when it
  starts.
\<close>
theorem ti_pins_exclusive:
  assumes "length (timers t) = 10" "\<not> (bit (rd FIO2PIN_ADDR (tbus t)) 21 \<and> bit (rd FIO2PIN_ADDR (tbus t)) 22)"
  shows "\<exists>t'. ti_run es t = Some t' \<and> length (timers t') = 10 \<and>
    \<not> (bit (rd FIO2PIN_ADDR (tbus t')) 21 \<and> bit (rd FIO2PIN_ADDR (tbus t')) 22)"
  using ti_run_apart [OF assms(1)] assms(2) unfolding pins_apart_def by blast

theorem ti_pins_exclusive_witness:
  "\<exists>t'. ti_run [True, False, True, False] tmr0 = Some t' \<and>
    \<not> (bit (rd FIO2PIN_ADDR (tbus t')) 21 \<and> bit (rd FIO2PIN_ADDR (tbus t')) 22)"
proof -
  have "length (timers tmr0) = 10" "\<not> (bit (rd FIO2PIN_ADDR (tbus tmr0)) 21 \<and> bit (rd FIO2PIN_ADDR (tbus tmr0)) 22)"
    by (simp_all add: tmr0_def mmio_simps)
  from ti_pins_exclusive [OF this, of "[True, False, True, False]"] show ?thesis by blast
qed

subsection \<open>Accesses to external memory\<close>

text \<open>While UP is held every round of the loop stores the next value: the key is not debounced.\<close>

lemma eq_hold_up:
  assumes "readKeys p = UP"
  shows "stores_at HW_REG1 (eq_bus ((eq_round p r2 r3 ^^ k) s)) = stores_at HW_REG1 (eq_bus s) @
      map (\<lambda>i. ucast (word_of_int (Sval s + int i) :: u16)) [0..<k] \<and>
    (word_of_int (Sval ((eq_round p r2 r3 ^^ k) s)) :: u16) = word_of_int (Sval s + int k)"
proof (induction k)
  case (Suc k)
  have "(word_of_int (s16 x) :: u16) = word_of_int x" for x
    by (rule bit_word_eqI) (auto simp: s16_def bit_simps min_absorb2)
  with Suc assms show ?case by (simp add: eq_round_def stores_at_wr)
qed simp

end
