(* ===== verification/Spec2Isabelle.thy ===== *)
theory Spec2Isabelle
  imports Can_Hw Can_Main Can_Type Swim_Image Colorbars Backlight Oocan Codesign Demos Touch_Draw Demos_Serial Demos_Pins
begin

text \<open>
  Verification of the LPC2478 firmware in \<^verbatim>\<open>src/lpc2478_CAN\<close>: the CAN, SPI, touch panel, LCD, serial
  and clock drivers, the SWIM window library, and the programs built on them, the CAN demo (\<^verbatim>\<open>main.c\<close>),
  the touch screen calibration (\<^verbatim>\<open>calib_app.c\<close>) and the clock display (\<^verbatim>\<open>lcd_colorbars.c\<close>); and of
  programs on the same board with drivers of their own: the backlight program
  \<^verbatim>\<open>src/lpc2478_pwm_backlight\<close>, the FPGA application \<^verbatim>\<open>src/Codesign_FPGA_IP/App\<close>, two programs
  that follow the touch (\<^verbatim>\<open>src/lpc2478_lcd_cursor\<close>, \<^verbatim>\<open>src/lpc2478_lcd_touch\<close>) and ten small demos.
  File names below are relative to \<^verbatim>\<open>src/lpc2478_CAN\<close> unless they say otherwise.

  \<^bold>\<open>The program.\<close> \<^verbatim>\<open>main\<close> sets up the clocks, the interrupt controller, the serial port and the
  external memory, opens both CAN controllers and then sends one frame per round on the first and
  drains the second. The CAN driver queues frames in two rings per controller; its interrupt handler
  fills the receive ring and empties the transmit ring, so driver calls and handler runs interleave.
  The calibration opens the display, whose panel is programmed over the SPI port, draws three marks
  with the window library, waits for a touch at each and derives the calibration matrix that the touch
  driver then applies to every sample. LCD driver and touch driver share the SPI port: both call it
  through a function pointer. \<^verbatim>\<open>rprintf\<close> prints on the serial port through another. The backlight program
  polls the joystick whenever a soft timer, driven by a timer interrupt, has expired, and sets the
  duty cycle of a pulse width modulator. The FPGA application turns joystick keys into commands that
  change a counter and a duty cycle in registers of the FPGA. The touch programs compose the whole of it:
  the start-up, the calibration, and a loop that moves the cursor of the display or draws a pixel at
  every sample.

  \<^bold>\<open>Theories and sources.\<close>
  \<^item> \<open>Prelude\<close>: the integer types of the C code, memory mapped registers with a log of the writes, and
    the polling loop \<open>poll\<close>. \<open>Fifo\<close>: the locales \<open>bounded_fifo\<close>, \<open>fifo_reader\<close> and \<open>fifo_writer\<close>, the
    contract of a bounded queue and of the loops that read and write it, and the list a ring holds.
  \<^item> \<open>Irq\<close>: \<^verbatim>\<open>platform/irq.c\<close>, \<^verbatim>\<open>platform/VIClowlevel.c\<close>.
  \<^item> \<open>Can_Regs\<close>, \<open>Can\<close>: \<^verbatim>\<open>drivers/can_bitdefs.h\<close>, \<^verbatim>\<open>drivers/can.h\<close>, \<^verbatim>\<open>drivers/can.c\<close>. The static structures
    \<^verbatim>\<open>can1cfg\<close> and \<^verbatim>\<open>can2cfg\<close> with the register blocks are the record \<open>can_state\<close>; each function is a
    definition of the same name on it, and the parts of a long one have a definition each. The rings
    interpret the queue locales as \<open>rxf\<close> and \<open>txf\<close>. \<open>Can_Control\<close> holds the properties of the control
    operations and the interrupt handler.
  \<^item> \<open>Can_System\<close>: the CAN part of \<^verbatim>\<open>main.c\<close>, and the step relation of driver calls, handler runs and
    controllers. \<open>Can_Main\<close>: \<^verbatim>\<open>main.c\<close> from reset, the endless loop as a list of rounds with the handler
    runs before each. \<open>Can_Type\<close>: arbitrary sequences of driver calls.
  \<^item> \<open>Can_Stmt\<close>: \<open>can_read\<close>, \<open>can_write\<close> and \<open>can_standard_transmit\<close> of \<^verbatim>\<open>drivers/can.c\<close> again, one statement at
    a time, with the position in the code as part of the state; \<open>Can_Race\<close>: these statements interleaved
    with the interrupt handler; \<open>Can_Hw\<close>: the same on a controller whose capture register is cleared on read.
  \<^item> \<open>Calibrate\<close>: \<^verbatim>\<open>drivers/calibrate.c\<close>. \<open>Spi\<close>: \<^verbatim>\<open>drivers/spi.c\<close>. \<open>Touch\<close>: \<^verbatim>\<open>drivers/touch.c\<close>, with the
    locale \<open>spi_port\<close> for the transfer function it is given, interpreted by \<open>SpiXfer\<close> as \<open>sp\<close>.
  \<^item> \<open>Platform\<close>: \<^verbatim>\<open>platform/framework.c\<close>, \<^verbatim>\<open>platform/syscalls.c\<close>, \<^verbatim>\<open>drivers/timer_delay.c\<close>,
    \<^verbatim>\<open>drivers/lcd/ex_sdram.c\<close>, \<^verbatim>\<open>drivers/uart.c\<close>, \<^verbatim>\<open>drivers/rtc.c\<close>.
  \<^item> \<open>Swim\<close>, \<open>Swim_Lines\<close>: \<^verbatim>\<open>drivers/swim/lpc_swim.c\<close>. \<open>Swim_Image\<close>: \<^verbatim>\<open>drivers/swim/lpc_swim_image.c\<close>.
    \<open>Swim_Font\<close>: \<^verbatim>\<open>drivers/swim/lpc_swim_font.c\<close>. The structure \<open>SWIM_WINDOW_T\<close> is a record, the frame
    buffer a memory of pixels that every drawing function returns updated.
  \<^item> \<open>Rprintf\<close>: \<^verbatim>\<open>platform/rprintf.c\<close>, over a character sink; the locale \<open>char_sink\<close> says what a sink
    promises, and \<^verbatim>\<open>putchar\<close> of the serial port interprets it as \<open>us\<close>.
  \<^item> \<open>Lcd\<close>, \<open>Lcd_Panel\<close>: \<^verbatim>\<open>drivers/lcd/lcd_driver.c\<close> with its headers and panel parameters; the panel's
    side of the serial protocol is the state machine \<open>panel_step\<close>.
  \<^item> \<open>Calib_App\<close>, \<open>Calib_Quiet\<close>, \<open>Calib_Start\<close>: \<^verbatim>\<open>calib_app.c\<close>, the composition of LCD driver, window library, touch driver and
    SPI port; the locale \<open>lcd_opener\<close> is what the calibration relies on when it opens the display.
  \<^item> \<open>Startup\<close>: what the main programs share when they start.
  \<^item> \<open>Touch_Apps\<close>: \<^verbatim>\<open>main.c\<close> of both touch programs; the locales \<open>touch_loop\<close> and \<open>touch_app\<close> say what it relies
    on. \<open>Cursor\<close>: \<^verbatim>\<open>calib_app.c\<close> of \<^verbatim>\<open>src/lpc2478_lcd_cursor\<close>, \<open>Touch_Draw\<close>: that of \<^verbatim>\<open>src/lpc2478_lcd_touch\<close>; each
    interprets the locales, as \<open>cu\<close> and as \<open>tt\<close>, and its properties are about the program from reset.
  \<^item> \<open>Colorbars\<close>: \<^verbatim>\<open>drivers/lcd/lcd_colorbars.c\<close>.
  \<^item> \<open>Backlight\<close>: \<^verbatim>\<open>main.c\<close>, \<^verbatim>\<open>timer.c\<close>, \<^verbatim>\<open>pwm.c\<close> and \<^verbatim>\<open>keys.c\<close> of \<^verbatim>\<open>src/lpc2478_pwm_backlight\<close>; an execution is a
    list of events, a timer interrupt or the next part of the main loop.
  \<^item> \<open>Oocan\<close>: \<^verbatim>\<open>drivers/oocan.c\<close>, a second CAN driver with one receive buffer per controller.
  \<^item> \<open>Codesign\<close>: \<^verbatim>\<open>main.c\<close>, \<^verbatim>\<open>timer.c\<close>, \<^verbatim>\<open>adc.c\<close>, \<^verbatim>\<open>spi.c\<close>, \<^verbatim>\<open>keys.c\<close> and \<^verbatim>\<open>framework.c\<close> of \<^verbatim>\<open>src/Codesign_FPGA_IP/App\<close>.
  \<^item> \<open>Demos\<close>: the main programs and own drivers of \<^verbatim>\<open>src/lpc2478_uart_n_timer_irq\<close>, \<^verbatim>\<open>src/buttonTest\<close>,
    \<^verbatim>\<open>src/lpc2478_irq_template\<close> and \<^verbatim>\<open>src/lpc2478_rtc_alarm\<close>.
  \<^item> \<open>Demos_Serial\<close>: \<^verbatim>\<open>src/lpc2478_uart\<close>, \<^verbatim>\<open>src/lpc2478_uart_to_SPI\<close>, \<^verbatim>\<open>src/lpc2478_RealTimeClock\<close>. \<open>Demos_Pins\<close>:
    \<^verbatim>\<open>src/WB_shell/App\<close>, \<^verbatim>\<open>src/lpc2478_timer_irq\<close>, \<^verbatim>\<open>src/emc_quiz_code\<close>.

  \<^bold>\<open>What is shown.\<close>
  \<^item> CAN: \<open>can_read\<close> and \<open>can_write\<close> refine the operations of a bounded queue; over every sequence of calls,
    and of handler runs between them, no frame is lost, duplicated or reordered in the driver, and no
    reachable state is stuck; a frame written is the frame a controller loads, and back; baud rate and mode read back as set; what the
    handler does for each interrupt source, and the transmit interrupt it loses. Every driver call keeps
    the state well formed and fails only at a null register pointer or a bus that never answers; \<open>main\<close>
    starts up with all its devices ready and each round of its loop returns. The statements of a call
    compute the call. Interleaved with the handler they lose no received frame, and no frame to be sent
    as long as no transmit interrupt is served inside the transmission that \<open>can_write\<close> starts, which it does
    with interrupts on. With a capture register that is cleared on read, as documented, they lose none at
    all unless a frame is requested by the handler and has left the buffer while the call stands between
    its test of the ring and its test of the buffer: then a frame is sent that nobody wrote, and the ring
    blocks. The second driver
    transmits through the first free buffer and builds the acceptance filter's table while the filter is
    off.
  \<^item> Touch: the calibration maps the three samples exactly to the three marks and agrees with an affine
    map elsewhere; the driver's transfers are the frames the panel expects; the calibration program,
    from its start, ends after three separate touches and calibrates with their first samples. From reset,
    the cursor program then moves the cursor to every sample, unless its x is negative; the drawing
    program draws every sample below the point that was touched, and can draw in front of the frame buffer.
  \<^item> Display: boxes, frames, images, scrolling and text change exactly the pixels they should, and
    never one outside the window; the panel decodes the register writes the driver means to make; the
    timing and pixel format fields read back.
  \<^item> Printing: \<open>rprintf\<close> sends what the format denotes; the number printers send numerals that read back
    as the number, and where they do not; the clock display's number string has a stale character.
  \<^item> Backlight: in every interleaving of main loop and timer interrupts the duty cycle stays between 0 and
    100 and the registers agree with it, the keys are read at most every 210 ms and then are served,
    and a soft timer measures the time across wrap-around of its counters.
  \<^item> FPGA application and demos: what a key press does, which is to count twice; the clock the converter
    runs at; the greeting that is cut, the stale characters after a key's name, what the alarm clock
    prints in each round; the echo of every character received and the clock that prints each change of
    its second; the serial ports that are never configured, the clock that is too fast, and the keys
    that never change the duty cycle.
  \<^item> Every loop: structural, with a termination proof, or a poll of the hardware that returns if the
    hardware ever answers.

  \<^bold>\<open>Bounds and parameters.\<close> A value read from hardware that the code does not determine (a status or
  data register, the timer) is a parameter, a function from the number of the read; \<open>poll\<close> is a
  partial function, \<open>None\<close> if no read satisfies its test, and the theorems that a loop returns assume
  that the awaited value does come (\<open>ready\<close>). The SPI transfer gives up after 500 status reads and
  \<open>spiSend\<close> after 5000, as in the code, so they need no such assumption. Dereferencing a null or unknown
  pointer, dividing by zero and writing outside a local array are the result \<open>None\<close>. A driver call is
  one step in \<open>Can_System\<close> and \<open>Can_Main\<close>, so that the handler runs between calls there, and a round of the
  main loop is taken without interrupts; in \<open>Can_Race\<close> and \<open>Can_Hw\<close> a step is a statement; a store to a bit field of the interrupt
  enable register, which the handler writes too, is two steps, the load of the register and the store of
  the whole word. Stores to bit fields of the other registers are one step: the handler writes
  those only in a run that \<open>g_race\<close> marks, except the command register, which is write-only. There the
  controller's capture register is assumed to show an event only while its enable is on
  (\<open>icr_gated\<close>), and in \<open>Can_Hw\<close> to be cleared on read (\<open>icr_clears\<close>). The handles passed to the CAN driver are
  those of its two device structures, as in \<^verbatim>\<open>main.c\<close>; a null handle would be dereferenced. Fonts, bitmaps, and the addresses of objects are parameters; windows have coordinates below 32768, which every display the code names satisfies.

  \<^bold>\<open>Not modelled.\<close> Start-up code in assembly; the variants of \<^verbatim>\<open>rprintf\<close>, the prints of the CAN demo's
  loop and the CAN controllers 3 and 4, which are compiled out; \<^verbatim>\<open>dac.c\<close> of the FPGA application, which
  is not linked; the font and bitmap tables, which are data; the further demo projects and \<^verbatim>\<open>src/MAC\<close>,
  which are copies of these drivers and programs with a few lines of \<^verbatim>\<open>main.c\<close> each; the vendored
  U-Boot, and the simulator output of the FPGA designs.
\<close>

end
